(* ===== verification/GoPrelude.thy ===== *)
theory GoPrelude
  imports "HOL-Library.Word" "HOL-Library.AList" "HOL-Library.Sublist"
begin

text \<open>
  The vocabulary every component shares.

  \<^item> Bytes and identifiers keep their machine width: a Go \<^verbatim>\<open>[]byte\<close> is a list of 8-bit words,
    a \<^verbatim>\<open>uint64\<close> a 64-bit word.
  \<^item> A Go \<^verbatim>\<open>map\<close> is an association list with distinct keys.  Go iterates a map in an
    unspecified order; a statement about every association list therefore covers every
    iteration order.  A map that may be \<^verbatim>\<open>nil\<close> is an option of such a list.
  \<^item> A Go \<^verbatim>\<open>error\<close> is a value of \<open>err\<close>; \<^verbatim>\<open>nil\<close> is \<^const>\<open>None\<close> of \<open>err option\<close>.
  \<^item> A call that does not return in the given state (a receive on an empty channel, a wait on a
    non-zero wait group) is \<^const>\<open>None\<close> of an option type.
  \<^item> Safety of a step relation is proved through the locale \<open>inductive_invariant\<close>.
\<close>

section \<open>Types\<close>

type_synonym byte = "8 word"
type_synonym bytes = "byte list"
type_synonym uint64 = "64 word"
type_synonym ('k, 'v) gomap = "('k \<times> 'v) list"

named_theorems gomap "lookup, size and well-formedness of Go maps"

section \<open>Errors\<close>

text \<open>
  The codes of a gRPC status that the sources mention.  The other codes a peer may send are
  \<open>OtherCode\<close>.
\<close>

datatype grpc_code =
    OK | Canceled | Unknown | InvalidArgument | DeadlineExceeded | NotFound | AlreadyExists
  | PermissionDenied | ResourceExhausted | FailedPrecondition | Aborted | Unimplemented
  | Internal | Unavailable | Unauthenticated | OtherCode nat

text \<open>
  Errors.  Sentinel values of the standard library and of the sources have a constructor each, a
  sentinel of a third-party package is \<open>ErrForeign\<close> with the qualified name of the variable,
  \<open>ErrText\<close> is an error made from a message, \<open>ErrWrap\<close> an error annotated with a message
  (it unwraps to the error inside), \<open>ErrStatus\<close> the error of a gRPC status, \<open>ErrTyped\<close> an error
  struct of the sources, given by the name of its type and the string it carries.
\<close>

datatype err =
    EOF
  | ErrClosedPipe
  | CtxCanceled
  | CtxDeadlineExceeded
  | ErrExpectedClosure
  | ErrIllegalHeaderWrite
  | ErrDataChannelClosed
  | ErrForeign string
  | ErrText string
  | ErrWrap string err
  | ErrStatus grpc_code string
  | ErrTyped string string

text \<open>\<^verbatim>\<open>errors.Is\<close> of the standard library on these values: follow the wrapping.\<close>

fun errorsIs :: "err \<Rightarrow> err \<Rightarrow> bool" where
  "errorsIs (ErrWrap m e) t \<longleftrightarrow> ErrWrap m e = t \<or> errorsIs e t"
| "errorsIs e t \<longleftrightarrow> e = t"

lemma errorsIs_refl [simp]: "errorsIs e e"
  by (cases e) simp_all

text \<open>\<^verbatim>\<open>errors.Is\<close> on a possibly nil error: nil is no sentinel.\<close>

definition errIs :: "err option \<Rightarrow> err \<Rightarrow> bool" where
  "errIs e t = (case e of None \<Rightarrow> False | Some x \<Rightarrow> errorsIs x t)"

lemma errIs_simps [simp]:
  "errIs None t = False"
  "errIs (Some x) t = errorsIs x t"
  by (simp_all add: errIs_def)

text \<open>\<^verbatim>\<open>errors.Wrap\<close>: wrapping nil gives nil.\<close>

definition wrapErr :: "err option \<Rightarrow> string \<Rightarrow> err option" where
  "wrapErr e m = map_option (ErrWrap m) e"

lemma wrapErr_None [simp]: "wrapErr e m = None \<longleftrightarrow> e = None"
  by (simp add: wrapErr_def)

text \<open>A context's cancel function: the first cause stays.\<close>

definition cancelCtx :: "err option \<Rightarrow> err option" where
  "cancelCtx c = (case c of None \<Rightarrow> Some CtxCanceled | Some e \<Rightarrow> Some e)"

lemma cancelCtx_simps [simp]:
  "cancelCtx None = Some CtxCanceled"
  "cancelCtx (Some e) = Some e"
  by (simp_all add: cancelCtx_def)

lemma cancelCtx_done [simp]: "cancelCtx c \<noteq> None"
  by (cases c) simp_all

lemma cancelCtx_ex [simp]: "\<exists>e. cancelCtx c = Some e"
  by (cases c) simp_all

lemma cancelCtx_idem [simp]: "cancelCtx (cancelCtx c) = cancelCtx c"
  by (cases c) simp_all

section \<open>Select\<close>

text \<open>
  \<^verbatim>\<open>select\<close> without a default: each case is enabled with its outcome or not enabled; the statement
  takes an arbitrary enabled case (\<open>pick\<close>) and blocks (\<^const>\<open>None\<close>) when there is none.
\<close>

definition goSelect :: "nat \<Rightarrow> 'a option list \<Rightarrow> 'a option" where
  "goSelect pick cs =
     (let enabled = map the (filter (\<lambda>c. c \<noteq> None) cs)
      in if enabled = [] then None else Some (enabled ! (pick mod length enabled)))"

lemma goSelect_enabled: "goSelect pick cs = Some x \<Longrightarrow> Some x \<in> set cs"
proof -
  assume x: "goSelect pick cs = Some x"
  define en where "en = filter (\<lambda>c. c \<noteq> None) cs"
  have ne: "en \<noteq> []" and "x = the (en ! (pick mod length en))"
    using x by (auto simp: goSelect_def en_def Let_def split: if_splits)
  moreover from ne have "en ! (pick mod length en) \<in> set en"
    by simp
  then obtain y where "en ! (pick mod length en) = Some y" "Some y \<in> set cs"
    by (auto simp: en_def)
  ultimately show ?thesis
    by simp
qed

lemma goSelect_blocks [simp]: "goSelect pick cs = None \<longleftrightarrow> set cs \<subseteq> {None}"
  by (auto simp: goSelect_def Let_def filter_empty_conv)

section \<open>Go maps\<close>

abbreviation wfmap :: "('k, 'v) gomap \<Rightarrow> bool" where
  "wfmap m \<equiv> distinct (map fst m)"

abbreviation mget :: "('k, 'v) gomap \<Rightarrow> 'k \<Rightarrow> 'v option" where
  "mget m k \<equiv> map_of m k"

abbreviation mput :: "'k \<Rightarrow> 'v \<Rightarrow> ('k, 'v) gomap \<Rightarrow> ('k, 'v) gomap" where
  "mput k v m \<equiv> AList.update k v m"

abbreviation mdel :: "'k \<Rightarrow> ('k, 'v) gomap \<Rightarrow> ('k, 'v) gomap" where
  "mdel k m \<equiv> AList.delete k m"

lemma mget_mput [simp, gomap]:
  "mget (mput k v m) k' = (if k' = k then Some v else mget m k')"
  by (simp add: update_conv')

lemma mget_mdel [simp, gomap]:
  "mget (mdel k m) k' = (if k' = k then None else mget m k')"
  by (simp add: delete_conv')

lemma wfmap_mput [simp, gomap]: "wfmap m \<Longrightarrow> wfmap (mput k v m)"
  by (rule distinct_update)

lemma wfmap_mdel [simp, gomap]: "wfmap m \<Longrightarrow> wfmap (mdel k m)"
  by (rule distinct_delete)

lemma set_mput [gomap]: "set (mput k v m) \<subseteq> insert (k, v) (set m)"
  by (induction m) auto

lemma set_mdel [gomap]: "set (mdel k m) \<subseteq> set m"
  by (auto simp: AList.delete_eq)

lemma length_mput [gomap]:
  "length (mput k v m) = (if mget m k = None then Suc (length m) else length m)"
  by (induction m) auto

lemma length_mdel_le [gomap]: "length (mdel k m) \<le> length m"
  by (simp add: AList.delete_eq)

lemma keys_mdel [gomap]: "fst ` set (mdel k m) = fst ` set m - {k}"
  using arg_cong [OF delete_keys [of k m], of set] by simp

lemma length_mdel [gomap]:
  assumes "wfmap m"
  shows "length (mdel k m) = (if mget m k = None then length m else length m - 1)"
proof -
  have "length (mdel k m) = card (fst ` set m - {k})"
    using distinct_card [OF wfmap_mdel [OF assms, of k]] by (simp add: keys_mdel)
  also have "\<dots> = (if k \<in> fst ` set m then length m - 1 else length m)"
    using distinct_card [OF assms] by (simp add: card_Diff_singleton)
  finally show ?thesis
    by (simp add: map_of_eq_None_iff)
qed

text \<open>Copying a map entry by entry.\<close>

lemma mput_new: "k \<notin> fst ` set m \<Longrightarrow> mput k v m = m @ [(k, v)]"
  by (induction m) auto

lemma fold_mput_append:
  assumes "wfmap (acc @ m)"
  shows "fold (\<lambda>(key, values) result. mput key values result) m acc = acc @ m"
  using assms
proof (induction m arbitrary: acc)
  case (Cons x m)
  then show ?case
    using Cons.IH [of "acc @ [x]"] by (cases x) (auto simp: mput_new)
qed simp

lemma fold_mput_copy [simp]:
  "wfmap m \<Longrightarrow> fold (\<lambda>(key, values) result. mput key values result) m [] = m"
  using fold_mput_append [of "[]" m] by simp

section \<open>Reachability and invariants\<close>

text \<open>The states a step relation reaches from its start states.\<close>

inductive reach :: "('s \<Rightarrow> bool) \<Rightarrow> ('s \<Rightarrow> 's \<Rightarrow> bool) \<Rightarrow> 's \<Rightarrow> bool"
  for start :: "'s \<Rightarrow> bool" and step :: "'s \<Rightarrow> 's \<Rightarrow> bool" where
  reach_start: "start s \<Longrightarrow> reach start step s"
| reach_step: "reach start step s \<Longrightarrow> step s t \<Longrightarrow> reach start step t"

text \<open>
  The contract of an inductive invariant, shared by every step relation below: it holds at the
  start and every step keeps it.
\<close>

locale inductive_invariant =
  fixes start :: "'s \<Rightarrow> bool"
    and step :: "'s \<Rightarrow> 's \<Rightarrow> bool"
    and I :: "'s \<Rightarrow> bool"
  assumes start_inv: "start s \<Longrightarrow> I s"
    and step_inv: "I s \<Longrightarrow> step s t \<Longrightarrow> I t"
begin

lemma reach_inv: "reach start step s \<Longrightarrow> I s"
  by (induction rule: reach.induct) (auto intro: start_inv step_inv)

lemma steps_inv: "step\<^sup>*\<^sup>* s t \<Longrightarrow> I s \<Longrightarrow> I t"
  by (induction rule: rtranclp_induct) (auto intro: step_inv)

end

text \<open>Unfolding of runs on concrete states.\<close>

lemma reach_rtranclp:
  assumes "step\<^sup>*\<^sup>* s t" "reach start step s"
  shows "reach start step t"
  using assms by (induction rule: rtranclp_induct) (auto intro: reach_step)

section \<open>Strings and lists\<close>

text \<open>\<^verbatim>\<open>strings.Contains\<close>, \<^verbatim>\<open>strings.HasPrefix\<close>, \<^verbatim>\<open>strings.HasSuffix\<close> and \<^verbatim>\<open>strings.Join\<close>.\<close>

definition strContains :: "string \<Rightarrow> string \<Rightarrow> bool" where
  "strContains h n \<longleftrightarrow> list_ex (prefix n) (suffixes h)"

definition hasPrefix :: "string \<Rightarrow> string \<Rightarrow> bool" where
  "hasPrefix h p \<longleftrightarrow> prefix p h"

definition hasSuffix :: "string \<Rightarrow> string \<Rightarrow> bool" where
  "hasSuffix h p \<longleftrightarrow> suffix p h"

fun strJoin :: "string list \<Rightarrow> string \<Rightarrow> string" where
  "strJoin [] sep = []"
| "strJoin [x] sep = x"
| "strJoin (x # y # ys) sep = x @ sep @ strJoin (y # ys) sep"

text \<open>The verb \<^verbatim>\<open>%q\<close> on a string of printable characters without quotes and backslashes.\<close>

definition goQuote :: "string \<Rightarrow> string" where
  "goQuote s = [char_of (34 :: nat)] @ s @ [char_of (34 :: nat)]"

text \<open>\<^verbatim>\<open>strings.Split\<close> with a separator of one character.\<close>

fun splitOn :: "char \<Rightarrow> string \<Rightarrow> string list" where
  "splitOn c [] = [[]]"
| "splitOn c (x # xs) =
     (if x = c then [] # splitOn c xs
      else case splitOn c xs of [] \<Rightarrow> [[x]] | y # ys \<Rightarrow> (x # y) # ys)"

text \<open>The decimal digits of a number, as \<^verbatim>\<open>strconv\<close> and the verb \<^verbatim>\<open>%d\<close> print them.\<close>

fun decimal :: "nat \<Rightarrow> string" where
  "decimal n = (if n < 10 then [] else decimal (n div 10)) @ [''0123456789'' ! (n mod 10)]"

declare decimal.simps [simp del]

definition showInt :: "int \<Rightarrow> string" where
  "showInt i = (if i < 0 then CHR ''-'' # decimal (nat (- i)) else decimal (nat i))"

lemma splitOn_ne [simp]: "splitOn c s \<noteq> []"
  by (induction s) (auto split: list.splits)

lemma splitOn_plain: "c \<notin> set s \<Longrightarrow> splitOn c s = [s]"
  by (induction s) auto

lemma splitOn_append: "c \<notin> set x \<Longrightarrow> splitOn c (x @ c # y) = x # splitOn c y"
  by (induction x) auto

text \<open>Splitting undoes joining when no part holds the separator.\<close>

lemma splitOn_strJoin:
  "xs \<noteq> [] \<Longrightarrow> (\<And>x. x \<in> set xs \<Longrightarrow> c \<notin> set x) \<Longrightarrow> splitOn c (strJoin xs [c]) = xs"
  by (induction xs "[c]" rule: strJoin.induct) (simp_all add: splitOn_plain splitOn_append)

lemma strContains_sublist: "strContains h n \<longleftrightarrow> sublist n h"
  by (auto simp: strContains_def list_ex_iff sublist_altdef')

lemma take_drop_nonempty:
  assumes "xs \<noteq> []" "0 < n"
  shows "length (drop n xs) < length xs"
  using assms by (cases xs) (auto simp: Suc_le_eq)

end
