(* ===== verification/WebrtcProto.thy ===== *)
theory WebrtcProto
  imports GoPrelude
begin

text \<open>
  The frames that gRPC over a WebRTC data channel is made of
  (\<^verbatim>\<open>src/proto/rpc/webrtc/v1/grpc.pb.go\<close>) and the two conversions between them and gRPC
  metadata (\<^verbatim>\<open>metadataToProto\<close>, \<^verbatim>\<open>metadataFromProto\<close> of
  \<^verbatim>\<open>src/rpc/wrtc_base_stream.go\<close>).  A message field that is a pointer in Go is an option.
\<close>

section \<open>Frames\<close>

record packet_message =
  pmData :: bytes
  pmEom :: bool

text \<open>gRPC metadata: a map from keys to the list of values of the key.\<close>

type_synonym md = "(string, string list) gomap"

record metadata_proto =
  mdMap :: md

record request_headers =
  rhMethod :: string
  rhMetadata :: "metadata_proto option"
  rhTimeout :: int

record request_message =
  rmHasMessage :: bool
  rmPacket :: "packet_message option"
  rmEos :: bool

text \<open>The oneof of a request: \<open>ReqUnset\<close> is the nil interface of a frame with no member set.\<close>

datatype request_type =
    ReqHeaders "request_headers option"
  | ReqMessage request_message
  | ReqRstStream bool
  | ReqUnset

record request =
  reqStream :: "uint64 option"
  reqType :: request_type

record response_headers =
  rspMetadata :: "metadata_proto option"

record response_message =
  rspPacket :: packet_message

record response_trailers =
  rtStatus :: "(grpc_code \<times> string) option"
  rtMetadata :: "metadata_proto option"

datatype response_type =
    RespHeaders response_headers
  | RespMessage response_message
  | RespTrailers response_trailers
  | RespUnset

record response =
  respStream :: "uint64 option"
  respType :: response_type

section \<open>Metadata\<close>

text \<open>
  Both conversions copy the map entry by entry, in the order Go iterates it; an absent and an empty
  map both become nil.
\<close>

definition metadataToProto :: "md option \<Rightarrow> metadata_proto option" where
  "metadataToProto md =
     (case md of
        None \<Rightarrow> None
      | Some m \<Rightarrow>
          if length m = 0 then None
          else Some \<lparr> mdMap = fold (\<lambda>(key, values) result. mput key values result) m [] \<rparr>)"

definition metadataFromProto :: "metadata_proto option \<Rightarrow> md option" where
  "metadataFromProto mdProto =
     (case mdProto of
        None \<Rightarrow> None
      | Some p \<Rightarrow>
          if mdMap p = [] then None
          else Some (fold (\<lambda>(key, values) result. mput key values result) (mdMap p) []))"

lemma metadataToProto_wf:
  assumes "wfmap m" "m \<noteq> []"
  shows "metadataToProto (Some m) = Some \<lparr> mdMap = m \<rparr>"
  using assms by (simp add: metadataToProto_def)

lemma metadata_roundtrip:
  assumes "wfmap m"
  shows "metadataFromProto (metadataToProto (Some m)) = (if m = [] then None else Some m)"
  using assms by (simp add: metadataToProto_def metadataFromProto_def)

end
