(* ===== verification/BaseStream.thy ===== *)
theory BaseStream
  imports WebrtcProto
begin

text \<open>
  The part of a stream that clients and servers share: \<^verbatim>\<open>src/rpc/wrtc_base_stream.go\<close>.

  A stream owns a channel of capacity one (\<open>msgCh\<close>) between the goroutine that dispatches frames
  and the goroutine that calls \<^verbatim>\<open>RecvMsg\<close>.  A dispatcher that finds the channel full waits with
  the message in hand: that message is \<open>parked\<close>, and it is counted in \<open>activeSenders\<close>.
  Operations are atomic here; the interleaving of their steps under the mutex is the subject of
  theory \<open>CloseProtocol\<close>.
\<close>

section \<open>State\<close>

record base_stream =
  ctxErr :: "err option"
  bsId :: uint64
  msgCh :: "bytes list"
  msgChClosed :: bool
  bsErr :: "err option"
  recvClosed :: bool
  bsClosed :: bool
  packetBuf :: bytes
  activeSenders :: nat
  parked :: "bytes option"

definition MaxMessageSize :: nat where
  "MaxMessageSize = 2 ^ 25"

text \<open>The capacity of \<^verbatim>\<open>make(chan []byte, 1)\<close>.\<close>

definition msgChCap :: nat where
  "msgChCap = 1"

definition newWebRTCBaseStream :: "err option \<Rightarrow> uint64 \<Rightarrow> base_stream" where
  "newWebRTCBaseStream ctx stream =
     \<lparr> ctxErr = ctx, bsId = stream, msgCh = [], msgChClosed = False, bsErr = None,
       recvClosed = False, bsClosed = False, packetBuf = [], activeSenders = 0, parked = None \<rparr>"

section \<open>Receiving\<close>

text \<open>
  The closure inside \<^verbatim>\<open>RecvMsg\<close>: a non-blocking look at the channel that explains why nothing
  more will come.
\<close>

definition checkLastOrErr ::
    "err option \<Rightarrow> 'a base_stream_scheme \<Rightarrow> (bytes option \<times> err option) \<times> 'a base_stream_scheme" where
  "checkLastOrErr origErr s =
     (case msgCh s of
        msgBytes # rest \<Rightarrow> ((Some msgBytes, None), s\<lparr>msgCh := rest\<rparr>)
      | [] \<Rightarrow>
          if msgChClosed s then
            (case bsErr s of
               Some e \<Rightarrow> if errorsIs e ErrExpectedClosure then ((None, Some EOF), s) else ((None, Some e), s)
             | None \<Rightarrow>
                 (case origErr of
                    None \<Rightarrow> ((None, Some EOF), s)
                  | Some e \<Rightarrow> ((None, Some e), s)))
          else ((None, None), s))"

text \<open>
  What a call of \<^verbatim>\<open>RecvMsg\<close> gives its caller: a decoded message, an error, or a nil error with the
  message untouched.
\<close>

datatype 'm recv_result = RecvOk 'm | RecvErr err | RecvNil

definition decodeInto :: "(bytes \<Rightarrow> err + 'm) \<Rightarrow> bytes \<Rightarrow> 'm recv_result" where
  "decodeInto unmarshal b = (case unmarshal b of Inl e \<Rightarrow> RecvErr e | Inr m \<Rightarrow> RecvOk m)"

definition retErr :: "err option \<Rightarrow> 'm recv_result" where
  "retErr e = (case e of None \<Rightarrow> RecvNil | Some x \<Rightarrow> RecvErr x)"

text \<open>
  The \<^verbatim>\<open>select\<close> of \<^verbatim>\<open>RecvMsg\<close> takes either branch when both are ready; \<open>pickCtx\<close> is the choice.
  \<^const>\<open>None\<close>: neither is ready and the call blocks.  \<open>unmarshal\<close> is the protobuf decoder.
\<close>

definition recvMsgCtx ::
    "(bytes \<Rightarrow> err + 'm) \<Rightarrow> 'a base_stream_scheme \<Rightarrow> 'm recv_result \<times> 'a base_stream_scheme" where
  "recvMsgCtx unmarshal s =
     (case checkLastOrErr (ctxErr s) s of
        ((msgBytes, err), s') \<Rightarrow>
          (if err \<noteq> None then (retErr err, s')
           else (case msgBytes of
                   Some b \<Rightarrow> (decodeInto unmarshal b, s')
                 | None \<Rightarrow> (retErr (ctxErr s'), s'))))"

definition recvMsgCh ::
    "(bytes \<Rightarrow> err + 'm) \<Rightarrow> 'a base_stream_scheme \<Rightarrow> 'm recv_result \<times> 'a base_stream_scheme" where
  "recvMsgCh unmarshal s =
     (case msgCh s of
        msgBytes # rest \<Rightarrow> (decodeInto unmarshal msgBytes, s\<lparr>msgCh := rest\<rparr>)
      | [] \<Rightarrow> (case checkLastOrErr None s of ((_, err), s') \<Rightarrow> (retErr err, s')))"

definition RecvMsg ::
    "(bytes \<Rightarrow> err + 'm) \<Rightarrow> bool \<Rightarrow> 'a base_stream_scheme
      \<Rightarrow> ('m recv_result \<times> 'a base_stream_scheme) option" where
  "RecvMsg unmarshal pickCtx s =
     (let ctxReady = (ctxErr s \<noteq> None); chReady = (msgCh s \<noteq> [] \<or> msgChClosed s) in
      if ctxReady \<and> (pickCtx \<or> \<not> chReady) then Some (recvMsgCtx unmarshal s)
      else if chReady then Some (recvMsgCh unmarshal s)
      else None)"

section \<open>Closing\<close>

text \<open>\<^verbatim>\<open>closeRecv\<close> waits for the active senders before it closes the channel.\<close>

definition closeRecv :: "'a base_stream_scheme \<Rightarrow> 'a base_stream_scheme option" where
  "closeRecv s =
     (if recvClosed s then Some s
      else if 0 < activeSenders s then None
      else Some (s\<lparr>recvClosed := True, msgChClosed := True\<rparr>))"

text \<open>\<^verbatim>\<open>CloseRecv\<close> is \<^verbatim>\<open>closeRecv\<close> under the mutex.\<close>

definition CloseRecv :: "'a base_stream_scheme \<Rightarrow> 'a base_stream_scheme option" where
  "CloseRecv s = closeRecv s"

text \<open>
  The second component is the call of \<^verbatim>\<open>onDone\<close>: \<^const>\<open>Some\<close> of the stream id exactly when the
  owner's callback runs.
\<close>

definition closeWithError ::
    "err option \<Rightarrow> bool \<Rightarrow> 'a base_stream_scheme \<Rightarrow> ('a base_stream_scheme \<times> uint64 option) option" where
  "closeWithError err expected s =
     (if bsClosed s then Some (s, None)
      else
        (case closeRecv (s\<lparr>bsClosed := True\<rparr>) of
           None \<Rightarrow> None
         | Some s1 \<Rightarrow>
             let s2 = (if err \<noteq> None then s1\<lparr>bsErr := err\<rparr>
                       else if expected then s1\<lparr>bsErr := Some ErrExpectedClosure\<rparr>
                       else s1);
                 s3 = s2\<lparr>ctxErr := cancelCtx (ctxErr s2)\<rparr>
             in Some (s3, Some (bsId s3))))"

definition baseClose :: "'a base_stream_scheme \<Rightarrow> ('a base_stream_scheme \<times> uint64 option) option" where
  "baseClose s = closeWithError None False s"

definition closeFromTrailers ::
    "err option \<Rightarrow> 'a base_stream_scheme \<Rightarrow> ('a base_stream_scheme \<times> uint64 option) option" where
  "closeFromTrailers err s = closeWithError err (err = None) s"

section \<open>Reassembly and delivery\<close>

text \<open>\<^const>\<open>None\<close> is the result \<^verbatim>\<open>(nil, false)\<close>, \<^const>\<open>Some\<close> a complete message.\<close>

definition processMessage ::
    "packet_message \<Rightarrow> 'a base_stream_scheme \<Rightarrow> bytes option \<times> 'a base_stream_scheme" where
  "processMessage msg s =
     (if length (pmData msg) = 0 \<and> pmEom msg then (Some [], s)
      else if MaxMessageSize < length (pmData msg) + length (packetBuf s) then
        (None, s\<lparr>packetBuf := []\<rparr>)
      else
        let s1 = s\<lparr>packetBuf := packetBuf s @ pmData msg\<rparr> in
        if pmEom msg then (Some (packetBuf s1), s1\<lparr>packetBuf := []\<rparr>)
        else (None, s1))"

text \<open>
  The common end of both \<^verbatim>\<open>processMessage\<close> methods: hand a complete message to \<open>msgCh\<close>, or give
  up when the context is done.  With room in the channel and a finished context the \<^verbatim>\<open>select\<close> may
  take either branch (\<open>pickCtx\<close>); with neither the dispatcher parks.
\<close>

datatype send_outcome = Sent | Dropped | Parked

definition deliver ::
    "bool \<Rightarrow> bytes \<Rightarrow> 'a base_stream_scheme \<Rightarrow> send_outcome \<times> 'a base_stream_scheme" where
  "deliver pickCtx data s =
     (if recvClosed s then (Dropped, s)
      else
        let room = (length (msgCh s) < msgChCap); ctxReady = (ctxErr s \<noteq> None) in
        if ctxReady \<and> (pickCtx \<or> \<not> room) then (Dropped, s)
        else if room then (Sent, s\<lparr>msgCh := msgCh s @ [data]\<rparr>)
        else (Parked, s\<lparr>activeSenders := activeSenders s + 1, parked := Some data\<rparr>))"

text \<open>A parked dispatcher is woken by room in the channel or by the context.\<close>

definition resumeSender ::
    "bool \<Rightarrow> 'a base_stream_scheme \<Rightarrow> send_outcome \<times> 'a base_stream_scheme" where
  "resumeSender pickCtx s =
     (case parked s of
        None \<Rightarrow> (Dropped, s)
      | Some data \<Rightarrow>
          let room = (length (msgCh s) < msgChCap); ctxReady = (ctxErr s \<noteq> None);
              s' = s\<lparr>activeSenders := activeSenders s - 1, parked := None\<rparr> in
          if ctxReady \<and> (pickCtx \<or> \<not> room) then (Dropped, s')
          else if room then (Sent, s'\<lparr>msgCh := msgCh s @ [data]\<rparr>)
          else (Parked, s))"

section \<open>Invariant\<close>

definition base_inv :: "'a base_stream_scheme \<Rightarrow> bool" where
  "base_inv s \<longleftrightarrow>
     length (msgCh s) \<le> msgChCap \<and>
     msgChClosed s = recvClosed s \<and>
     (bsClosed s \<longrightarrow> recvClosed s \<and> ctxErr s \<noteq> None) \<and>
     (bsErr s \<noteq> None \<longrightarrow> bsClosed s) \<and>
     activeSenders s = (if parked s = None then 0 else 1) \<and>
     (recvClosed s \<longrightarrow> parked s = None) \<and>
     length (packetBuf s) \<le> MaxMessageSize"

lemma base_inv_new [simp]: "base_inv (newWebRTCBaseStream ctx i)"
  by (simp add: base_inv_def newWebRTCBaseStream_def)

lemma base_inv_RecvMsg:
  assumes "base_inv s" "RecvMsg um pick s = Some (r, s')"
  shows "base_inv s'"
  using assms
  by (auto simp: RecvMsg_def recvMsgCtx_def recvMsgCh_def checkLastOrErr_def base_inv_def Let_def
      split: if_splits list.splits option.splits)

lemma base_inv_closeRecv:
  assumes "base_inv s" "closeRecv s = Some s'"
  shows "base_inv s'"
  using assms by (auto simp: closeRecv_def base_inv_def split: if_splits)

lemma base_inv_closeWithError:
  assumes "base_inv s" "closeWithError e x s = Some (s', d)"
  shows "base_inv s'"
  using assms
  by (auto simp: closeWithError_def closeRecv_def base_inv_def Let_def split: if_splits)

lemma base_inv_processMessage:
  assumes "base_inv s" "processMessage p s = (r, s')"
  shows "base_inv s'"
  using assms by (auto simp: processMessage_def base_inv_def Let_def split: if_splits)

lemma base_inv_deliver:
  assumes "base_inv s" "parked s = None" "deliver pick d s = (r, s')"
  shows "base_inv s'"
  using assms by (auto simp: deliver_def base_inv_def msgChCap_def Let_def split: if_splits)

lemma base_inv_resumeSender:
  assumes "base_inv s" "resumeSender pick s = (r, s')"
  shows "base_inv s'"
  using assms
  by (auto simp: resumeSender_def base_inv_def msgChCap_def Let_def split: if_splits option.splits)

section \<open>What a receiver sees\<close>

text \<open>A buffered message is returned whichever branch the select takes.\<close>

lemma RecvMsg_buffered:
  "msgCh s = b # rest \<Longrightarrow> RecvMsg um pick s = Some (decodeInto um b, s\<lparr>msgCh := rest\<rparr>)"
  by (simp add: RecvMsg_def recvMsgCtx_def recvMsgCh_def checkLastOrErr_def Let_def)

text \<open>With the channel closed and drained and a reason recorded, the reason is the answer.\<close>

lemma RecvMsg_reason:
  assumes "msgCh s = []" "msgChClosed s" "bsErr s = Some e"
  shows "RecvMsg um pick s = Some (RecvErr (if errorsIs e ErrExpectedClosure then EOF else e), s)"
  using assms
  by (simp add: RecvMsg_def recvMsgCtx_def recvMsgCh_def checkLastOrErr_def retErr_def Let_def)

lemma RecvMsg_not_nil:
  assumes "RecvMsg um pick s = Some (r, s')"
  shows "r \<noteq> RecvNil"
  using assms
  by (auto simp: RecvMsg_def recvMsgCtx_def recvMsgCh_def checkLastOrErr_def decodeInto_def retErr_def
      Let_def split: if_splits list.splits option.splits sum.splits)

lemma RecvMsg_blocks_iff:
  "RecvMsg um pick s = None \<longleftrightarrow> ctxErr s = None \<and> msgCh s = [] \<and> \<not> msgChClosed s"
  by (auto simp: RecvMsg_def Let_def)

text \<open>The results of one call of \<^verbatim>\<open>RecvMsg\<close> after the other, until one blocks.\<close>

fun recvAll :: "(bytes \<Rightarrow> err + 'm) \<Rightarrow> bool list \<Rightarrow> 'a base_stream_scheme \<Rightarrow> 'm recv_result list" where
  "recvAll um [] s = []"
| "recvAll um (pick # picks) s =
     (case RecvMsg um pick s of None \<Rightarrow> [] | Some (r, s') \<Rightarrow> r # recvAll um picks s')"

lemma recvAll_drain:
  assumes "msgChClosed s" "bsErr s = Some e"
  shows "recvAll um picks s =
     take (length picks) (map (decodeInto um) (msgCh s)
       @ replicate (length picks) (RecvErr (if errorsIs e ErrExpectedClosure then EOF else e)))"
  using assms
proof (induction picks arbitrary: s)
  case (Cons pick picks)
  show ?case
  proof (cases "msgCh s")
    case Nil
    then show ?thesis
      using Cons by (simp add: RecvMsg_reason)
  next
    case (Cons b rest)
    then show ?thesis
      using Cons.IH [of "s\<lparr>msgCh := rest\<rparr>"] \<open>msgChClosed s\<close> \<open>bsErr s = Some e\<close>
      by (simp add: RecvMsg_buffered take_Cons' replicate_append_same [symmetric])
  qed
qed simp

lemma closeWithError_open:
  assumes "base_inv s" "\<not> bsClosed s" "closeWithError e x s = Some (s', d)"
  shows "msgCh s' = msgCh s \<and> msgChClosed s' \<and> recvClosed s' \<and> bsClosed s' \<and> ctxErr s' = cancelCtx (ctxErr s)
    \<and> bsErr s' = (if e \<noteq> None then e else if x then Some ErrExpectedClosure else None) \<and> d = Some (bsId s)"
  using assms
  by (auto simp: closeWithError_def closeRecv_def base_inv_def Let_def split: if_splits)

text \<open>Closing returns in every state in which no delivery is parked.\<close>

lemma closeWithError_returns:
  assumes "base_inv s" "parked s = None"
  shows "\<exists>s' d. closeWithError e x s = Some (s', d)"
  using assms by (simp add: closeWithError_def closeRecv_def base_inv_def Let_def)

section \<open>Properties\<close>

text \<open>
  C30. Once the trailers close a stream, its user receives the message that was already delivered and
  then, on every further call, the status of the trailers (\<^verbatim>\<open>io.EOF\<close> for a successful one) -- in any
  sequence of calls and whichever ready branch each \<^verbatim>\<open>select\<close> takes.
\<close>

theorem recv_after_trailers:
  assumes "base_inv s" "\<not> bsClosed s"
    and "closeFromTrailers status s = Some (s', d)"
    and "\<not> errIs status ErrExpectedClosure"
  shows "recvAll um picks s' =
     take (length picks) (map (decodeInto um) (msgCh s)
       @ replicate (length picks) (RecvErr (case status of None \<Rightarrow> EOF | Some e \<Rightarrow> e)))"
proof -
  note c = closeWithError_open [OF assms(1,2) assms(3) [unfolded closeFromTrailers_def]]
  have "bsErr s' = Some (case status of None \<Rightarrow> ErrExpectedClosure | Some e \<Rightarrow> e)"
    using c by (cases status) auto
  then show ?thesis
    using recvAll_drain [of s' _ um picks] c assms(4) by (cases status) simp_all
qed

text \<open>A stream with one delivered message, as used by the witnesses.\<close>

definition demoStream :: base_stream where
  "demoStream = (newWebRTCBaseStream None 1)\<lparr>msgCh := [[7]]\<rparr>"

lemma demoStream_inv: "base_inv demoStream"
  by (simp add: demoStream_def base_inv_def newWebRTCBaseStream_def msgChCap_def)

theorem recv_after_trailers_witness:
  "\<exists>s' d. closeFromTrailers None demoStream = Some (s', d) \<and>
     recvAll (Inr :: bytes \<Rightarrow> err + bytes) [True, False, True] s' = [RecvOk [7], RecvErr EOF, RecvErr EOF]"
proof -
  obtain s' d where c: "closeFromTrailers None demoStream = Some (s', d)"
    using closeWithError_returns [OF demoStream_inv, of None True]
    by (auto simp: closeFromTrailers_def demoStream_def newWebRTCBaseStream_def)
  show ?thesis
    using c recv_after_trailers [OF demoStream_inv _ c, of "Inr :: bytes \<Rightarrow> err + bytes" "[True, False, True]"]
    by (simp add: demoStream_def newWebRTCBaseStream_def decodeInto_def)
qed

text \<open>
  The queue a stream stands for: what is in the channel, then what the dispatcher has in hand.
\<close>

definition streamQueue :: "'a base_stream_scheme \<Rightarrow> bytes list" where
  "streamQueue s = msgCh s @ (case parked s of None \<Rightarrow> [] | Some d \<Rightarrow> [d])"

text \<open>
  A schedule of the two goroutines: the dispatcher delivers a message (not while it is parked) or
  is woken, the user receives (not while the call would block).  The run collects what was
  delivered and what was received.
\<close>

datatype stream_op = Deliver bytes | Wake | Receive

fun runStream :: "stream_op list \<Rightarrow> base_stream \<Rightarrow> bytes list \<times> bytes recv_result list \<times> base_stream" where
  "runStream [] s = ([], [], s)"
| "runStream (Deliver d # ops) s =
     (if parked s \<noteq> None then runStream ops s
      else case runStream ops (snd (deliver False d s)) of (ds, rs, s') \<Rightarrow> (d # ds, rs, s'))"
| "runStream (Wake # ops) s = runStream ops (snd (resumeSender False s))"
| "runStream (Receive # ops) s =
     (case RecvMsg Inr False s of
        None \<Rightarrow> runStream ops s
      | Some (r, s1) \<Rightarrow> (case runStream ops s1 of (ds, rs, s') \<Rightarrow> (ds, r # rs, s')))"

definition streamLive :: "'a base_stream_scheme \<Rightarrow> bool" where
  "streamLive s \<longleftrightarrow> base_inv s \<and> ctxErr s = None \<and> \<not> recvClosed s"

lemma deliver_live:
  assumes "streamLive s" "parked s = None"
  shows "streamLive (snd (deliver p d s))" "streamQueue (snd (deliver p d s)) = streamQueue s @ [d]"
  using assms base_inv_deliver [of s p d "fst (deliver p d s)" "snd (deliver p d s)"]
  by (auto simp: streamLive_def streamQueue_def deliver_def Let_def)

lemma resume_live:
  assumes "streamLive s"
  shows "streamLive (snd (resumeSender p s))" "streamQueue (snd (resumeSender p s)) = streamQueue s"
  using assms base_inv_resumeSender [of s p "fst (resumeSender p s)" "snd (resumeSender p s)"]
  by (auto simp: streamLive_def streamQueue_def resumeSender_def Let_def split: option.splits)

lemma recv_live:
  assumes "streamLive s" "RecvMsg Inr p s = Some (r, s')"
  shows "streamLive s'" "\<exists>b. r = RecvOk b \<and> streamQueue s = b # streamQueue s'"
proof -
  have "msgCh s \<noteq> []"
    using assms by (auto simp: streamLive_def base_inv_def RecvMsg_def Let_def split: if_splits)
  then obtain b rest where ch: "msgCh s = b # rest"
    by (cases "msgCh s") auto
  with assms(2) have "r = RecvOk b" and s': "s' = s\<lparr>msgCh := rest\<rparr>"
    by (auto simp: RecvMsg_buffered decodeInto_def)
  then show "\<exists>b. r = RecvOk b \<and> streamQueue s = b # streamQueue s'"
    using ch by (auto simp: streamQueue_def split: option.splits)
  show "streamLive s'"
    using assms base_inv_RecvMsg [OF _ assms(2)] s' by (simp add: streamLive_def)
qed

text \<open>
  C28. While a stream is open its two goroutines see a first-in first-out queue: in every schedule,
  what the user received followed by what is still in the stream is what was in it followed by what
  was delivered -- no message is lost, duplicated or reordered, also when the dispatcher has to
  wait for room.
\<close>

theorem stream_is_fifo:
  assumes "streamLive s" "runStream ops s = (ds, rs, s')"
  shows "map RecvOk (streamQueue s @ ds) = rs @ map RecvOk (streamQueue s') \<and> streamLive s'"
  using assms
proof (induction ops s arbitrary: ds rs rule: runStream.induct)
  case (2 d ops s)
  show ?case
  proof (cases "parked s = None")
    case True
    then show ?thesis
      using 2 deliver_live [OF \<open>streamLive s\<close> True, of False d] by (auto split: prod.splits)
  next
    case False
    then show ?thesis
      using 2 by auto
  qed
next
  case (3 ops s)
  then show ?case
    using resume_live [of s False] by simp
next
  case (4 ops s)
  show ?case
  proof (cases "RecvMsg Inr False s :: (bytes recv_result \<times> base_stream) option")
    case None
    then show ?thesis
      using 4 by simp
  next
    case (Some p)
    obtain r s1 where p: "p = (r, s1)"
      by (cases p)
    obtain rs1 where rs1: "runStream ops s1 = (ds, rs1, s')" "rs = r # rs1"
      using 4(4) Some p by (auto split: prod.splits)
    note live = recv_live [OF \<open>streamLive s\<close> Some [unfolded p]]
    have "map RecvOk (streamQueue s1 @ ds) = rs1 @ map RecvOk (streamQueue s') \<and> streamLive s'"
      using 4(2) [OF Some p [symmetric] live(1) rs1(1)] .
    then show ?thesis
      using live(2) rs1(2) by auto
  qed
qed simp

theorem stream_is_fifo_witness:
  "streamLive demoStream \<and>
   runStream [Deliver [1], Receive, Wake, Deliver [2], Receive] demoStream =
     ([[1], [2]], [RecvOk [7], RecvOk [1]],
      demoStream\<lparr>msgCh := [], activeSenders := 1, parked := Some [2]\<rparr>) \<and>
   map RecvOk (streamQueue demoStream @ [[1], [2]]) =
     [RecvOk [7], RecvOk [1]] @ map RecvOk (streamQueue (demoStream\<lparr>msgCh := [], activeSenders := 1, parked := Some [2]\<rparr>))"
proof (intro conjI)
  show live: "streamLive demoStream"
    by (simp add: streamLive_def demoStream_inv, simp add: demoStream_def newWebRTCBaseStream_def)
  show run: "runStream [Deliver [1], Receive, Wake, Deliver [2], Receive] demoStream =
     ([[1], [2]], [RecvOk [7], RecvOk [1]],
      demoStream\<lparr>msgCh := [], activeSenders := 1, parked := Some [2]\<rparr>)"
    by (simp add: demoStream_def newWebRTCBaseStream_def deliver_def resumeSender_def msgChCap_def
        RecvMsg_buffered decodeInto_def)
  show "map RecvOk (streamQueue demoStream @ [[1], [2]]) =
     [RecvOk [7], RecvOk [1]] @ map RecvOk (streamQueue (demoStream\<lparr>msgCh := [], activeSenders := 1, parked := Some [2]\<rparr>))"
    using stream_is_fifo [OF live run] by simp
qed

text \<open>
  The reason a stream ended is not always told apart from success: after \<^verbatim>\<open>close\<close> with no error on
  a live stream, the very same call of \<^verbatim>\<open>RecvMsg\<close> gives \<^verbatim>\<open>io.EOF\<close> or \<^verbatim>\<open>context.Canceled\<close>, by the
  choice of the \<^verbatim>\<open>select\<close> alone.
\<close>

lemma recv_after_close_depends_on_select:
  assumes "streamLive s" "\<not> bsClosed s" "msgCh s = []" "baseClose s = Some (s', d)"
  shows "RecvMsg um False s' = Some (RecvErr EOF, s') \<and> RecvMsg um True s' = Some (RecvErr CtxCanceled, s')"
  using assms closeWithError_open [of s None False s' d]
  by (simp add: streamLive_def baseClose_def RecvMsg_def recvMsgCtx_def recvMsgCh_def checkLastOrErr_def
      retErr_def)

end
