(* ===== verification/CloseProtocol.thy ===== *)
theory CloseProtocol
  imports BaseStream
begin

text \<open>
  The interleaving of delivery and closing on one stream, at the granularity of the mutex, the
  compare-and-swap on \<^verbatim>\<open>recvClosed\<close>, the wait group and the channel operations
  (\<^verbatim>\<open>closeRecv\<close> of \<^verbatim>\<open>src/rpc/wrtc_base_stream.go\<close> against the delivery at the end of
  \<^verbatim>\<open>processMessage\<close> in \<^verbatim>\<open>src/rpc/wrtc_server_stream.go\<close> and
  \<^verbatim>\<open>src/rpc/wrtc_client_stream.go\<close>).

  One dispatcher delivers: a data channel calls its message callback sequentially.  Any number of
  other goroutines close, holding the mutex for writing (\<^verbatim>\<open>CloseRecv\<close>, \<^verbatim>\<open>closeWithSendError\<close>,
  \<^verbatim>\<open>Close\<close>) or for reading (\<^verbatim>\<open>writeMessage\<close> of a client that is not at its end).  The dispatcher
  itself also closes, without the mutex (\<^verbatim>\<open>onResponse\<close>, and \<^verbatim>\<open>processMessage\<close> of a server on a
  missing packet).
\<close>

section \<open>Steps\<close>

text \<open>Where a closer is in \<^verbatim>\<open>closeRecv\<close>; the flag says that it holds the mutex for writing.\<close>

datatype closer_pc = CIdle | CLocked bool | CWait bool | CClose bool | CUnlock bool

text \<open>
  Where the dispatcher is: \<open>DLocked\<close> before the test of \<^verbatim>\<open>recvClosed\<close>, \<open>DCounted\<close> after
  \<^verbatim>\<open>activeSenders.Add(1)\<close> with the mutex still held, \<open>DSending\<close> in the select, \<open>DDone\<close> before
  \<^verbatim>\<open>activeSenders.Done()\<close>; \<open>DClaim\<close>, \<open>DWait\<close>, \<open>DClose\<close> inside a \<^verbatim>\<open>closeRecv\<close> of its own.
\<close>

datatype disp_pc = DIdle | DLocked | DCounted | DSending | DDone | DClaim | DWait | DClose

datatype owner = Disp | Closer nat

record close_state =
  dpc :: disp_pc
  cpc :: "nat \<Rightarrow> closer_pc"
  muWriter :: "owner option"
  muReaders :: "nat set"
  rClosed :: bool
  chClosed :: bool
  senders :: nat
  buffered :: nat
  ctxDone :: bool
  panicked :: bool

text \<open>
  A step is of the stream's own goroutines (\<open>Own\<close>), a receive by the user of the stream
  (\<open>Take\<close>) or a cancellation from outside (\<open>Cancel\<close>).  Sending on a closed channel, closing it
  twice and taking the wait group below zero panic.  A closer that came through
  \<^verbatim>\<open>closeWithError\<close> cancels the context after \<^verbatim>\<open>closeRecv\<close>, one that came through
  \<^verbatim>\<open>CloseRecv\<close> does not: the flag \<open>c\<close> of the unlocking steps.
\<close>

datatype close_act = Own | Take | Cancel

definition initClose :: "close_state \<Rightarrow> bool" where
  "initClose s \<longleftrightarrow>
     s = \<lparr> dpc = DIdle, cpc = (\<lambda>_. CIdle), muWriter = None, muReaders = {}, rClosed = False,
           chClosed = False, senders = 0, buffered = 0, ctxDone = ctxDone s, panicked = False \<rparr>"

inductive close_step :: "close_state \<Rightarrow> close_act \<Rightarrow> close_state \<Rightarrow> bool" where
  d_lock: "dpc s = DIdle \<Longrightarrow> muWriter s = None \<Longrightarrow> muReaders s = {} \<Longrightarrow>
     close_step s Own (s\<lparr>dpc := DLocked, muWriter := Some Disp\<rparr>)"
| d_closed: "dpc s = DLocked \<Longrightarrow> rClosed s \<Longrightarrow>
     close_step s Own (s\<lparr>dpc := DIdle, muWriter := None\<rparr>)"
| d_add: "dpc s = DLocked \<Longrightarrow> \<not> rClosed s \<Longrightarrow>
     close_step s Own (s\<lparr>dpc := DCounted, senders := senders s + 1\<rparr>)"
| d_unlock: "dpc s = DCounted \<Longrightarrow>
     close_step s Own (s\<lparr>dpc := DSending, muWriter := None\<rparr>)"
| d_send: "dpc s = DSending \<Longrightarrow> \<not> chClosed s \<Longrightarrow> buffered s < msgChCap \<Longrightarrow>
     close_step s Own (s\<lparr>dpc := DDone, buffered := buffered s + 1\<rparr>)"
| d_send_panic: "dpc s = DSending \<Longrightarrow> chClosed s \<Longrightarrow>
     close_step s Own (s\<lparr>panicked := True\<rparr>)"
| d_ctx: "dpc s = DSending \<Longrightarrow> ctxDone s \<Longrightarrow>
     close_step s Own (s\<lparr>dpc := DDone\<rparr>)"
| d_done: "dpc s = DDone \<Longrightarrow> 0 < senders s \<Longrightarrow>
     close_step s Own (s\<lparr>dpc := DIdle, senders := senders s - 1\<rparr>)"
| d_done_panic: "dpc s = DDone \<Longrightarrow> senders s = 0 \<Longrightarrow>
     close_step s Own (s\<lparr>panicked := True\<rparr>)"
| d_begin_close: "dpc s = DIdle \<Longrightarrow>
     close_step s Own (s\<lparr>dpc := DClaim\<rparr>)"
| d_cas_fail: "dpc s = DClaim \<Longrightarrow> rClosed s \<Longrightarrow>
     close_step s Own (s\<lparr>dpc := DIdle, ctxDone := c \<or> ctxDone s\<rparr>)"
| d_cas: "dpc s = DClaim \<Longrightarrow> \<not> rClosed s \<Longrightarrow>
     close_step s Own (s\<lparr>dpc := DWait, rClosed := True\<rparr>)"
| d_wait: "dpc s = DWait \<Longrightarrow> senders s = 0 \<Longrightarrow>
     close_step s Own (s\<lparr>dpc := DClose\<rparr>)"
| d_close: "dpc s = DClose \<Longrightarrow> \<not> chClosed s \<Longrightarrow>
     close_step s Own (s\<lparr>dpc := DIdle, chClosed := True, ctxDone := True\<rparr>)"
| d_close_panic: "dpc s = DClose \<Longrightarrow> chClosed s \<Longrightarrow>
     close_step s Own (s\<lparr>panicked := True\<rparr>)"
| c_lock: "cpc s i = CIdle \<Longrightarrow> muWriter s = None \<Longrightarrow> muReaders s = {} \<Longrightarrow>
     close_step s Own (s\<lparr>cpc := (cpc s)(i := CLocked True), muWriter := Some (Closer i)\<rparr>)"
| c_rlock: "cpc s i = CIdle \<Longrightarrow> muWriter s = None \<Longrightarrow>
     close_step s Own (s\<lparr>cpc := (cpc s)(i := CLocked False), muReaders := insert i (muReaders s)\<rparr>)"
| c_cas_fail: "cpc s i = CLocked w \<Longrightarrow> rClosed s \<Longrightarrow>
     close_step s Own (s\<lparr>cpc := (cpc s)(i := CUnlock w)\<rparr>)"
| c_cas: "cpc s i = CLocked w \<Longrightarrow> \<not> rClosed s \<Longrightarrow>
     close_step s Own (s\<lparr>cpc := (cpc s)(i := CWait w), rClosed := True\<rparr>)"
| c_wait: "cpc s i = CWait w \<Longrightarrow> senders s = 0 \<Longrightarrow>
     close_step s Own (s\<lparr>cpc := (cpc s)(i := CClose w)\<rparr>)"
| c_close: "cpc s i = CClose w \<Longrightarrow> \<not> chClosed s \<Longrightarrow>
     close_step s Own (s\<lparr>cpc := (cpc s)(i := CUnlock w), chClosed := True\<rparr>)"
| c_close_panic: "cpc s i = CClose w \<Longrightarrow> chClosed s \<Longrightarrow>
     close_step s Own (s\<lparr>panicked := True\<rparr>)"
| c_unlock: "cpc s i = CUnlock True \<Longrightarrow>
     close_step s Own (s\<lparr>cpc := (cpc s)(i := CIdle), muWriter := None, ctxDone := c \<or> ctxDone s\<rparr>)"
| c_runlock: "cpc s i = CUnlock False \<Longrightarrow>
     close_step s Own
       (s\<lparr>cpc := (cpc s)(i := CIdle), muReaders := muReaders s - {i}, ctxDone := c \<or> ctxDone s\<rparr>)"
| take: "0 < buffered s \<Longrightarrow>
     close_step s Take (s\<lparr>buffered := buffered s - 1\<rparr>)"
| cancel: "close_step s Cancel (s\<lparr>ctxDone := True\<rparr>)"

inductive_simps close_step_Own: "close_step s Own t"

section \<open>Invariant\<close>

fun holds :: "bool \<Rightarrow> closer_pc \<Rightarrow> bool" where
  "holds w CIdle \<longleftrightarrow> False"
| "holds w (CLocked v) \<longleftrightarrow> v = w"
| "holds w (CWait v) \<longleftrightarrow> v = w"
| "holds w (CClose v) \<longleftrightarrow> v = w"
| "holds w (CUnlock v) \<longleftrightarrow> v = w"

text \<open>A goroutine that won the compare-and-swap and has not closed the channel yet.\<close>

fun claims :: "closer_pc \<Rightarrow> bool" where
  "claims (CWait v) \<longleftrightarrow> True"
| "claims (CClose v) \<longleftrightarrow> True"
| "claims _ \<longleftrightarrow> False"

definition mutex_inv :: "close_state \<Rightarrow> bool" where
  "mutex_inv s \<longleftrightarrow>
     (muWriter s = Some Disp \<longleftrightarrow> dpc s \<in> {DLocked, DCounted}) \<and>
     (\<forall>i. muWriter s = Some (Closer i) \<longleftrightarrow> holds True (cpc s i)) \<and>
     (\<forall>i. i \<in> muReaders s \<longleftrightarrow> holds False (cpc s i)) \<and>
     (muWriter s \<noteq> None \<longrightarrow> muReaders s = {})"

definition sender_inv :: "close_state \<Rightarrow> bool" where
  "sender_inv s \<longleftrightarrow>
     senders s = (if dpc s \<in> {DCounted, DSending, DDone} then 1 else 0) \<and>
     (dpc s = DCounted \<longrightarrow> \<not> rClosed s) \<and>
     (dpc s \<in> {DCounted, DSending, DDone} \<longrightarrow> \<not> chClosed s \<and> (\<forall>i w. cpc s i \<noteq> CClose w)) \<and>
     buffered s \<le> msgChCap"

definition claim_inv :: "close_state \<Rightarrow> bool" where
  "claim_inv s \<longleftrightarrow>
     (chClosed s \<longrightarrow> rClosed s) \<and>
     (\<forall>i. claims (cpc s i) \<longrightarrow> rClosed s \<and> \<not> chClosed s) \<and>
     (dpc s \<in> {DWait, DClose} \<longrightarrow> rClosed s \<and> \<not> chClosed s \<and> (\<forall>i. \<not> claims (cpc s i))) \<and>
     (\<forall>i j. claims (cpc s i) \<and> claims (cpc s j) \<longrightarrow> i = j)"

definition close_inv :: "close_state \<Rightarrow> bool" where
  "close_inv s \<longleftrightarrow> mutex_inv s \<and> sender_inv s \<and> claim_inv s \<and> \<not> panicked s"

text \<open>What the mutex excludes, and what a claim implies.\<close>

lemma writer_holds:
  "mutex_inv s \<Longrightarrow> holds True (cpc s i) \<Longrightarrow> muWriter s = Some (Closer i)"
  by (simp add: mutex_inv_def)

lemma reader_holds:
  "mutex_inv s \<Longrightarrow> holds False (cpc s i) \<Longrightarrow> i \<in> muReaders s"
  by (simp add: mutex_inv_def)

lemma dispatcher_excludes:
  assumes "mutex_inv s" "dpc s = DLocked \<or> dpc s = DCounted"
  shows "cpc s i = CIdle"
proof -
  have "\<not> holds True (cpc s i)" "\<not> holds False (cpc s i)"
    using assms unfolding mutex_inv_def by auto
  then show ?thesis
    by (cases "cpc s i") auto
qed

lemma claimD:
  assumes "claim_inv s" "claims (cpc s i)"
  shows "rClosed s \<and> \<not> chClosed s \<and> dpc s \<noteq> DWait \<and> dpc s \<noteq> DClose"
    and "claims (cpc s j) \<Longrightarrow> j = i"
  using assms unfolding claim_inv_def by auto

lemma closed_recv: "claim_inv s \<Longrightarrow> chClosed s \<Longrightarrow> rClosed s"
  by (simp add: claim_inv_def)

lemma closing_claims: "claim_inv s \<Longrightarrow> cpc s i = CClose w \<Longrightarrow> \<not> chClosed s \<and> rClosed s"
  unfolding claim_inv_def by (metis claims.simps(2))

lemma mutex_inv_unlock:
  assumes "mutex_inv s" "cpc s i = CUnlock True"
  shows "mutex_inv (s\<lparr>cpc := (cpc s)(i := CIdle), muWriter := None, ctxDone := c\<rparr>)"
proof -
  have i: "muWriter s = Some (Closer i)"
    using assms by (simp add: writer_holds)
  have "\<not> holds True (cpc s j)" if "j \<noteq> i" for j
    using that i writer_holds [OF assms(1), of j] by auto
  then show ?thesis
    using assms(1) i unfolding mutex_inv_def by auto
qed

lemma mutex_inv_step:
  assumes "close_step s a t" "mutex_inv s"
  shows "mutex_inv t"
  using assms
proof (induction rule: close_step.induct)
  case (c_unlock s i c)
  then show ?case
    by (rule_tac mutex_inv_unlock)
qed (auto simp: mutex_inv_def split: if_splits)

lemma sender_inv_step:
  assumes "close_step s a t" "close_inv s"
  shows "sender_inv t"
proof -
  have inv: "mutex_inv s" "sender_inv s" "claim_inv s"
    using assms(2) by (simp_all add: close_inv_def)
  have ex: "dpc s = DLocked \<or> dpc s = DCounted \<Longrightarrow> cpc s i = CIdle" for i
    using dispatcher_excludes [OF inv(1)] .
  show ?thesis
    using assms(1) inv(2) closing_claims [OF inv(3)] closed_recv [OF inv(3)] ex
    by (induction rule: close_step.induct) (auto simp: sender_inv_def msgChCap_def split: if_splits)
qed

lemma claim_inv_wait:
  assumes "claim_inv s" "cpc s i = CWait w"
  shows "claim_inv (s\<lparr>cpc := (cpc s)(i := CClose w)\<rparr>)"
proof -
  have "claims (((cpc s)(i := CClose w)) j) = claims (cpc s j)" for j
    using assms(2) by auto
  then show ?thesis
    using assms(1) unfolding claim_inv_def by simp
qed

lemma claim_inv_close:
  assumes "claim_inv s" "cpc s i = CClose w"
  shows "claim_inv (s\<lparr>cpc := (cpc s)(i := CUnlock w), chClosed := True\<rparr>)"
proof -
  have i: "claims (cpc s i)"
    using assms(2) by simp
  have "\<not> claims (((cpc s)(i := CUnlock w)) j)" for j
    using claimD(2) [OF assms(1) i, of j] by auto
  then show ?thesis
    using claimD(1) [OF assms(1) i] unfolding claim_inv_def by simp
qed

lemma claim_inv_step:
  assumes "close_step s a t" "claim_inv s"
  shows "claim_inv t"
  using assms
proof (induction rule: close_step.induct)
  case (c_wait s i w)
  then show ?case
    by (simp add: claim_inv_wait)
next
  case (c_close s i w)
  then show ?case
    by (simp add: claim_inv_close)
qed (auto simp: claim_inv_def split: if_splits)

lemma no_panic_step:
  assumes "close_step s a t" "close_inv s"
  shows "\<not> panicked t"
proof -
  have inv: "sender_inv s" "claim_inv s" "\<not> panicked s"
    using assms(2) by (simp_all add: close_inv_def)
  show ?thesis
    using assms(1) inv closing_claims [OF inv(2)]
    by (induction rule: close_step.induct) (auto simp: sender_inv_def claim_inv_def)
qed

lemma close_inv_step:
  assumes "close_inv s" "close_step s a t"
  shows "close_inv t"
  using assms mutex_inv_step [OF assms(2)] sender_inv_step [OF assms(2)] claim_inv_step [OF assms(2)]
    no_panic_step [OF assms(2)]
  by (simp add: close_inv_def)

interpretation closing: inductive_invariant initClose "\<lambda>s t. \<exists>a. close_step s a t" close_inv
proof
  fix s
  assume "initClose s"
  then have "dpc s = DIdle" "cpc s = (\<lambda>_. CIdle)" "muWriter s = None" "muReaders s = {}" "\<not> rClosed s"
    "\<not> chClosed s" "senders s = 0" "buffered s = 0" "\<not> panicked s"
    by (auto simp: initClose_def dest: arg_cong [of s _ dpc] arg_cong [of s _ cpc]
        arg_cong [of s _ muWriter] arg_cong [of s _ muReaders] arg_cong [of s _ rClosed]
        arg_cong [of s _ chClosed] arg_cong [of s _ senders] arg_cong [of s _ buffered]
        arg_cong [of s _ panicked])
  then show "close_inv s"
    by (simp add: close_inv_def mutex_inv_def sender_inv_def claim_inv_def)
next
  fix s t
  assume "close_inv s" "\<exists>a. close_step s a t"
  then show "close_inv t"
    using close_inv_step by blast
qed

section \<open>Properties\<close>

text \<open>
  C9. No interleaving of deliveries and closes panics: the message channel is never sent on after
  it is closed, it is closed at most once, and the count of active senders never goes below zero.
  Whenever the channel is closed the dispatcher is outside the section in which it sends.
\<close>

theorem no_send_on_closed_channel:
  assumes "reach initClose (\<lambda>s t. \<exists>a. close_step s a t) s"
  shows "\<not> panicked s \<and> (chClosed s \<longrightarrow> dpc s \<notin> {DCounted, DSending, DDone} \<and> senders s = 0)"
proof -
  have "close_inv s"
    using assms by (rule closing.reach_inv)
  then show ?thesis
    by (auto simp: close_inv_def sender_inv_def)
qed

definition freshClose :: close_state where
  "freshClose = \<lparr> dpc = DIdle, cpc = (\<lambda>_. CIdle), muWriter = None, muReaders = {}, rClosed = False,
     chClosed = False, senders = 0, buffered = 0, ctxDone = False, panicked = False \<rparr>"

lemma reach_freshClose: "reach initClose (\<lambda>s t. \<exists>a. close_step s a t) freshClose"
  by (rule reach_start) (simp add: initClose_def freshClose_def)

text \<open>A closer takes the mutex, claims, waits for no one, closes the channel and leaves.\<close>

definition closedOnce :: close_state where
  "closedOnce = freshClose\<lparr>rClosed := True, chClosed := True, ctxDone := True\<rparr>"

abbreviation closeReach :: "close_state \<Rightarrow> bool" where
  "closeReach \<equiv> reach initClose (\<lambda>s t. \<exists>a. close_step s a t)"

lemma reach_Own: "closeReach s \<Longrightarrow> close_step s Own t \<Longrightarrow> closeReach t"
  by (blast intro: reach_step)

lemma reach_closedOnce: "closeReach closedOnce"
proof -
  let ?s = "\<lambda>p r c. freshClose\<lparr>cpc := (\<lambda>_. CIdle)(0 := p), muWriter := Some (Closer 0), rClosed := r, chClosed := c\<rparr>"
  have 1: "close_step freshClose Own (?s (CLocked True) False False)"
    using c_lock [of freshClose 0] by (simp add: freshClose_def)
  have 2: "close_step (?s (CLocked True) False False) Own (?s (CWait True) True False)"
    using c_cas [of "?s (CLocked True) False False" 0] by (simp add: freshClose_def)
  have 3: "close_step (?s (CWait True) True False) Own (?s (CClose True) True False)"
    using c_wait [of "?s (CWait True) True False" 0] by (simp add: freshClose_def)
  have 4: "close_step (?s (CClose True) True False) Own (?s (CUnlock True) True True)"
    using c_close [of "?s (CClose True) True False" 0] by (simp add: freshClose_def)
  have 5: "close_step (?s (CUnlock True) True True) Own closedOnce"
    using c_unlock [of "?s (CUnlock True) True True" 0 True]
    by (simp add: freshClose_def closedOnce_def fun_upd_idem)
  show ?thesis
    by (rule reach_Own [OF reach_Own [OF reach_Own [OF reach_Own [OF reach_Own [OF reach_freshClose 1] 2] 3] 4] 5])
qed

theorem no_send_on_closed_channel_witness:
  "closeReach closedOnce \<and> chClosed closedOnce \<and> \<not> panicked closedOnce \<and> senders closedOnce = 0"
  using no_send_on_closed_channel [OF reach_closedOnce] reach_closedOnce
  by (simp add: closedOnce_def freshClose_def)

text \<open>
  The state in which closing waits for a delivery that waits for the closing: the channel is full,
  the dispatcher is in its select, the context is live, and a closer holds the mutex and waits for
  the senders.
\<close>

definition stuckClose :: "nat \<Rightarrow> close_state \<Rightarrow> bool" where
  "stuckClose i s \<longleftrightarrow>
     dpc s = DSending \<and> buffered s = msgChCap \<and> \<not> ctxDone s \<and> cpc s i = CWait True \<and> \<not> chClosed s"

lemma stuckClose_step:
  assumes "stuckClose i s" "close_inv s" "close_step s Own t"
  shows "stuckClose i t"
proof -
  have m: "mutex_inv s"
    using assms(2) by (simp add: close_inv_def)
  have w: "muWriter s = Some (Closer i)"
    using assms(1) writer_holds [OF m, of i] by (simp add: stuckClose_def)
  have "muReaders s = {}"
    using w m by (simp add: mutex_inv_def)
  then have "\<not> holds False (cpc s j)" for j
    using reader_holds [OF m] by blast
  moreover have "holds True (cpc s j) \<Longrightarrow> j = i" for j
    using writer_holds [OF m, of j] w by simp
  ultimately have idle: "cpc s j = CIdle \<or> j = i" for j
    by (cases "cpc s j") (metis (full_types) holds.simps)+
  show ?thesis
    using assms(3,1,2) w idle
    unfolding close_step_Own stuckClose_def close_inv_def sender_inv_def
    by (elim disjE exE conjE) (auto, (metis closer_pc.distinct closer_pc.inject)+)
qed

lemma stuckClose_steps:
  assumes "(\<lambda>s t. close_step s Own t)\<^sup>*\<^sup>* s t" "stuckClose i s" "close_inv s"
  shows "stuckClose i t \<and> close_inv t"
  using assms
  by (induction rule: rtranclp_induct) (auto intro: stuckClose_step close_inv_step)

text \<open>The run into it: one message delivered and not received, a second one in the select.\<close>

definition stuckState :: close_state where
  "stuckState = freshClose\<lparr>dpc := DSending, cpc := (\<lambda>_. CIdle)(0 := CWait True),
     muWriter := Some (Closer 0), rClosed := True, senders := 1, buffered := 1\<rparr>"

lemma reach_stuckState: "closeReach stuckState"
proof -
  let ?d = "\<lambda>d w n b. freshClose\<lparr>dpc := d, muWriter := w, senders := n, buffered := b\<rparr>"
  have deliver: "closeReach (?d DSending None 1 b)" if "closeReach (?d DIdle None 0 b)" for b
  proof -
    have 1: "close_step (?d DIdle None 0 b) Own (?d DLocked (Some Disp) 0 b)"
      using d_lock [of "?d DIdle None 0 b"] by (simp add: freshClose_def)
    have 2: "close_step (?d DLocked (Some Disp) 0 b) Own (?d DCounted (Some Disp) 1 b)"
      using d_add [of "?d DLocked (Some Disp) 0 b"] by (simp add: freshClose_def)
    have 3: "close_step (?d DCounted (Some Disp) 1 b) Own (?d DSending None 1 b)"
      using d_unlock [of "?d DCounted (Some Disp) 1 b"] by (simp add: freshClose_def)
    show ?thesis
      by (rule reach_Own [OF reach_Own [OF reach_Own [OF that 1] 2] 3])
  qed
  have 4: "closeReach (?d DSending None 1 0)"
    using deliver [of 0] reach_freshClose by (simp add: freshClose_def)
  have 5: "close_step (?d DSending None 1 0) Own (?d DDone None 1 1)"
    using d_send [of "?d DSending None 1 0"] by (simp add: freshClose_def msgChCap_def)
  have 6: "close_step (?d DDone None 1 1) Own (?d DIdle None 0 1)"
    using d_done [of "?d DDone None 1 1"] by (simp add: freshClose_def)
  let ?c = "stuckState\<lparr>cpc := (\<lambda>_. CIdle)(0 := CLocked True), rClosed := False\<rparr>"
  have 7: "close_step (?d DSending None 1 1) Own ?c"
    using c_lock [of "?d DSending None 1 1" 0] by (simp add: freshClose_def stuckState_def)
  have 8: "close_step ?c Own stuckState"
    using c_cas [of ?c 0 True] by (simp add: freshClose_def stuckState_def)
  show ?thesis
    by (rule reach_Own [OF reach_Own [OF deliver [OF reach_Own [OF reach_Own [OF 4 5] 6]] 7] 8])
qed

text \<open>
  C40. Closing can wait forever on the stream's own goroutines.  A state is reachable in which a
  closer holds the mutex and waits for the active senders, while the only sender waits for room in
  the full channel; the context is cancelled only after the wait.  However the goroutines of the
  stream run on from there, the channel stays open and the closer stays waiting: only a receive by
  the user or a cancellation from outside ends it.
\<close>

theorem close_waits_for_parked_sender:
  "closeReach stuckState \<and> stuckState \<in> {s. stuckClose 0 s} \<and>
   {t. (\<lambda>s t. close_step s Own t)\<^sup>*\<^sup>* stuckState t} \<subseteq> {t. stuckClose 0 t}"
proof (intro conjI subsetI CollectI)
  show reach: "closeReach stuckState"
    by (rule reach_stuckState)
  show stuck: "stuckClose 0 stuckState"
    by (simp add: stuckClose_def stuckState_def freshClose_def msgChCap_def)
  fix t
  assume "t \<in> {t. (\<lambda>s t. close_step s Own t)\<^sup>*\<^sup>* stuckState t}"
  then show "stuckClose 0 t"
    using stuckClose_steps [OF _ stuck closing.reach_inv [OF reach]] by simp
qed

end
