(* ===== verification/BaseChannel.thy ===== *)
theory BaseChannel
  imports GoPrelude
begin

text \<open>
  The part of a channel that clients and servers share: \<^verbatim>\<open>src/rpc/wrtc_base_channel.go\<close>.

  The data channel and the peer connection are third-party objects.  What a call on them gives is
  taken from a record of answers, \<open>dc_env\<close>: the marshaller of messages, for the \<open>k\<close>-th write
  the successive readings of its wait loop (was the context found cancelled, how many bytes are
  buffered) and the result of \<^verbatim>\<open>Send\<close>, the result of \<^verbatim>\<open>GracefulClose\<close>, and the text of an error.
  The state of the channel records the payloads that \<^verbatim>\<open>Send\<close> accepted (\<open>bcWire\<close>) and how many
  times the read side of \<^verbatim>\<open>bufferWriteMu\<close> is held by calls that have returned (\<open>bcReadLocks\<close>).
\<close>

section \<open>State\<close>

datatype ice_state =
  ICENew | ICEChecking | ICEConnected | ICECompleted | ICEDisconnected | ICEFailed | ICEClosed | ICEUnknown

record 'm dc_env =
  marshal :: "'m \<Rightarrow> err + bytes"
  readings :: "nat \<Rightarrow> (bool \<times> nat) list"
  sendRes :: "nat \<Rightarrow> bytes \<Rightarrow> err option"
  gracefulClose :: "err option"
  errorText :: "err \<Rightarrow> string"
  statsID :: string

record base_channel =
  chCtxErr :: "err option"
  bcReady :: bool
  bcClosed :: bool
  bcClosedReason :: "err option"
  bcWorkers :: "ice_state list"
  bcReadLocks :: nat
  bcPeerDone :: bool
  bcConnID :: string
  bcWrites :: nat
  bcWire :: "bytes list"

definition bufferThreshold :: nat where
  "bufferThreshold = 1024 * 1024"

definition maxDataChannelSize :: nat where
  "maxDataChannelSize = 65535"

text \<open>What a channel makes its surroundings do.\<close>

datatype chan_event = OnPeerDone | OnICEConnected | PeerConnClosed

section \<open>Connection state\<close>

text \<open>
  A change of the ICE connection state starts a goroutine; it is in \<open>bcWorkers\<close> until its body,
  \<open>connStateWorker\<close>, has run.  Creating a channel fires one for the current state.
\<close>

definition connStateChanged :: "ice_state \<Rightarrow> 'a base_channel_scheme \<Rightarrow> 'a base_channel_scheme" where
  "connStateChanged st ch = ch\<lparr>bcWorkers := bcWorkers ch @ [st]\<rparr>"

definition newBaseChannel :: "err option \<Rightarrow> ice_state \<Rightarrow> base_channel" where
  "newBaseChannel ctx st =
     connStateChanged st
       \<lparr> chCtxErr = ctx, bcReady = False, bcClosed = False, bcClosedReason = None, bcWorkers = [],
         bcReadLocks = 0, bcPeerDone = False, bcConnID = [], bcWrites = 0, bcWire = [] \<rparr>"

definition doPeerDone ::
    "bool \<Rightarrow> 'a base_channel_scheme \<Rightarrow> chan_event list \<times> 'a base_channel_scheme" where
  "doPeerDone hasOnPeerDone ch =
     (let ch1 = ch\<lparr>chCtxErr := cancelCtx (chCtxErr ch)\<rparr> in
      if \<not> bcPeerDone ch1 \<and> hasOnPeerDone then ([OnPeerDone], ch1\<lparr>bcPeerDone := True\<rparr>) else ([], ch1))"

definition connStateWorker ::
    "'m dc_env \<Rightarrow> bool \<Rightarrow> bool \<Rightarrow> ice_state \<Rightarrow> 'a base_channel_scheme
      \<Rightarrow> chan_event list \<times> 'a base_channel_scheme" where
  "connStateWorker env hasOnPeerDone hasOnICEConnected st ch0 =
     (let ch = ch0\<lparr>bcWorkers := remove1 st (bcWorkers ch0)\<rparr>;
          gather = (\<lambda>c. c\<lparr>bcConnID := statsID env\<rparr>)
      in
      if bcClosed ch then doPeerDone hasOnPeerDone ch
      else if st \<in> {ICEDisconnected, ICEFailed, ICEClosed} then
        (if bcConnID ch = [] then ([], ch)
         else case doPeerDone hasOnPeerDone ch of (evs, ch1) \<Rightarrow> (evs @ [PeerConnClosed], ch1))
      else if st = ICEConnected then
        ((if hasOnICEConnected then [OnICEConnected] else []), gather ch)
      else ([], gather ch))"

section \<open>Closing\<close>

definition closeWithReason ::
    "'m dc_env \<Rightarrow> err option \<Rightarrow> 'a base_channel_scheme
      \<Rightarrow> err option \<times> chan_event list \<times> 'a base_channel_scheme" where
  "closeWithReason env err ch =
     (if bcClosed ch then (None, [], ch)
      else
        let ch1 = ch\<lparr>bcClosed := True, bcClosedReason := err, chCtxErr := cancelCtx (chCtxErr ch)\<rparr> in
        (if \<not> errIs (gracefulClose env) (ErrForeign ''dtls.ErrConnClosed'') then gracefulClose env else None,
         [PeerConnClosed], ch1))"

text \<open>\<^verbatim>\<open>Close\<close> waits for the background goroutines; \<^const>\<open>None\<close> while there are some.\<close>

definition bcClose ::
    "'m dc_env \<Rightarrow> 'a base_channel_scheme \<Rightarrow> (err option \<times> 'a base_channel_scheme) option" where
  "bcClose env ch =
     (case closeWithReason env None ch of
        (e, _, ch1) \<Rightarrow> if bcWorkers ch1 = [] then Some (e, ch1) else None)"

definition bcClosedWithReason :: "'a base_channel_scheme \<Rightarrow> bool \<times> err option" where
  "bcClosedWithReason ch = (bcClosed ch, bcClosedReason ch)"

text \<open>\<^verbatim>\<open>close(ch.ready)\<close> panics the second time: \<^const>\<open>None\<close>.\<close>

definition onChannelOpen :: "'a base_channel_scheme \<Rightarrow> 'a base_channel_scheme option" where
  "onChannelOpen ch = (if bcReady ch then None else Some (ch\<lparr>bcReady := True\<rparr>))"

definition onChannelClose :: "'m dc_env \<Rightarrow> 'a base_channel_scheme \<Rightarrow> 'a base_channel_scheme" where
  "onChannelClose env ch = snd (snd (closeWithReason env (Some ErrDataChannelClosed) ch))"

definition isUserInitiatedAbortChunkErr :: "'m dc_env \<Rightarrow> err option \<Rightarrow> bool" where
  "isUserInitiatedAbortChunkErr env e \<longleftrightarrow>
     (case e of
        None \<Rightarrow> False
      | Some x \<Rightarrow> errorsIs x (ErrForeign ''sctp.ErrChunk'') \<and>
                  strContains (errorText env x) ''User Initiated Abort: Close called'')"

definition onChannelError ::
    "'m dc_env \<Rightarrow> err option \<Rightarrow> 'a base_channel_scheme \<Rightarrow> 'a base_channel_scheme" where
  "onChannelError env err ch =
     (if errIs err (ErrForeign ''sctp.ErrResetPacketInStateNotExist'') \<or> isUserInitiatedAbortChunkErr env err
      then ch
      else snd (snd (closeWithReason env err ch)))"

section \<open>Writing\<close>

text \<open>The wait loop of a write: it ends when the context is done or the buffer has drained.\<close>

datatype wait_result = WaitMore | WaitCtxDone | WaitRoom

fun awaitRoom :: "bool \<Rightarrow> (bool \<times> nat) list \<Rightarrow> wait_result" where
  "awaitRoom ctxDone [] = (if ctxDone then WaitCtxDone else WaitMore)"
| "awaitRoom ctxDone ((cancelled, amount) # rs) =
     (if ctxDone \<or> cancelled then WaitCtxDone
      else if bufferThreshold \<le> amount then awaitRoom False rs
      else WaitRoom)"

text \<open>
  \<^const>\<open>None\<close>: the write still waits.  On the path through the finished context the call returns
  with the read lock held, as the source does.
\<close>

definition bcWrite ::
    "'m dc_env \<Rightarrow> 'm \<Rightarrow> 'a base_channel_scheme \<Rightarrow> (err option \<times> 'a base_channel_scheme) option" where
  "bcWrite env msg ch =
     (case marshal env msg of
        Inl e \<Rightarrow> Some (Some e, ch)
      | Inr data \<Rightarrow>
          let k = bcWrites ch; ch1 = ch\<lparr>bcWrites := k + 1, bcReadLocks := bcReadLocks ch + 1\<rparr> in
          (case awaitRoom (chCtxErr ch \<noteq> None) (readings env k) of
             WaitMore \<Rightarrow> None
           | WaitCtxDone \<Rightarrow> Some (Some ErrClosedPipe, ch1\<lparr>chCtxErr := cancelCtx (chCtxErr ch)\<rparr>)
           | WaitRoom \<Rightarrow>
               let ch2 = ch1\<lparr>bcReadLocks := bcReadLocks ch1 - 1\<rparr> in
               (case sendRes env k data of
                  Some e \<Rightarrow>
                    if strContains (errorText env e) ''sending payload data in non-established state''
                    then Some (Some ErrClosedPipe, ch2)
                    else Some (Some e, ch2)
                | None \<Rightarrow> Some (None, ch2\<lparr>bcWire := bcWire ch2 @ [data]\<rparr>))))"

text \<open>
  The callback for a drained buffer takes the write side of \<^verbatim>\<open>bufferWriteMu\<close> to wake the waiting
  writes; \<^const>\<open>None\<close> while a read lock is held.
\<close>

definition onBufferedAmountLow :: "'a base_channel_scheme \<Rightarrow> 'a base_channel_scheme option" where
  "onBufferedAmountLow ch = (if 0 < bcReadLocks ch then None else Some ch)"

section \<open>Behaviour of a write\<close>

lemma awaitRoom_ctx: "awaitRoom True rs = WaitCtxDone"
  by (cases rs) auto

text \<open>
  The loop reports room exactly when it came, with the context live all along, to a reading below
  the threshold after readings at or above it.
\<close>

lemma awaitRoom_room_iff:
  "awaitRoom c rs = WaitRoom \<longleftrightarrow>
     \<not> c \<and> (\<exists>k < length rs. snd (rs ! k) < bufferThreshold \<and> \<not> fst (rs ! k) \<and>
       (\<forall>j < k. bufferThreshold \<le> snd (rs ! j) \<and> \<not> fst (rs ! j)))"
proof (induction c rs rule: awaitRoom.induct)
  case (2 c d a rs)
  show ?case
  proof (cases "c \<or> d \<or> a < bufferThreshold")
    case True
    then show ?thesis
      by (auto simp: Ex_less_Suc2 All_less_Suc2)
  next
    case False
    then have "awaitRoom c ((d, a) # rs) = awaitRoom False rs" "\<not> c" "\<not> d" "\<not> a < bufferThreshold"
      by auto
    with False "2.IH" show ?thesis
      by (simp add: Ex_less_Suc2 All_less_Suc2 not_less)
  qed
qed simp

text \<open>The four ways a write returns.\<close>

lemma bcWrite_elim:
  assumes "bcWrite env msg ch = Some (e, ch')"
  obtains (marshal) e0 where "marshal env msg = Inl e0" "e = Some e0" "ch' = ch"
  | (ctx) data where "marshal env msg = Inr data" "e = Some ErrClosedPipe"
      "ch' = ch\<lparr>bcWrites := bcWrites ch + 1, bcReadLocks := bcReadLocks ch + 1, chCtxErr := cancelCtx (chCtxErr ch)\<rparr>"
  | (send) data e1 where "marshal env msg = Inr data" "e = Some e1" "chCtxErr ch = None"
      "ch' = ch\<lparr>bcWrites := bcWrites ch + 1\<rparr>"
  | (ok) data where "marshal env msg = Inr data" "e = None" "chCtxErr ch = None"
      "awaitRoom False (readings env (bcWrites ch)) = WaitRoom" "sendRes env (bcWrites ch) data = None"
      "ch' = ch\<lparr>bcWrites := bcWrites ch + 1, bcWire := bcWire ch @ [data]\<rparr>"
proof (cases "marshal env msg")
  case (Inl e0)
  then show ?thesis
    using assms [symmetric] by (intro marshal) (simp_all add: bcWrite_def)
next
  case m: (Inr data)
  show ?thesis
  proof (cases "awaitRoom (chCtxErr ch \<noteq> None) (readings env (bcWrites ch))")
    case WaitMore
    then show ?thesis
      using assms m by (simp add: bcWrite_def Let_def)
  next
    case WaitCtxDone
    then show ?thesis
      using assms [symmetric] m by (intro ctx [OF m]) (simp_all add: bcWrite_def Let_def)
  next
    case WaitRoom
    then have c: "chCtxErr ch = None"
      using awaitRoom_ctx by (cases "chCtxErr ch = None") auto
    show ?thesis
    proof (cases "sendRes env (bcWrites ch) data")
      case None
      then show ?thesis
        using assms [symmetric] m WaitRoom c by (intro ok [OF m]) (simp_all add: bcWrite_def Let_def)
    next
      case (Some e0)
      then have "e \<noteq> None" "ch' = ch\<lparr>bcWrites := bcWrites ch + 1\<rparr>"
        using assms [symmetric] m WaitRoom c by (simp_all add: bcWrite_def Let_def split: if_splits)
      then show ?thesis
        using send [OF m _ c] by auto
    qed
  qed
qed

lemma bcWrite_keeps:
  assumes "bcWrite env msg ch = Some (e, ch')"
  shows "bcClosed ch' = bcClosed ch" "bcClosedReason ch' = bcClosedReason ch" "bcPeerDone ch' = bcPeerDone ch"
    "bcWorkers ch' = bcWorkers ch" "chCtxErr ch \<noteq> None \<Longrightarrow> chCtxErr ch' = chCtxErr ch"
    "chCtxErr ch \<noteq> None \<Longrightarrow> bcWire ch' = bcWire ch"
    "bcReadLocks ch \<le> bcReadLocks ch'" "e \<noteq> None \<Longrightarrow> bcWire ch' = bcWire ch"
  using assms by (elim bcWrite_elim; auto)+

lemma bcWrite_done:
  assumes "chCtxErr ch \<noteq> None" "marshal env msg = Inr data"
  shows "bcWrite env msg ch =
    Some (Some ErrClosedPipe, ch\<lparr>bcWrites := bcWrites ch + 1, bcReadLocks := bcReadLocks ch + 1\<rparr>)"
  using assms by (auto simp: bcWrite_def awaitRoom_ctx Let_def)

text \<open>
  A data channel that works: every message can be encoded, every write finds room after some
  readings, and \<^verbatim>\<open>Send\<close> succeeds.  Then writing a list of messages is appending their payloads.
\<close>

definition goodEnv :: "'m dc_env \<Rightarrow> bool" where
  "goodEnv env \<longleftrightarrow>
     (\<forall>f. \<exists>d. marshal env f = Inr d) \<and> (\<forall>k. awaitRoom False (readings env k) = WaitRoom) \<and>
     (\<forall>k d. sendRes env k d = None)"

definition payload :: "'m dc_env \<Rightarrow> 'm \<Rightarrow> bytes" where
  "payload env f = projr (marshal env f)"

definition wireAfter :: "'m dc_env \<Rightarrow> 'm list \<Rightarrow> 'a base_channel_scheme \<Rightarrow> 'a base_channel_scheme" where
  "wireAfter env fs ch =
     ch\<lparr>bcWrites := bcWrites ch + length fs, bcWire := bcWire ch @ map (payload env) fs\<rparr>"

lemma wireAfter_simps [simp]:
  "wireAfter env [] ch = ch"
  "chCtxErr (wireAfter env fs ch) = chCtxErr ch"
  "bcClosed (wireAfter env fs ch) = bcClosed ch"
  "bcClosedReason (wireAfter env fs ch) = bcClosedReason ch"
  "bcWire (wireAfter env fs ch) = bcWire ch @ map (payload env) fs"
  by (simp_all add: wireAfter_def)

lemma wireAfter_append: "wireAfter env gs (wireAfter env fs ch) = wireAfter env (fs @ gs) ch"
  by (simp add: wireAfter_def add.assoc)

lemma marshal_payload: "goodEnv env \<Longrightarrow> marshal env f = Inr (payload env f)"
  unfolding goodEnv_def payload_def by (metis sum.sel(2))

lemma bcWrite_good:
  assumes "goodEnv env" "chCtxErr ch = None"
  shows "bcWrite env f ch = Some (None, wireAfter env [f] ch)"
  using assms marshal_payload [OF assms(1), of f]
  by (simp add: bcWrite_def goodEnv_def wireAfter_def Let_def)

section \<open>Runs of a channel\<close>

text \<open>The operations in any order; a write that would wait is not scheduled.\<close>

datatype 'm chan_op = OpState ice_state | OpClose "err option" | OpError "err option" | OpWrite 'm

fun runChan ::
    "'m dc_env \<Rightarrow> bool \<Rightarrow> bool \<Rightarrow> 'm chan_op list \<Rightarrow> 'a base_channel_scheme
      \<Rightarrow> chan_event list \<times> 'a base_channel_scheme" where
  "runChan env p i [] ch = ([], ch)"
| "runChan env p i (OpState st # ops) ch =
     (case connStateWorker env p i st ch of
        (evs, ch1) \<Rightarrow> (case runChan env p i ops ch1 of (evs', ch2) \<Rightarrow> (evs @ evs', ch2)))"
| "runChan env p i (OpClose r # ops) ch =
     (case closeWithReason env r ch of
        (_, evs, ch1) \<Rightarrow> (case runChan env p i ops ch1 of (evs', ch2) \<Rightarrow> (evs @ evs', ch2)))"
| "runChan env p i (OpError r # ops) ch = runChan env p i ops (onChannelError env r ch)"
| "runChan env p i (OpWrite msg # ops) ch =
     (case bcWrite env msg ch of
        None \<Rightarrow> runChan env p i ops ch
      | Some (_, ch1) \<Rightarrow> runChan env p i ops ch1)"

definition chan_inv :: "'a base_channel_scheme \<Rightarrow> bool" where
  "chan_inv ch \<longleftrightarrow> (bcClosed ch \<or> bcPeerDone ch \<longrightarrow> chCtxErr ch \<noteq> None)"

lemma chan_inv_new [simp]: "chan_inv (newBaseChannel ctx st)"
  by (simp add: chan_inv_def newBaseChannel_def connStateChanged_def)

lemmas worker_defs = connStateWorker_def doPeerDone_def Let_def

lemma chan_inv_worker: "chan_inv ch \<Longrightarrow> connStateWorker env p i st ch = (evs, ch') \<Longrightarrow> chan_inv ch'"
  by (auto simp: chan_inv_def worker_defs split: if_splits)

lemma chan_inv_close: "chan_inv ch \<Longrightarrow> closeWithReason env r ch = (e, evs, ch') \<Longrightarrow> chan_inv ch'"
  by (auto simp: chan_inv_def closeWithReason_def Let_def split: if_splits)

lemma chan_inv_error: "chan_inv ch \<Longrightarrow> chan_inv (onChannelError env r ch)"
  by (simp add: onChannelError_def closeWithReason_def chan_inv_def Let_def)

lemma chan_inv_write: "chan_inv ch \<Longrightarrow> bcWrite env msg ch = Some (e, ch') \<Longrightarrow> chan_inv ch'"
  using bcWrite_keeps [of env msg ch e ch'] by (auto simp: chan_inv_def)

lemma runChan_inv: "chan_inv ch \<Longrightarrow> runChan env p i ops ch = (evs, ch') \<Longrightarrow> chan_inv ch'"
proof (induction env p i ops ch arbitrary: evs rule: runChan.induct)
  case (2 env p i st ops ch)
  then show ?case
    by (auto split: prod.splits dest: chan_inv_worker)
next
  case (3 env p i r ops ch)
  then show ?case
    by (auto split: prod.splits dest: chan_inv_close)
next
  case (4 env p i r ops ch)
  then show ?case
    by (auto dest: chan_inv_error)
next
  case (5 env p i msg ops ch)
  then show ?case
    by (auto split: option.splits prod.splits dest: chan_inv_write)
qed simp

text \<open>A closed channel stays as it is, but for the bookkeeping of writes and workers.\<close>

lemma worker_closed:
  assumes "bcClosed ch" "chan_inv ch" "connStateWorker env p i st ch = (evs, ch')"
  shows "bcClosed ch' \<and> bcClosedReason ch' = bcClosedReason ch \<and> bcWire ch' = bcWire ch"
  using assms by (auto simp: worker_defs split: if_splits)

lemma close_closed: "bcClosed ch \<Longrightarrow> closeWithReason env r ch = (None, [], ch)"
  by (simp add: closeWithReason_def)

lemma error_closed: "bcClosed ch \<Longrightarrow> onChannelError env r ch = ch"
  by (simp add: onChannelError_def close_closed)

lemma write_closed:
  assumes "bcClosed ch" "chan_inv ch" "bcWrite env msg ch = Some (e, ch')"
  shows "bcClosed ch' \<and> bcClosedReason ch' = bcClosedReason ch \<and> bcWire ch' = bcWire ch \<and> e \<noteq> None"
proof -
  have "chCtxErr ch \<noteq> None"
    using assms(1,2) by (simp add: chan_inv_def)
  with assms(3) show ?thesis
    using assms(1) by (elim bcWrite_elim) auto
qed

lemma runChan_closed:
  assumes "bcClosed ch" "chan_inv ch" "runChan env p i ops ch = (evs, ch')"
  shows "bcClosed ch' \<and> bcClosedReason ch' = bcClosedReason ch \<and> bcWire ch' = bcWire ch"
  using assms
proof (induction env p i ops ch arbitrary: evs rule: runChan.induct)
  case (2 env p i st ops ch)
  obtain evs1 ch1 where w: "connStateWorker env p i st ch = (evs1, ch1)"
    by (cases "connStateWorker env p i st ch")
  then show ?case
    using 2 worker_closed [OF 2(2,3) w] chan_inv_worker [OF 2(3) w] by (auto split: prod.splits)
next
  case (3 env p i r ops ch)
  then show ?case
    by (auto simp: close_closed split: prod.splits)
next
  case (4 env p i r ops ch)
  then show ?case
    by (simp add: error_closed)
next
  case (5 env p i msg ops ch)
  show ?case
  proof (cases "bcWrite env msg ch")
    case None
    then show ?thesis
      using 5 by simp
  next
    case (Some x)
    obtain e ch1 where x: "x = (e, ch1)"
      by (cases x)
    then show ?thesis
      using 5 Some write_closed [OF 5(3,4) Some [unfolded x]] chan_inv_write [OF 5(4) Some [unfolded x]]
      by simp
  qed
qed simp

lemma worker_peerDone:
  assumes "connStateWorker env p i st ch = (evs, ch')"
  shows "count_list evs OnPeerDone + of_bool (bcPeerDone ch) = (of_bool (bcPeerDone ch') :: nat)"
  using assms by (auto simp: worker_defs split: if_splits)

lemma close_peerDone:
  assumes "closeWithReason env r ch = (e, evs, ch')"
  shows "bcPeerDone ch' = bcPeerDone ch \<and> count_list evs OnPeerDone = 0"
  using assms by (auto simp: closeWithReason_def Let_def split: if_splits)

lemma error_peerDone: "bcPeerDone (onChannelError env r ch) = bcPeerDone ch"
  by (simp add: onChannelError_def closeWithReason_def Let_def)

lemma runChan_peerDone:
  assumes "runChan env p i ops ch = (evs, ch')"
  shows "count_list evs OnPeerDone + of_bool (bcPeerDone ch) = (of_bool (bcPeerDone ch') :: nat)"
  using assms
proof (induction env p i ops ch arbitrary: evs rule: runChan.induct)
  case (2 env p i st ops ch)
  obtain evs1 ch1 where w: "connStateWorker env p i st ch = (evs1, ch1)"
    by (cases "connStateWorker env p i st ch")
  obtain evs2 where r: "runChan env p i ops ch1 = (evs2, ch')" "evs = evs1 @ evs2"
    using 2(2) w by (auto split: prod.splits)
  show ?case
    using 2(1) [OF w [symmetric] r(1)] worker_peerDone [OF w] r(2) by simp
next
  case (3 env p i rs ops ch)
  obtain e evs1 ch1 where w: "closeWithReason env rs ch = (e, evs1, ch1)"
    by (cases "closeWithReason env rs ch")
  obtain evs2 where r: "runChan env p i ops ch1 = (evs2, ch')" "evs = evs1 @ evs2"
    using 3(2) w by (auto split: prod.splits)
  show ?case
    using 3(1) [OF w [symmetric] refl r(1)] close_peerDone [OF w] r(2) by simp
next
  case (4 env p i r ops ch)
  then show ?case
    by (simp add: error_peerDone)
next
  case (5 env p i msg ops ch)
  then show ?case
  proof (cases "bcWrite env msg ch")
    case (Some x)
    obtain e ch1 where x: "x = (e, ch1)"
      by (cases x)
    then have "runChan env p i ops ch1 = (evs, ch')"
      using 5(3) Some by simp
    from 5(2) [OF Some x [symmetric] this] show ?thesis
      using bcWrite_keeps(3) [OF Some [unfolded x]] by simp
  qed simp
qed simp

section \<open>Properties\<close>

text \<open>
  C38. A write that returns either succeeds -- the channel was live, the last buffered amount the
  loop read was below the threshold, and exactly the marshalled message was appended to the wire --
  or it returns an error and nothing went onto the wire.
\<close>

theorem write_all_or_nothing:
  assumes "bcWrite env msg ch = Some (e, ch')"
  shows "if e = None
    then chCtxErr ch = None \<and> (\<exists>data. marshal env msg = Inr data \<and> bcWire ch' = bcWire ch @ [data]) \<and>
      (\<exists>k < length (readings env (bcWrites ch)). snd (readings env (bcWrites ch) ! k) < bufferThreshold)
    else bcWire ch' = bcWire ch"
  using assms by (elim bcWrite_elim) (auto simp: awaitRoom_room_iff)

text \<open>An environment for the witnesses: messages are their own payload, two readings per write.\<close>

definition demoEnv :: "bytes dc_env" where
  "demoEnv = \<lparr> marshal = Inr, readings = (\<lambda>_. [(False, 2097152), (False, 10)]), sendRes = (\<lambda>_ _. None),
     gracefulClose = None, errorText = (\<lambda>_. []), statsID = ''id'' \<rparr>"

theorem write_all_or_nothing_witness:
  "\<exists>ch'. bcWrite demoEnv [1, 2] (newBaseChannel None ICENew) = Some (None, ch') \<and> bcWire ch' = [[1, 2]]"
proof -
  obtain ch' where w: "bcWrite demoEnv [1, 2] (newBaseChannel None ICENew) = Some (None, ch')"
    by (simp add: bcWrite_def demoEnv_def newBaseChannel_def connStateChanged_def bufferThreshold_def Let_def)
  show ?thesis
    using w write_all_or_nothing [OF w] by (simp add: demoEnv_def newBaseChannel_def connStateChanged_def)
qed

text \<open>
  C39. A channel announces the loss of its peer at most once, however connection states, errors,
  closes and writes follow each other; and once it is closed no later operation puts anything on the
  wire or changes the recorded reason.
\<close>

theorem channel_end_is_final:
  assumes "chan_inv ch" "runChan env p i ops ch = (evs, ch')"
  shows "count_list evs OnPeerDone \<le> 1 \<and>
    (bcClosed ch \<longrightarrow> bcClosed ch' \<and> bcClosedReason ch' = bcClosedReason ch \<and> bcWire ch' = bcWire ch)"
proof -
  have "count_list evs OnPeerDone \<le> (of_bool (bcPeerDone ch') :: nat)"
    using runChan_peerDone [OF assms(2)] by linarith
  then have "count_list evs OnPeerDone \<le> 1"
    by (rule order_trans) simp
  then show ?thesis
    using runChan_closed [OF _ assms] by blast
qed

theorem channel_end_is_final_witness:
  "\<exists>evs ch'. runChan demoEnv True False
       [OpState ICEConnected, OpState ICEFailed, OpClose None, OpState ICEClosed, OpWrite [1]]
       (newBaseChannel None ICENew) = (evs, ch') \<and>
     evs = [OnPeerDone, PeerConnClosed, PeerConnClosed] \<and> count_list evs OnPeerDone \<le> 1"
proof -
  let ?run = "runChan demoEnv True False
       [OpState ICEConnected, OpState ICEFailed, OpClose None, OpState ICEClosed, OpWrite [1]]
       (newBaseChannel None ICENew)"
  obtain evs ch' where r: "?run = (evs, ch')"
    by (cases ?run)
  moreover have "evs = [OnPeerDone, PeerConnClosed, PeerConnClosed]"
    using r by (simp add: worker_defs closeWithReason_def demoEnv_def newBaseChannel_def
        connStateChanged_def bcWrite_def awaitRoom_ctx)
  ultimately show ?thesis
    using channel_end_is_final [OF chan_inv_new r] by blast
qed

text \<open>
  The read lock of the write buffer leaks.  A write that meets a cancelled channel returns
  \<^verbatim>\<open>io.ErrClosedPipe\<close> with the lock held; from then on, whatever writes follow, the callback that
  reacts to a drained buffer blocks on that lock.
\<close>

lemma cancelled_write_leaks_lock:
  assumes "chCtxErr ch \<noteq> None" "marshal env msg = Inr data"
    and "runChan env p i (OpWrite msg # map OpWrite msgs) ch = (evs, ch')"
  shows "onBufferedAmountLow ch' = None"
proof -
  have mono: "bcReadLocks c \<le> bcReadLocks c'" if "runChan env p i (map OpWrite ms) c = (es, c')" for ms es c c'
    using that
  proof (induction ms arbitrary: c)
    case (Cons m ms)
    show ?case
    proof (cases "bcWrite env m c")
      case None
      then show ?thesis
        using Cons by simp
    next
      case (Some x)
      obtain e c1 where x: "x = (e, c1)"
        by (cases x)
      have "bcReadLocks c1 \<le> bcReadLocks c'"
        using Cons Some x by simp
      then show ?thesis
        using bcWrite_keeps(7) [OF Some [unfolded x]] by simp
    qed
  qed simp
  have "runChan env p i (map OpWrite msgs)
      (ch\<lparr>bcWrites := bcWrites ch + 1, bcReadLocks := bcReadLocks ch + 1\<rparr>) = (evs, ch')"
    using assms(3) by (simp add: bcWrite_done [OF assms(1,2)])
  from mono [OF this] show ?thesis
    by (simp add: onBufferedAmountLow_def)
qed

end
