(* ===== verification/FrameCodec.thy ===== *)
theory FrameCodec
  imports WebrtcProto BaseChannel
begin

text \<open>
  A concrete codec for the frames.  The wire format of protobuf belongs to a third-party library and is
  a parameter of the model, of which only \<open>codec\<close> is assumed: decoding undoes encoding.  The
  self-delimiting format built here shows that such a codec exists for every frame type.
\<close>

definition codec :: "'m dc_env \<Rightarrow> (bytes \<Rightarrow> err + 'm) \<Rightarrow> bool" where
  "codec env um \<longleftrightarrow> goodEnv env \<and> (\<forall>f. um (payload env f) = Inr f)"

section \<open>Formats\<close>

record 'a fmt =
  fmtEnc :: "'a \<Rightarrow> bytes"
  fmtDec :: "bytes \<Rightarrow> ('a \<times> bytes) option"

definition fmt_ok :: "'a fmt \<Rightarrow> bool" where
  "fmt_ok f \<longleftrightarrow> (\<forall>x r. fmtDec f (fmtEnc f x @ r) = Some (x, r))"

named_theorems fmt_intros

lemma fmt_okD [simp]: "fmt_ok f \<Longrightarrow> fmtDec f (fmtEnc f x @ r) = Some (x, r)"
  by (simp add: fmt_ok_def)

fun decNat :: "bytes \<Rightarrow> (nat \<times> bytes) option" where
  "decNat [] = None"
| "decNat (b # r) = (if b = 0 then Some (0, r) else map_option (apfst Suc) (decNat r))"

definition natF :: "nat fmt" where
  "natF = \<lparr> fmtEnc = (\<lambda>n. replicate n 1 @ [0]), fmtDec = decNat \<rparr>"

definition isoF :: "('a \<Rightarrow> 'b) \<Rightarrow> ('b \<Rightarrow> 'a) \<Rightarrow> 'b fmt \<Rightarrow> 'a fmt" where
  "isoF to from f = \<lparr> fmtEnc = fmtEnc f \<circ> to, fmtDec = map_option (apfst from) \<circ> fmtDec f \<rparr>"

definition pairF :: "'a fmt \<Rightarrow> 'b fmt \<Rightarrow> ('a \<times> 'b) fmt" where
  "pairF f g = \<lparr> fmtEnc = (\<lambda>(x, y). fmtEnc f x @ fmtEnc g y),
     fmtDec = (\<lambda>r. case fmtDec f r of None \<Rightarrow> None | Some (x, r1) \<Rightarrow> map_option (apfst (Pair x)) (fmtDec g r1)) \<rparr>"

definition sumF :: "'a fmt \<Rightarrow> 'b fmt \<Rightarrow> ('a + 'b) fmt" where
  "sumF f g = \<lparr> fmtEnc = case_sum (\<lambda>x. 0 # fmtEnc f x) (\<lambda>y. 1 # fmtEnc g y),
     fmtDec = (\<lambda>r. case r of [] \<Rightarrow> None
        | b # r1 \<Rightarrow> if b = 0 then map_option (apfst Inl) (fmtDec f r1) else map_option (apfst Inr) (fmtDec g r1)) \<rparr>"

fun decN :: "(bytes \<Rightarrow> ('a \<times> bytes) option) \<Rightarrow> nat \<Rightarrow> bytes \<Rightarrow> ('a list \<times> bytes) option" where
  "decN d 0 r = Some ([], r)"
| "decN d (Suc n) r = (case d r of None \<Rightarrow> None | Some (x, r1) \<Rightarrow> map_option (apfst (Cons x)) (decN d n r1))"

definition listF :: "'a fmt \<Rightarrow> 'a list fmt" where
  "listF f = \<lparr> fmtEnc = (\<lambda>xs. fmtEnc natF (length xs) @ concat (map (fmtEnc f) xs)),
     fmtDec = (\<lambda>r. case fmtDec natF r of None \<Rightarrow> None | Some (n, r1) \<Rightarrow> decN (fmtDec f) n r1) \<rparr>"

lemma natF_ok [fmt_intros]: "fmt_ok natF"
proof -
  have "decNat (replicate n 1 @ 0 # r) = Some (n, r)" for n r
    by (induction n) simp_all
  then show ?thesis
    by (simp add: fmt_ok_def natF_def)
qed

lemma isoF_ok [fmt_intros]: "(\<And>x. from (to x) = x) \<Longrightarrow> fmt_ok f \<Longrightarrow> fmt_ok (isoF to from f)"
  by (simp add: fmt_ok_def isoF_def)

lemma pairF_ok [fmt_intros]: "fmt_ok f \<Longrightarrow> fmt_ok g \<Longrightarrow> fmt_ok (pairF f g)"
  by (auto simp: fmt_ok_def pairF_def)

lemma sumF_ok [fmt_intros]: "fmt_ok f \<Longrightarrow> fmt_ok g \<Longrightarrow> fmt_ok (sumF f g)"
  by (auto simp: fmt_ok_def sumF_def split: sum.split)

lemma listF_ok [fmt_intros]:
  assumes "fmt_ok f"
  shows "fmt_ok (listF f)"
proof -
  have "decN (fmtDec f) (length xs) (concat (map (fmtEnc f) xs) @ r) = Some (xs, r)" for xs r
    using assms by (induction xs) simp_all
  then show ?thesis
    using natF_ok by (simp add: fmt_ok_def listF_def)
qed

section \<open>Formats of the frames\<close>

definition unitF :: "unit fmt" where
  "unitF = \<lparr> fmtEnc = (\<lambda>_. []), fmtDec = (\<lambda>r. Some ((), r)) \<rparr>"

definition optF :: "'a fmt \<Rightarrow> 'a option fmt" where
  "optF f = isoF (case_option (Inl ()) Inr) (case_sum (\<lambda>_. None) Some) (sumF unitF f)"

definition boolF :: "bool fmt" where
  "boolF = isoF of_bool (\<lambda>n. 0 < n) natF"

definition wordF :: "'w::len word fmt" where
  "wordF = isoF unat of_nat natF"

definition stringF :: "string fmt" where
  "stringF = listF (isoF of_char char_of natF)"

definition intF :: "int fmt" where
  "intF = isoF (\<lambda>i. (i < 0, nat \<bar>i\<bar>)) (\<lambda>(neg, n). if neg then - int n else int n) (pairF boolF natF)"

fun codeNat :: "grpc_code \<Rightarrow> nat" where
  "codeNat OK = 0" | "codeNat Canceled = 1" | "codeNat Unknown = 2" | "codeNat InvalidArgument = 3"
| "codeNat DeadlineExceeded = 4" | "codeNat NotFound = 5" | "codeNat AlreadyExists = 6"
| "codeNat PermissionDenied = 7" | "codeNat ResourceExhausted = 8" | "codeNat FailedPrecondition = 9"
| "codeNat Aborted = 10" | "codeNat Unimplemented = 11" | "codeNat Internal = 12" | "codeNat Unavailable = 13"
| "codeNat Unauthenticated = 14" | "codeNat (OtherCode n) = n + 15"

definition natCode :: "nat \<Rightarrow> grpc_code" where
  "natCode n = (if n < 15
     then [OK, Canceled, Unknown, InvalidArgument, DeadlineExceeded, NotFound, AlreadyExists, PermissionDenied,
       ResourceExhausted, FailedPrecondition, Aborted, Unimplemented, Internal, Unavailable, Unauthenticated] ! n
     else OtherCode (n - 15))"

definition packetF :: "packet_message fmt" where
  "packetF = isoF (\<lambda>p. (pmData p, pmEom p)) (\<lambda>(d, e). \<lparr> pmData = d, pmEom = e \<rparr>) (pairF (listF wordF) boolF)"

definition mdF :: "metadata_proto fmt" where
  "mdF = isoF mdMap (\<lambda>m. \<lparr> mdMap = m \<rparr>) (listF (pairF stringF (listF stringF)))"

definition requestF :: "request fmt" where
  "requestF = isoF
     (\<lambda>q. (reqStream q, case reqType q of
        ReqHeaders h \<Rightarrow> Inl (map_option (\<lambda>h. (rhMethod h, rhMetadata h, rhTimeout h)) h)
      | ReqMessage g \<Rightarrow> Inr (Inl (rmHasMessage g, rmPacket g, rmEos g))
      | ReqRstStream b \<Rightarrow> Inr (Inr (Some b))
      | ReqUnset \<Rightarrow> Inr (Inr None)))
     (\<lambda>(i, t). \<lparr> reqStream = i, reqType = (case t of
        Inl h \<Rightarrow> ReqHeaders (map_option (\<lambda>(a, b, c). \<lparr> rhMethod = a, rhMetadata = b, rhTimeout = c \<rparr>) h)
      | Inr (Inl (a, b, c)) \<Rightarrow> ReqMessage \<lparr> rmHasMessage = a, rmPacket = b, rmEos = c \<rparr>
      | Inr (Inr (Some b)) \<Rightarrow> ReqRstStream b
      | Inr (Inr None) \<Rightarrow> ReqUnset) \<rparr>)
     (pairF (optF wordF) (sumF (optF (pairF stringF (pairF (optF mdF) intF)))
       (sumF (pairF boolF (pairF (optF packetF) boolF)) (optF boolF))))"

definition responseF :: "response fmt" where
  "responseF = isoF
     (\<lambda>q. (respStream q, case respType q of
        RespHeaders h \<Rightarrow> Inl (rspMetadata h)
      | RespMessage g \<Rightarrow> Inr (Inl (rspPacket g))
      | RespTrailers t \<Rightarrow> Inr (Inr (Some (map_option (apfst codeNat) (rtStatus t), rtMetadata t)))
      | RespUnset \<Rightarrow> Inr (Inr None)))
     (\<lambda>(i, t). \<lparr> respStream = i, respType = (case t of
        Inl h \<Rightarrow> RespHeaders \<lparr> rspMetadata = h \<rparr>
      | Inr (Inl p) \<Rightarrow> RespMessage \<lparr> rspPacket = p \<rparr>
      | Inr (Inr (Some (a, b))) \<Rightarrow> RespTrailers \<lparr> rtStatus = map_option (apfst natCode) a, rtMetadata = b \<rparr>
      | Inr (Inr None) \<Rightarrow> RespUnset) \<rparr>)
     (pairF (optF wordF) (sumF (optF mdF)
       (sumF packetF (optF (pairF (optF (pairF natF stringF)) (optF mdF))))))"

lemma natCode_codeNat [simp]: "natCode (codeNat c) = c"
  by (cases c) (simp_all add: natCode_def)

lemma unitF_ok [fmt_intros]: "fmt_ok unitF"
  by (simp add: fmt_ok_def unitF_def)

lemma base_formats_ok [fmt_intros]:
  "fmt_ok boolF" "fmt_ok (wordF :: 'w::len word fmt)" "fmt_ok stringF" "fmt_ok intF"
  by (auto simp: boolF_def wordF_def stringF_def intF_def intro!: fmt_intros)

lemma optF_ok [fmt_intros]: "fmt_ok f \<Longrightarrow> fmt_ok (optF f)"
  by (auto simp: optF_def split: option.split intro!: fmt_intros)

lemma message_formats_ok [fmt_intros]: "fmt_ok packetF" "fmt_ok mdF"
  by (auto simp: packetF_def mdF_def intro!: fmt_intros)

lemma rebuild_headers [simp]:
  "(\<lambda>h. \<lparr> rhMethod = rhMethod h, rhMetadata = rhMetadata h, rhTimeout = rhTimeout h \<rparr>) = id"
  by (rule ext) simp

lemma requestF_ok: "fmt_ok requestF"
  by (auto simp: requestF_def option.map_comp comp_def option.map_id
      split: request_type.split intro!: fmt_intros)

lemma responseF_ok: "fmt_ok responseF"
  by (auto simp: responseF_def option.map_comp comp_def apfst_def map_prod_def case_prod_beta map_option.id [unfolded id_def]
      split: response_type.split intro!: fmt_intros)

section \<open>The codec\<close>

definition fmtEnv :: "'m fmt \<Rightarrow> 'm dc_env" where
  "fmtEnv f = \<lparr> marshal = Inr \<circ> fmtEnc f, readings = (\<lambda>_. [(False, 10)]), sendRes = (\<lambda>_ _. None),
     gracefulClose = None, errorText = (\<lambda>_. []), statsID = [] \<rparr>"

definition fmtDecode :: "'m fmt \<Rightarrow> bytes \<Rightarrow> err + 'm" where
  "fmtDecode f r = (case fmtDec f r of Some (x, []) \<Rightarrow> Inr x | _ \<Rightarrow> Inl (ErrText ''proto: cannot parse''))"

lemma codec_fmtEnv: "fmt_ok f \<Longrightarrow> codec (fmtEnv f) (fmtDecode f)"
  using fmt_okD [of f _ "[]"]
  by (simp add: codec_def goodEnv_def fmtEnv_def bufferThreshold_def payload_def fmtDecode_def)

end
