(* ===== verification/Framing.thy ===== *)
theory Framing
  imports BaseStream
begin

text \<open>
  Splitting a message into packets and putting it together again.  Both ends of a stream split a
  marshalled message with the same loop (\<^verbatim>\<open>SendMsg\<close> of \<^verbatim>\<open>src/rpc/wrtc_server_stream.go\<close>,
  \<^verbatim>\<open>writeMessage\<close> of \<^verbatim>\<open>src/rpc/wrtc_client_stream.go\<close>), interleaved with the writes of the
  packets; the reader reassembles with \<^const>\<open>processMessage\<close>.
  The locale \<open>packetiser\<close> is the contract between the two sides: what a splitter has to promise so
  that the reader recovers the messages.
\<close>

section \<open>The sending loop\<close>

text \<open>
  One packet of the loop: the prefix of at most \<open>n\<close> bytes, marked as the last when nothing remains.
\<close>

definition nextPacket :: "nat \<Rightarrow> bytes \<Rightarrow> packet_message \<times> bytes" where
  "nextPacket n data =
     (let amountToSend = (if length data < n then length data else n);
          rest = drop amountToSend data
      in (\<lparr> pmData = take amountToSend data, pmEom = (length rest = 0) \<rparr>, rest))"

text \<open>
  The loop with its writes: \<open>w\<close> writes one packet and gives an error or nil, and \<^const>\<open>None\<close> when
  the write does not return.  A packet size of zero makes no progress, so the loop is a partial
  function: \<^const>\<open>None\<close> also stands for a loop that never ends.
\<close>

partial_function (option) packetLoop ::
    "nat \<Rightarrow> (packet_message \<Rightarrow> 'c \<Rightarrow> (err option \<times> 'c) option) \<Rightarrow> bytes \<Rightarrow> 'c
      \<Rightarrow> (err option \<times> 'c) option" where
  "packetLoop n w data c =
     (if length data = 0 then Some (None, c)
      else
        Option.bind (w (fst (nextPacket n data)) c)
          (\<lambda>(e, c'). if e \<noteq> None then Some (e, c') else packetLoop n w (snd (nextPacket n data)) c'))"

text \<open>The whole body after marshalling: an empty message is one empty packet.\<close>

definition sendPackets ::
    "nat \<Rightarrow> (packet_message \<Rightarrow> 'c \<Rightarrow> (err option \<times> 'c) option) \<Rightarrow> bytes \<Rightarrow> 'c
      \<Rightarrow> (err option \<times> 'c) option" where
  "sendPackets n w data c =
     (if length data = 0 then w \<lparr> pmData = [], pmEom = True \<rparr> c else packetLoop n w data c)"

section \<open>Reference definition\<close>

text \<open>The packets of a message, as a list.\<close>

function chunks :: "nat \<Rightarrow> bytes \<Rightarrow> packet_message list" where
  "chunks n data =
     (if data = [] \<or> n = 0 then []
      else fst (nextPacket n data) # chunks n (snd (nextPacket n data)))"
  by pat_completeness auto
termination
  by (relation "measure (length \<circ> snd)") (auto simp: nextPacket_def Let_def Suc_le_eq)

declare chunks.simps [simp del]

lemma chunks_Nil [simp]: "chunks n [] = []"
  by (simp add: chunks.simps)

definition packetsOf :: "nat \<Rightarrow> bytes \<Rightarrow> packet_message list" where
  "packetsOf n data = (if data = [] then [\<lparr> pmData = [], pmEom = True \<rparr>] else chunks n data)"

text \<open>Write a list of packets in order and stop at the first error.\<close>

fun writeAll ::
    "(packet_message \<Rightarrow> 'c \<Rightarrow> (err option \<times> 'c) option) \<Rightarrow> packet_message list \<Rightarrow> 'c
      \<Rightarrow> (err option \<times> 'c) option" where
  "writeAll w [] c = Some (None, c)"
| "writeAll w (p # ps) c =
     Option.bind (w p c) (\<lambda>(e, c'). if e \<noteq> None then Some (e, c') else writeAll w ps c')"

lemma packetLoop_Nil [simp]: "packetLoop n w [] c = Some (None, c)"
  by (simp add: packetLoop.simps)

lemma packetLoop_writeAll:
  assumes "0 < n"
  shows "packetLoop n w data c = writeAll w (chunks n data) c"
  using assms
proof (induction n data arbitrary: c rule: chunks.induct)
  case (1 n data)
  show ?case
  proof (cases "data = []")
    case True
    then show ?thesis
      by simp
  next
    case False
    then have IH: "packetLoop n w (snd (nextPacket n data)) c'
        = writeAll w (chunks n (snd (nextPacket n data))) c'" for c'
      using 1 by auto
    show ?thesis
      using False \<open>0 < n\<close>
      by (simp add: packetLoop.simps [of n w data] chunks.simps [of n data] IH cong: if_cong)
  qed
qed

lemma writeAll_single: "writeAll w [p] c = w p c"
  by (cases "w p c") auto

lemma sendPackets_writeAll:
  assumes "0 < n"
  shows "sendPackets n w data c = writeAll w (packetsOf n data) c"
proof (cases "data = []")
  case True
  then show ?thesis
    by (simp add: sendPackets_def packetsOf_def writeAll_single del: writeAll.simps)
next
  case False
  then show ?thesis
    by (simp add: sendPackets_def packetsOf_def packetLoop_writeAll [OF assms])
qed

lemma writeAll_returns:
  assumes "\<And>p c. w p c \<noteq> None"
  shows "writeAll w ps c \<noteq> None"
  using assms
proof (induction ps arbitrary: c)
  case (Cons p ps)
  obtain e c' where "w p c = Some (e, c')"
    using Cons.prems [of p c] by (cases "w p c") auto
  then show ?case
    using Cons by auto
qed simp

text \<open>A packet size of zero is a loop without end whenever the writes succeed.\<close>

lemma packetLoop_zero:
  assumes "data \<noteq> []" and "\<And>p c. \<exists>c'. w p c = Some (None, c')"
  shows "packetLoop 0 w data c = None"
proof -
  have "n = 0 \<longrightarrow> w' = w \<longrightarrow> d \<noteq> data" if "packetLoop n w' d c = Some r" for n w' d c r
    using that
  proof (rule packetLoop.raw_induct [rotated], intro impI notI)
    fix f n w' d c r
    assume IH: "\<And>n w' d c r. f n w' d c = Some r \<Longrightarrow> n = 0 \<longrightarrow> w' = w \<longrightarrow> d \<noteq> data"
      and run: "(if length d = 0 then Some (None, c)
           else Option.bind (w' (fst (nextPacket n d)) c)
             (\<lambda>(e, c'). if e \<noteq> None then Some (e, c') else f n w' (snd (nextPacket n d)) c')) = Some r"
      and eq: "n = 0" "w' = w" "d = data"
    have "snd (nextPacket 0 data) = data"
      by (simp add: nextPacket_def)
    with run eq assms(1) assms(2) [of "fst (nextPacket 0 data)" c] obtain c' where "f 0 w data c' = Some r"
      by auto
    then show False
      using IH by blast
  qed
  then show ?thesis
    by (metis not_None_eq)
qed

section \<open>The contract between splitter and reader\<close>

text \<open>All messages the reader completes while it consumes packets.\<close>

fun reassemble ::
    "packet_message list \<Rightarrow> 'a base_stream_scheme \<Rightarrow> bytes list \<times> 'a base_stream_scheme" where
  "reassemble [] s = ([], s)"
| "reassemble (p # ps) s =
     (case processMessage p s of
        (r, s1) \<Rightarrow> (case reassemble ps s1 of
           (rs, s2) \<Rightarrow> (case r of None \<Rightarrow> (rs, s2) | Some m \<Rightarrow> (m # rs, s2))))"

lemma reassemble_append:
  "reassemble (ps @ qs) s =
     (case reassemble ps s of (rs, s1) \<Rightarrow> (case reassemble qs s1 of (rs', s2) \<Rightarrow> (rs @ rs', s2)))"
  by (induction ps arbitrary: s) (auto split: prod.splits option.splits)

text \<open>A well-formed packet train: data in every packet, the last one and only it marked.\<close>

fun train :: "packet_message list \<Rightarrow> bool" where
  "train [] \<longleftrightarrow> False"
| "train [p] \<longleftrightarrow> pmEom p"
| "train (p # q # ps) \<longleftrightarrow> \<not> pmEom p \<and> pmData q \<noteq> [] \<and> train (q # ps)"

locale packetiser =
  fixes split :: "bytes \<Rightarrow> packet_message list"
  assumes split_data: "concat (map pmData (split m)) = m"
    and split_train: "train (split m)"
begin

lemma split_nonempty: "split m \<noteq> []"
  using split_train [of m] by auto

end

lemma reassemble_train:
  assumes "train ps" "length (packetBuf s) + length (concat (map pmData ps)) \<le> MaxMessageSize"
    "packetBuf s \<noteq> [] \<longrightarrow> pmData (hd ps) \<noteq> []"
  shows "reassemble ps s = ([packetBuf s @ concat (map pmData ps)], s\<lparr>packetBuf := []\<rparr>)"
  using assms
proof (induction ps arbitrary: s rule: train.induct)
  case (2 p)
  then show ?case
    by (auto simp: processMessage_def Let_def)
next
  case (3 p q ps)
  let ?s = "s\<lparr>packetBuf := packetBuf s @ pmData p\<rparr>"
  have p: "processMessage p s = (None, ?s)"
    using 3 by (auto simp: processMessage_def Let_def)
  have "reassemble (q # ps) ?s = ([packetBuf ?s @ concat (map pmData (q # ps))], ?s\<lparr>packetBuf := []\<rparr>)"
    using 3 by (intro "3.IH") auto
  then show ?case
    by (simp add: p)
qed simp

context packetiser
begin

text \<open>One message goes through unchanged.\<close>

lemma reassemble_split:
  assumes "packetBuf s = []" "length m \<le> MaxMessageSize"
  shows "reassemble (split m) s = ([m], s)"
  using reassemble_train [OF split_train, of s m] assms
  by (simp add: split_data)

text \<open>So does a sequence of messages: framing never merges, splits or reorders.\<close>

lemma reassemble_messages:
  assumes "packetBuf s = []" "\<forall>m \<in> set ms. length m \<le> MaxMessageSize"
  shows "reassemble (concat (map split ms)) s = (ms, s)"
  using assms(2) by (induction ms) (simp_all add: reassemble_append reassemble_split [OF assms(1)])

end

section \<open>The loop keeps the contract\<close>

lemma nextPacket_data: "pmData (fst (nextPacket n data)) @ snd (nextPacket n data) = data"
  by (simp add: nextPacket_def Let_def)

lemma nextPacket_nonempty:
  "0 < n \<Longrightarrow> data \<noteq> [] \<Longrightarrow> pmData (fst (nextPacket n data)) \<noteq> []"
  by (simp add: nextPacket_def Let_def)

lemma nextPacket_length: "length (pmData (fst (nextPacket n data))) \<le> n"
  by (simp add: nextPacket_def Let_def)

lemma chunks_data: "0 < n \<Longrightarrow> concat (map pmData (chunks n data)) = data"
proof (induction n data rule: chunks.induct)
  case (1 n data)
  then show ?case
    using nextPacket_data [of n data]
    by (cases "data = []") (simp_all add: chunks.simps [of n "_ # _"] neq_Nil_conv, auto simp: chunks.simps [of n data])
qed

lemma chunks_bounds: "p \<in> set (chunks n data) \<Longrightarrow> 0 < length (pmData p) \<and> length (pmData p) \<le> n"
proof (induction n data rule: chunks.induct)
  case (1 n data)
  then show ?case
    using nextPacket_nonempty [of n data] nextPacket_length [of n data]
    by (subst (asm) (2) chunks.simps) (auto split: if_splits)
qed

lemma chunks_train: "0 < n \<Longrightarrow> data \<noteq> [] \<Longrightarrow> train (chunks n data)"
proof (induction n data rule: chunks.induct)
  case (1 n data)
  let ?rest = "snd (nextPacket n data)"
  show ?case
  proof (cases "?rest = []")
    case True
    then have "pmEom (fst (nextPacket n data))"
      by (auto simp: nextPacket_def Let_def)
    then show ?thesis
      using 1 True by (simp add: chunks.simps [of n data] chunks.simps [of n "[]"])
  next
    case False
    then have eom: "\<not> pmEom (fst (nextPacket n data))"
      by (auto simp: nextPacket_def Let_def)
    have "train (chunks n ?rest)"
      using 1 False by simp
    moreover have "\<forall>p \<in> set (chunks n ?rest). pmData p \<noteq> []"
      using chunks_bounds by fastforce
    ultimately show ?thesis
      using 1 eom by (cases "chunks n ?rest") (auto simp: chunks.simps [of n data])
  qed
qed

lemma packetsOf_data: "0 < n \<Longrightarrow> concat (map pmData (packetsOf n m)) = m"
  by (simp add: packetsOf_def chunks_data)

lemma packetsOf_train: "0 < n \<Longrightarrow> train (packetsOf n m)"
  by (simp add: packetsOf_def chunks_train)

lemma packetsOf_bound: "p \<in> set (packetsOf n m) \<Longrightarrow> length (pmData p) \<le> n"
  using chunks_bounds by (auto simp: packetsOf_def split: if_splits)

text \<open>Every positive packet size keeps the contract.\<close>

interpretation loop: packetiser "packetsOf (Suc n)" for n
  by unfold_locales (simp_all add: packetsOf_data packetsOf_train)

text \<open>A writer that records the packets it is given.\<close>

definition record_packet :: "packet_message \<Rightarrow> packet_message list \<Rightarrow> (err option \<times> packet_message list) option" where
  "record_packet p ps = Some (None, ps @ [p])"

lemma writeAll_record: "writeAll record_packet ps acc = Some (None, acc @ ps)"
  by (induction ps arbitrary: acc) (simp_all add: record_packet_def)

text \<open>Several messages sent one after the other.\<close>

fun sendMessages :: "nat \<Rightarrow> bytes list \<Rightarrow> packet_message list \<Rightarrow> (err option \<times> packet_message list) option" where
  "sendMessages n [] acc = Some (None, acc)"
| "sendMessages n (m # ms) acc =
     Option.bind (sendPackets n record_packet m acc) (\<lambda>(e, acc'). if e \<noteq> None then Some (e, acc') else sendMessages n ms acc')"

lemma sendMessages_packets:
  "0 < n \<Longrightarrow> sendMessages n ms acc = Some (None, acc @ concat (map (packetsOf n) ms))"
  by (induction ms arbitrary: acc) (simp_all add: sendPackets_writeAll writeAll_record)

text \<open>
  C14. Framing is lossless.  For every positive packet size the sending loop ends; the packets it writes
  for a sequence of messages, each within the size limit, hold at most the packet size each, and a
  reader that starts with an empty buffer completes exactly those messages in that order and is left with
  an empty buffer.
\<close>

theorem framing_round_trip:
  assumes "0 < n" "packetBuf s = []" "\<forall>m \<in> set ms. length m \<le> MaxMessageSize"
  shows "\<exists>ps. sendMessages n ms [] = Some (None, ps) \<and> reassemble ps s = (ms, s) \<and>
    (\<forall>p \<in> set ps. length (pmData p) \<le> n)"
proof -
  obtain k where n: "n = Suc k"
    using assms(1) by (cases n) simp_all
  have "reassemble (concat (map (packetsOf n) ms)) s = (ms, s)"
    unfolding n using assms(2,3) by (rule loop.reassemble_messages)
  then show ?thesis
    using sendMessages_packets [OF assms(1), of ms "[]"] packetsOf_bound by auto
qed

theorem framing_round_trip_witness:
  "\<exists>ps. sendMessages 2 [[1, 2, 3, 4, 5], [], [6]] [] = Some (None, ps) \<and>
     reassemble ps (newWebRTCBaseStream None 1) = ([[1, 2, 3, 4, 5], [], [6]], newWebRTCBaseStream None 1) \<and>
     (\<forall>p \<in> set ps. length (pmData p) \<le> 2)"
  using framing_round_trip [of 2 "newWebRTCBaseStream None 1" "[[1, 2, 3, 4, 5], [], [6]]"]
  by (simp add: newWebRTCBaseStream_def MaxMessageSize_def)

text \<open>
  A message over the limit is not discarded whole: the packet that crosses the limit empties the
  buffer, the packets after it start a new message, and the reader completes the tail of the oversized
  message as if it were a message of its own.
\<close>

lemma oversized_message_tail_delivered:
  assumes "train (q # ps)" "\<not> pmEom p"
    and "MaxMessageSize < length (pmData p) + length (packetBuf s)"
    and "length (concat (map pmData (q # ps))) \<le> MaxMessageSize"
  shows "reassemble (p # q # ps) s = ([concat (map pmData (q # ps))], s\<lparr>packetBuf := []\<rparr>)"
  using reassemble_train [OF assms(1), of "s\<lparr>packetBuf := []\<rparr>"] assms(2,3,4)
  by (simp add: processMessage_def)

end
