(* ===== verification/GoErrors.thy ===== *)
theory GoErrors
  imports GoPrelude
begin

text \<open>
  Errors that come in bundles, and gRPC statuses: \<^verbatim>\<open>src/error.go\<close> and the two conversions
  \<^verbatim>\<open>isContextCanceled\<close> and \<^verbatim>\<open>ErrorToStatus\<close> of \<^verbatim>\<open>src/rpc/wrtc_server_stream.go\<close>.

  The bundles are made by \<^verbatim>\<open>go.uber.org/multierr\<close> and the statuses by
  \<^verbatim>\<open>google.golang.org/grpc/status\<close>; their functions are the fields of \<open>err_env\<close>.  What the
  sources rely on is stated as hypotheses: \<open>merr_laws\<close> for bundles (an error is either single and
  its only part, or has several parts; parts are single; combining is nil just when there is
  nothing to combine) and \<open>status_laws\<close> for statuses.
\<close>

section \<open>The foreign functions\<close>

type_synonym grpc_status = "grpc_code \<times> string"

record err_env =
  errText :: "err \<Rightarrow> string"
  merrErrors :: "err \<Rightarrow> err list"
  merrCombine :: "err option list \<Rightarrow> err option"
  stFromContextError :: "err option \<Rightarrow> grpc_status option"
  stConvert :: "err option \<Rightarrow> grpc_status option"
  stFromError :: "err \<Rightarrow> grpc_status option"

definition merr_laws :: "err_env \<Rightarrow> bool" where
  "merr_laws E \<longleftrightarrow>
     (\<forall>e. merrErrors E e = [e] \<or> 1 < length (merrErrors E e)) \<and>
     (\<forall>e. \<forall>p \<in> set (merrErrors E e). merrErrors E p = [p]) \<and>
     (\<forall>es. merrCombine E es = None \<longleftrightarrow> (\<forall>e \<in> set es. e = None))"

section \<open>Filtering\<close>

text \<open>
  The source recurses on the parts of a bundle; \<open>fuel\<close> bounds the depth and \<^const>\<open>None\<close> says that
  it was not enough.
\<close>

definition matchesTarget :: "err_env \<Rightarrow> err \<Rightarrow> err \<Rightarrow> bool" where
  "matchesTarget E e t \<longleftrightarrow> errorsIs e t \<or> strContains (errText E e) (errText E t)"

fun FilterOutError :: "nat \<Rightarrow> err_env \<Rightarrow> err option \<Rightarrow> err option \<Rightarrow> err option option" where
  "FilterOutError 0 E e t = None"
| "FilterOutError (Suc fuel) E e t =
     (case e of
        None \<Rightarrow> Some None
      | Some x \<Rightarrow>
          (case t of
             None \<Rightarrow> Some (Some x)
           | Some y \<Rightarrow>
               let errs = merrErrors E x in
               if length errs = 1 then
                 (if matchesTarget E x y then Some None else Some (Some x))
               else
                 (let parts = map (\<lambda>p. (p, FilterOutError fuel E (Some p) (Some y))) errs in
                  if \<exists>r \<in> set parts. snd r = None then None
                  else Some (merrCombine E (map (Some \<circ> fst) (filter (\<lambda>r. snd r \<noteq> Some None) parts))))))"

text \<open>The parts that survive, for errors whose parts are flat.\<close>

definition surviving :: "err_env \<Rightarrow> err \<Rightarrow> err \<Rightarrow> err list" where
  "surviving E e t = filter (\<lambda>p. \<not> matchesTarget E p t) (merrErrors E e)"

lemma FilterOutError_single:
  assumes "length (merrErrors E e) = 1"
  shows "FilterOutError (Suc k) E (Some e) (Some t) =
    Some (if matchesTarget E e t then None else Some e)"
  using assms by simp

lemma merr_part:
  assumes "merr_laws E" "p \<in> set (merrErrors E e)"
  shows "length (merrErrors E p) = 1"
  using assms by (auto simp: merr_laws_def)

lemma FilterOutError_bundle:
  assumes "merr_laws E" "length (merrErrors E e) \<noteq> 1"
  shows "FilterOutError (Suc (Suc k)) E (Some e) (Some t) = Some (merrCombine E (map Some (surviving E e t)))"
proof -
  let ?parts = "map (\<lambda>p. (p, FilterOutError (Suc k) E (Some p) (Some t))) (merrErrors E e)"
  have parts: "?parts = map (\<lambda>p. (p, Some (if matchesTarget E p t then None else Some p))) (merrErrors E e)"
    by (rule map_cong [OF refl]) (simp add: FilterOutError_single merr_part [OF assms(1)] del: FilterOutError.simps)
  have "map (Some \<circ> fst) (filter (\<lambda>r. snd r \<noteq> Some None) ?parts) = map Some (surviving E e t)"
    unfolding parts surviving_def by (induction "merrErrors E e") (auto simp: filter_map comp_def)
  moreover have "\<not> (\<exists>r \<in> set ?parts. snd r = None)"
    unfolding parts by auto
  ultimately show ?thesis
    using assms(2) by (subst FilterOutError.simps) (simp only: option.case Let_def if_False refl)
qed

text \<open>Two levels are always enough.\<close>

lemma FilterOutError_returns:
  assumes "merr_laws E"
  shows "\<exists>r. FilterOutError (Suc (Suc k)) E e t = Some r"
proof (cases e)
  case (Some x)
  show ?thesis
  proof (cases t)
    case (Some y)
    then show ?thesis
      using \<open>e = Some x\<close> FilterOutError_bundle [OF assms, of x k y] FilterOutError_single [of E x "Suc k" y]
      by (cases "length (merrErrors E x) = 1") (simp_all del: FilterOutError.simps)
  qed (simp add: Some)
qed simp

section \<open>Statuses\<close>

text \<open>The code of a possibly nil status.\<close>

definition statusCode :: "grpc_status option \<Rightarrow> grpc_code" where
  "statusCode s = (case s of None \<Rightarrow> OK | Some (c, _) \<Rightarrow> c)"

definition isContextCanceled :: "err_env \<Rightarrow> err option \<Rightarrow> bool" where
  "isContextCanceled E e \<longleftrightarrow>
     (case e of
        None \<Rightarrow> False
      | Some x \<Rightarrow>
          if FilterOutError 2 E (Some x) (Some CtxCanceled) = Some None then True
          else (case stFromError E x of None \<Rightarrow> False | Some st \<Rightarrow> fst st = Canceled))"

definition ErrorToStatus :: "err_env \<Rightarrow> err option \<Rightarrow> grpc_status option" where
  "ErrorToStatus E e =
     (let respStatus = stFromContextError E e in
      if statusCode respStatus = Unknown then
        (case stConvert E e of None \<Rightarrow> Some (OK, []) | Some st \<Rightarrow> Some st)
      else respStatus)"

text \<open>
  What the gRPC documentation says of the two conversions: both give nil for nil; the first maps the
  two context errors to their codes and everything else to \<^verbatim>\<open>Unknown\<close>; the second gives the
  status of a status error and never the code \<^verbatim>\<open>OK\<close> for an error.
\<close>

definition status_laws :: "err_env \<Rightarrow> bool" where
  "status_laws E \<longleftrightarrow>
     stFromContextError E None = None \<and> stConvert E None = None \<and>
     (\<forall>e. statusCode (stFromContextError E (Some e)) =
       (if errorsIs e CtxDeadlineExceeded then DeadlineExceeded
        else if errorsIs e CtxCanceled then Canceled else Unknown)) \<and>
     (\<forall>c m. c \<noteq> OK \<longrightarrow> stConvert E (Some (ErrStatus c m)) = Some (c, m)) \<and>
     (\<forall>e. stConvert E (Some e) \<noteq> None) \<and>
     (\<forall>e. statusCode (stConvert E (Some e)) \<noteq> OK)"

lemma ErrorToStatus_None: "status_laws E \<Longrightarrow> ErrorToStatus E None = None"
  by (simp add: status_laws_def ErrorToStatus_def statusCode_def)

lemma ErrorToStatus_status:
  "status_laws E \<Longrightarrow> c \<noteq> OK \<Longrightarrow> ErrorToStatus E (Some (ErrStatus c m)) = Some (c, m)"
  by (simp add: status_laws_def ErrorToStatus_def)

text \<open>A concrete instance of the foreign functions, in which every error is a single one.\<close>

definition plainErrEnv :: err_env where
  "plainErrEnv = \<lparr>
     errText = (\<lambda>e. case e of EOF \<Rightarrow> ''EOF'' | CtxCanceled \<Rightarrow> ''context canceled'' | ErrText m \<Rightarrow> m
                  | ErrStatus c m \<Rightarrow> m | _ \<Rightarrow> ''error''),
     merrErrors = (\<lambda>e. [e]),
     merrCombine = (\<lambda>es. case filter (\<lambda>e. e \<noteq> None) es of [] \<Rightarrow> None | e # _ \<Rightarrow> e),
     stFromContextError = map_option (\<lambda>e. if errorsIs e CtxDeadlineExceeded then (DeadlineExceeded, [])
       else if errorsIs e CtxCanceled then (Canceled, []) else (Unknown, [])),
     stConvert = map_option (\<lambda>e. case e of ErrStatus c m \<Rightarrow> if c = OK then (Unknown, m) else (c, m)
       | _ \<Rightarrow> (Unknown, [])),
     stFromError = (\<lambda>e. case e of ErrStatus c m \<Rightarrow> Some (c, m) | _ \<Rightarrow> None) \<rparr>"

lemma plain_combine_None:
  "(case filter (\<lambda>e. e \<noteq> None) es of [] \<Rightarrow> None | e # _ \<Rightarrow> e) = None \<longleftrightarrow> (\<forall>e \<in> set es. e = (None :: err option))"
  by (induction es) auto

lemma plain_merr_laws: "merr_laws plainErrEnv"
  unfolding merr_laws_def using plain_combine_None by (simp add: plainErrEnv_def)

lemma plain_status_laws: "status_laws plainErrEnv"
  by (auto simp: status_laws_def plainErrEnv_def statusCode_def split: err.splits)

text \<open>
  Filtering an error removes exactly the parts that are the target or mention its text: it gives
  nil just when every part of the error goes, and for a bundle it combines the parts that remain, in
  their order.
\<close>

lemma FilterOutError_spec:
  assumes "merr_laws E"
  shows "(FilterOutError 2 E (Some e) (Some t) = Some None \<longleftrightarrow> surviving E e t = []) \<and>
    (length (merrErrors E e) \<noteq> 1 \<longrightarrow>
      FilterOutError 2 E (Some e) (Some t) = Some (merrCombine E (map Some (surviving E e t))))"
proof (cases "length (merrErrors E e) = 1")
  case True
  then have "merrErrors E e = [e]"
    using assms by (auto simp: merr_laws_def)
  then show ?thesis
    by (simp add: numeral_2_eq_2 surviving_def)
next
  case False
  have "FilterOutError 2 E (Some e) (Some t) = Some (merrCombine E (map Some (surviving E e t)))"
    using FilterOutError_bundle [OF assms False, of 0 t] by (simp only: numeral_2_eq_2)
  moreover have "merrCombine E (map Some (surviving E e t)) = None \<longleftrightarrow> surviving E e t = []"
    using assms by (cases "surviving E e t") (simp_all add: merr_laws_def)
  ultimately show ?thesis
    by simp
qed

text \<open>Bundles by their text: an instance in which an error with the text \<^verbatim>\<open>bundle\<close> has three parts.\<close>

definition bundleErrEnv :: err_env where
  "bundleErrEnv = plainErrEnv\<lparr>merrErrors :=
     (\<lambda>e. if e = ErrText ''bundle'' then [EOF, CtxCanceled, ErrText ''x''] else [e])\<rparr>"

end
