(* ===== verification/StreamTable.thy ===== *)
theory StreamTable
  imports BaseStream
begin

text \<open>
  The table of streams both kinds of channel keep (\<^verbatim>\<open>ch.streams\<close> in
  \<^verbatim>\<open>src/rpc/wrtc_server_channel.go\<close> and \<^verbatim>\<open>src/rpc/wrtc_client_channel.go\<close>): what an operation on a
  stream announces to the channel, and the invariant that the table holds exactly the open streams.
  A stream is an object that other goroutines may hold longer than the table does, so the objects
  live in a list and the table maps identifiers to positions in it.
\<close>

section \<open>Announcing the end of a stream\<close>

text \<open>
  The contract every operation on a stream keeps towards the owner of the stream: the identity stays,
  and the callback is called with it exactly when the operation turned an open stream into a closed
  one.
\<close>

definition announces :: "'a base_stream_scheme \<Rightarrow> 'b base_stream_scheme \<Rightarrow> uint64 option \<Rightarrow> bool" where
  "announces s s' d \<longleftrightarrow>
     bsId s' = bsId s \<and>
     (d = None \<and> bsClosed s' = bsClosed s \<or> d = Some (bsId s) \<and> \<not> bsClosed s \<and> bsClosed s')"

lemma announces_same: "bsId s' = bsId s \<Longrightarrow> bsClosed s' = bsClosed s \<Longrightarrow> announces s s' None"
  by (simp add: announces_def)

lemma announces_shift:
  "announces s1 s' d \<Longrightarrow> bsId s1 = bsId s \<Longrightarrow> bsClosed s1 = bsClosed s \<Longrightarrow> announces s s' d"
  by (simp add: announces_def)

lemma announces_trans:
  "announces s s1 d1 \<Longrightarrow> announces s1 s2 d2 \<Longrightarrow> announces s s2 (if d1 = None then d2 else d1)"
  by (auto simp: announces_def)

lemma closeWithError_announces:
  assumes "closeWithError e x s = Some (s', d)"
  shows "announces s s' d"
  using assms
  by (auto simp: closeWithError_def closeRecv_def announces_def Let_def split: if_splits)

lemma baseClose_announces: "baseClose s = Some (s', d) \<Longrightarrow> announces s s' d"
  unfolding baseClose_def by (rule closeWithError_announces)

lemma closeFromTrailers_announces: "closeFromTrailers e s = Some (s', d) \<Longrightarrow> announces s s' d"
  unfolding closeFromTrailers_def by (rule closeWithError_announces)

lemma RecvMsg_announces: "RecvMsg um pick s = Some (r, s') \<Longrightarrow> announces s s' None"
  by (rule announces_same)
    (auto simp: RecvMsg_def recvMsgCtx_def recvMsgCh_def checkLastOrErr_def Let_def
      split: if_splits list.splits option.splits)

lemma deliver_keeps:
  assumes "deliver p data s = (r, s')"
  shows "bsId s' = bsId s" "bsClosed s' = bsClosed s" "recvClosed s' = recvClosed s"
  using assms by (auto simp: deliver_def Let_def split: if_splits)

lemma processMessage_keeps:
  assumes "processMessage p s = (r, s')"
  shows "bsId s' = bsId s" "bsClosed s' = bsClosed s" "recvClosed s' = recvClosed s" "parked s' = parked s"
    "msgCh s' = msgCh s"
  using assms by (auto simp: processMessage_def Let_def split: if_splits)

lemma resumeSender_keeps:
  assumes "resumeSender p s = (r, s')"
  shows "bsId s' = bsId s" "bsClosed s' = bsClosed s"
  using assms by (auto simp: resumeSender_def Let_def split: if_splits option.splits)

section \<open>The table\<close>

definition WebRTCMaxStreamCount :: nat where
  "WebRTCMaxStreamCount = 256"

definition tableOK :: "'a base_stream_scheme list \<Rightarrow> (uint64, nat) gomap \<Rightarrow> bool" where
  "tableOK objs tab \<longleftrightarrow>
     wfmap tab \<and> length tab \<le> WebRTCMaxStreamCount \<and>
     (\<forall>i k. mget tab i = Some k \<longleftrightarrow> k < length objs \<and> bsId (objs ! k) = i \<and> \<not> bsClosed (objs ! k))"

lemma tableOK_Nil [simp]: "tableOK [] []"
  by (simp add: tableOK_def)

lemma tableOK_index: "tableOK objs tab \<Longrightarrow> mget tab i = Some k \<Longrightarrow> k < length objs"
  by (simp add: tableOK_def)

text \<open>\<^verbatim>\<open>onDone\<close>: the entry of an announced stream is deleted.\<close>

definition tableAfter :: "uint64 option \<Rightarrow> (uint64, nat) gomap \<Rightarrow> (uint64, nat) gomap" where
  "tableAfter d tab = (case d of None \<Rightarrow> tab | Some i \<Rightarrow> mdel i tab)"

lemma tableOK_update:
  assumes "tableOK objs tab" "k < length objs" "announces (objs ! k) s d"
  shows "tableOK (objs[k := s]) (tableAfter d tab)"
proof (cases d)
  case None
  then have "bsId s = bsId (objs ! k)" "bsClosed s = bsClosed (objs ! k)"
    using assms(3) by (auto simp: announces_def)
  then show ?thesis
    using None assms(1,2) by (auto simp: tableOK_def tableAfter_def nth_list_update)
next
  case (Some i)
  then have i: "i = bsId (objs ! k)" "bsId s = i" "bsClosed s" "\<not> bsClosed (objs ! k)"
    using assms(3) by (auto simp: announces_def)
  have tab: "mget tab j = Some p \<longleftrightarrow> p < length objs \<and> bsId (objs ! p) = j \<and> \<not> bsClosed (objs ! p)" for j p
    using assms(1) by (simp add: tableOK_def)
  have ik: "mget tab i = Some k"
    using assms(2) i tab by simp
  have "mget (mdel i tab) j = Some p \<longleftrightarrow>
      p < length objs \<and> bsId (objs[k := s] ! p) = j \<and> \<not> bsClosed (objs[k := s] ! p)" for j p
    using tab [of j p] tab [of i p] ik i by (auto simp: nth_list_update)
  then show ?thesis
    using Some assms(1) order_trans [OF length_mdel_le] by (auto simp: tableOK_def tableAfter_def)
qed

lemma tableOK_new:
  assumes "tableOK objs tab" "mget tab i = None" "length tab \<noteq> WebRTCMaxStreamCount" "bsId s = i" "\<not> bsClosed s"
  shows "tableOK (objs @ [s]) (mput i (length objs) tab)"
proof -
  have tab: "mget tab j = Some p \<longleftrightarrow> p < length objs \<and> bsId (objs ! p) = j \<and> \<not> bsClosed (objs ! p)" for j p
    using assms(1) by (simp add: tableOK_def)
  have "mget (mput i (length objs) tab) j = Some p \<longleftrightarrow>
      p < Suc (length objs) \<and> bsId ((objs @ [s]) ! p) = j \<and> \<not> bsClosed ((objs @ [s]) ! p)" for j p
    using tab [of j p] tab [of i p] assms(2,4,5) by (auto simp: nth_append less_Suc_eq)
  then show ?thesis
    using assms(1-3) by (simp add: tableOK_def length_mput)
qed

end
