(* ===== verification/ServerStream.thy ===== *)
theory ServerStream
  imports Framing BaseChannel GoErrors StreamTable
begin

text \<open>
  The server end of a stream: \<^verbatim>\<open>src/rpc/wrtc_server_stream.go\<close>, with the part of the server it
  uses to admit calls (\<^verbatim>\<open>webrtcServer\<close> of \<^verbatim>\<open>src/rpc/wrtc_server.go\<close>: handlers, call tickets, the
  wait group of running handlers).

  Operations take the stream and the channel it writes to and give the result, both objects, and the
  call of \<^verbatim>\<open>onDone\<close> if the operation closed the stream; \<^const>\<open>None\<close> when the call does not return.
  \<open>E\<close> holds the foreign error functions, \<open>env\<close> the data channel, \<open>joinMD\<close> is \<^verbatim>\<open>metadata.Join\<close>.
\<close>

section \<open>State\<close>

record server_stream = base_stream +
  ssMethod :: string
  ssHeadersWritten :: bool
  ssHeadersReceived :: bool
  ssHeader :: "md option"
  ssTrailer :: "md option"
  ssSendClosed :: bool
  ssPendingEos :: bool

definition newWebRTCServerStream :: "err option \<Rightarrow> string \<Rightarrow> uint64 \<Rightarrow> server_stream" where
  "newWebRTCServerStream ctx method stream =
     base_stream.extend (newWebRTCBaseStream ctx stream)
       \<lparr> ssMethod = method, ssHeadersWritten = False, ssHeadersReceived = False, ssHeader = None,
         ssTrailer = None, ssSendClosed = False, ssPendingEos = False \<rparr>"

text \<open>
  The largest packet: what a data channel message can hold less the size of the encoded wrapper,
  which is computed once, when the package is initialised.  \<open>wrapper\<close> is the length of that
  encoding.
\<close>

definition maxResponseMessagePacketDataSize :: "nat \<Rightarrow> nat" where
  "maxResponseMessagePacketDataSize wrapper = maxDataChannelSize - wrapper"

section \<open>Headers and trailers\<close>

definition mergeMD :: "(md \<Rightarrow> md \<Rightarrow> md) \<Rightarrow> md option \<Rightarrow> md option \<Rightarrow> md option" where
  "mergeMD joinMD old new =
     (case old of None \<Rightarrow> new | Some o' \<Rightarrow> (case new of None \<Rightarrow> Some o' | Some n \<Rightarrow> Some (joinMD o' n)))"

definition SetHeader ::
    "(md \<Rightarrow> md \<Rightarrow> md) \<Rightarrow> md option \<Rightarrow> server_stream \<Rightarrow> err option \<times> server_stream" where
  "SetHeader joinMD header s =
     (if ssHeadersWritten s then (Some ErrIllegalHeaderWrite, s)
      else (None, s\<lparr>ssHeader := mergeMD joinMD (ssHeader s) header\<rparr>))"

definition SetTrailer :: "(md \<Rightarrow> md \<Rightarrow> md) \<Rightarrow> md option \<Rightarrow> server_stream \<Rightarrow> server_stream" where
  "SetTrailer joinMD trailer s = s\<lparr>ssTrailer := mergeMD joinMD (ssTrailer s) trailer\<rparr>"

text \<open>The frames a server writes (\<^verbatim>\<open>writeHeaders\<close>, \<^verbatim>\<open>writeMessage\<close>, \<^verbatim>\<open>writeTrailers\<close> of its channel).\<close>

definition headersFrame :: "server_stream \<Rightarrow> response" where
  "headersFrame s =
     \<lparr> respStream = Some (bsId s), respType = RespHeaders \<lparr> rspMetadata = metadataToProto (ssHeader s) \<rparr> \<rparr>"

definition messageFrame :: "uint64 \<Rightarrow> packet_message \<Rightarrow> response" where
  "messageFrame i p = \<lparr> respStream = Some i, respType = RespMessage \<lparr> rspPacket = p \<rparr> \<rparr>"

definition trailersFrame :: "grpc_status option \<Rightarrow> server_stream \<Rightarrow> response" where
  "trailersFrame st s =
     \<lparr> respStream = Some (bsId s),
       respType = RespTrailers \<lparr> rtStatus = st, rtMetadata = metadataToProto (ssTrailer s) \<rparr> \<rparr>"

definition ssWriteHeaders ::
    "response dc_env \<Rightarrow> server_stream \<Rightarrow> 'c base_channel_scheme
      \<Rightarrow> (err option \<times> server_stream \<times> 'c base_channel_scheme) option" where
  "ssWriteHeaders env s ch =
     (if ssHeadersWritten s then Some (None, s, ch)
      else
        (case bcWrite env (headersFrame s) ch of
           None \<Rightarrow> None
         | Some (e, ch') \<Rightarrow> Some (e, s\<lparr>ssHeadersWritten := True\<rparr>, ch')))"

definition SendHeader ::
    "(md \<Rightarrow> md \<Rightarrow> md) \<Rightarrow> response dc_env \<Rightarrow> md option \<Rightarrow> server_stream \<Rightarrow> 'c base_channel_scheme
      \<Rightarrow> (err option \<times> server_stream \<times> 'c base_channel_scheme) option" where
  "SendHeader joinMD env header s ch =
     (case SetHeader joinMD header s of
        (Some e, s1) \<Rightarrow> Some (Some e, s1, ch)
      | (None, s1) \<Rightarrow> ssWriteHeaders env s1 ch)"

section \<open>Closing the sending side\<close>

text \<open>The body of \<^verbatim>\<open>closeWithSendError\<close> between its first test and its deferred functions.\<close>

definition writeClose ::
    "err_env \<Rightarrow> response dc_env \<Rightarrow> err option \<Rightarrow> server_stream \<Rightarrow> 'c base_channel_scheme
      \<Rightarrow> (err option \<times> server_stream \<times> 'c base_channel_scheme) option" where
  "writeClose E env err s ch =
     (if errIs err ErrClosedPipe then Some (None, s, ch)
      else if bsClosed s \<or> bcClosed ch then
        (if errIs (bcClosedReason ch) ErrDataChannelClosed \<and> isContextCanceled E err then Some (None, s, ch)
         else Some (wrapErr err ''close called multiple times with error'', s, ch))
      else
        (case ssWriteHeaders env s ch of
           None \<Rightarrow> None
         | Some (Some e, s1, ch1) \<Rightarrow> Some (Some e, s1, ch1)
         | Some (None, s1, ch1) \<Rightarrow>
             let respStatus = (if err = None then ErrorToStatus E (ctxErr s1) else ErrorToStatus E err) in
             (case bcWrite env (trailersFrame respStatus s1) ch1 of
                None \<Rightarrow> None
              | Some (e, ch2) \<Rightarrow> Some (e, s1, ch2))))"

definition closeWithSendError ::
    "err_env \<Rightarrow> response dc_env \<Rightarrow> err option \<Rightarrow> server_stream \<Rightarrow> 'c base_channel_scheme
      \<Rightarrow> (err option \<times> server_stream \<times> 'c base_channel_scheme \<times> uint64 option) option" where
  "closeWithSendError E env err s ch =
     (if ssSendClosed s then Some (None, s, ch, None)
      else
        (case writeClose E env err (s\<lparr>ssSendClosed := True\<rparr>) ch of
           None \<Rightarrow> None
         | Some (writeErr, s1, ch1) \<Rightarrow>
             (case baseClose s1 of
                None \<Rightarrow> None
              | Some (s2, d) \<Rightarrow>
                  Some (if writeErr = None \<or> errIs writeErr (ErrForeign ''sctp.ErrStreamClosed'') then None
                        else writeErr, s2, ch1, d))))"

section \<open>Sending a message\<close>

text \<open>\<open>marshalMsg\<close> encodes the response; \<open>n\<close> is the largest packet.\<close>

definition sendBody ::
    "response dc_env \<Rightarrow> nat \<Rightarrow> ('m \<Rightarrow> err + bytes) \<Rightarrow> 'm \<Rightarrow> server_stream \<Rightarrow> 'c base_channel_scheme
      \<Rightarrow> (err option \<times> server_stream \<times> 'c base_channel_scheme) option" where
  "sendBody env n marshalMsg m s ch =
     (case ssWriteHeaders env s ch of
        None \<Rightarrow> None
      | Some (Some e, s1, ch1) \<Rightarrow> Some (Some e, s1, ch1)
      | Some (None, s1, ch1) \<Rightarrow>
          (case marshalMsg m of
             Inl e \<Rightarrow> Some (Some e, s1, ch1)
           | Inr data \<Rightarrow>
               (case sendPackets n (\<lambda>p c. bcWrite env (messageFrame (bsId s1) p) c) data ch1 of
                  None \<Rightarrow> None
                | Some (e, ch2) \<Rightarrow> Some (e, s1, ch2))))"

definition SendMsg ::
    "err_env \<Rightarrow> response dc_env \<Rightarrow> nat \<Rightarrow> ('m \<Rightarrow> err + bytes) \<Rightarrow> 'm \<Rightarrow> server_stream \<Rightarrow> 'c base_channel_scheme
      \<Rightarrow> (err option \<times> server_stream \<times> 'c base_channel_scheme \<times> uint64 option) option" where
  "SendMsg E env n marshalMsg m s ch =
     (if ssSendClosed s then Some (Some ErrClosedPipe, s, ch, None)
      else
        (case sendBody env n marshalMsg m s ch of
           None \<Rightarrow> None
         | Some (None, s1, ch1) \<Rightarrow> Some (None, s1, ch1, None)
         | Some (Some e, s1, ch1) \<Rightarrow>
             (case closeWithSendError E env (Some e) s1 ch1 of
                None \<Rightarrow> None
              | Some (e2, s2, ch2, d) \<Rightarrow> Some (merrCombine E [Some e, e2], s2, ch2, d))))"

section \<open>The server\<close>

text \<open>
  What a path is bound to: \<^verbatim>\<open>unaryHandler\<close> or \<^verbatim>\<open>streamHandler\<close> around user code \<open>'h\<close>.  A running
  handler is an entry of \<open>srvRunning\<close>, the number of taken call tickets is the length of the buffered
  channel \<^verbatim>\<open>callTickets\<close>.
\<close>

datatype 'h handler = UnaryHandler 'h | StreamHandler string 'h

record 'h service_info =
  siMethods :: "(string, 'h) gomap"
  siStreams :: "(string, bool \<times> bool \<times> 'h) gomap"
  siMetadata :: string

record 'h webrtc_server =
  srvCtxErr :: "err option"
  srvHandlers :: "(string, 'h handler) gomap"
  srvServices :: "(string, 'h service_info) gomap"
  srvPeerConns :: "(nat, unit) gomap"
  srvWorkers :: nat
  srvTickets :: nat
  srvUnknown :: "'h option"
  srvRunning :: "'h handler list"

definition DefaultWebRTCMaxGRPCCalls :: nat where
  "DefaultWebRTCMaxGRPCCalls = 256"

definition newWebRTCServer :: "'h option \<Rightarrow> 'h webrtc_server" where
  "newWebRTCServer unknownStreamDesc =
     \<lparr> srvCtxErr = None, srvHandlers = [], srvServices = [], srvPeerConns = [], srvWorkers = 0,
       srvTickets = 0, srvUnknown = unknownStreamDesc, srvRunning = [] \<rparr>"

section \<open>Requests\<close>

text \<open>
  What \<^verbatim>\<open>processHeaders\<close> decides about a call: there is no handler, the server is stopping, there is
  no ticket, or the handler is started.  The count of workers goes up before the last three and down
  again only for a stopping server or when a started handler returns.
\<close>

datatype 'h admission = NoHandler | Stopping | NoTicket | Started "'h handler"

definition lookupHandler :: "'h webrtc_server \<Rightarrow> string \<Rightarrow> 'h handler option" where
  "lookupHandler srv method =
     (case mget (srvHandlers srv) method of
        Some h \<Rightarrow> Some h
      | None \<Rightarrow> map_option (StreamHandler method) (srvUnknown srv))"

definition admit :: "string \<Rightarrow> 'h webrtc_server \<Rightarrow> 'h admission \<times> 'h webrtc_server" where
  "admit method srv =
     (case lookupHandler srv method of
        None \<Rightarrow> (NoHandler, srv)
      | Some h \<Rightarrow>
          let srv1 = srv\<lparr>srvWorkers := srvWorkers srv + 1\<rparr> in
          if srvCtxErr srv1 \<noteq> None then (Stopping, srv1\<lparr>srvWorkers := srvWorkers srv1 - 1\<rparr>)
          else if srvTickets srv1 < DefaultWebRTCMaxGRPCCalls then
            (Started h, srv1\<lparr>srvTickets := srvTickets srv1 + 1, srvRunning := h # srvRunning srv1\<rparr>)
          else (NoTicket, srv1))"

text \<open>The deferred function of a handler's goroutine.\<close>

definition handlerReturns :: "'h handler \<Rightarrow> 'h webrtc_server \<Rightarrow> 'h webrtc_server" where
  "handlerReturns h srv =
     srv\<lparr>srvWorkers := srvWorkers srv - 1, srvTickets := srvTickets srv - 1,
         srvRunning := remove1 h (srvRunning srv)\<rparr>"

type_synonym ('h, 'c) request_result =
  "('h webrtc_server \<times> server_stream \<times> 'c base_channel_scheme \<times> uint64 option \<times> 'h handler option) option"

text \<open>An error of closing is logged only.\<close>

definition closeLogged ::
    "err_env \<Rightarrow> response dc_env \<Rightarrow> err \<Rightarrow> 'h webrtc_server \<Rightarrow> server_stream \<Rightarrow> 'c base_channel_scheme
      \<Rightarrow> ('h, 'c) request_result" where
  "closeLogged E env e srv s ch =
     (case closeWithSendError E env (Some e) s ch of
        None \<Rightarrow> None
      | Some (_, s1, ch1, d) \<Rightarrow> Some (srv, s1, ch1, d, None))"

definition processHeaders ::
    "err_env \<Rightarrow> response dc_env \<Rightarrow> request_headers \<Rightarrow> 'h webrtc_server \<Rightarrow> server_stream
      \<Rightarrow> 'c base_channel_scheme \<Rightarrow> ('h, 'c) request_result" where
  "processHeaders E env headers srv s ch =
     (case admit (rhMethod headers) srv of
        (NoHandler, srv1) \<Rightarrow> closeLogged E env (ErrStatus Unimplemented ''Unimplemented'') srv1 s ch
      | (Stopping, srv1) \<Rightarrow> Some (srv1, s, ch, None, None)
      | (NoTicket, srv1) \<Rightarrow> closeLogged E env (ErrStatus ResourceExhausted ''too many in-flight requests'') srv1 s ch
      | (Started h, srv1) \<Rightarrow> Some (srv1, s\<lparr>ssHeadersReceived := True\<rparr>, ch, None, Some h))"

text \<open>After a delivery: the end-of-stream mark closes the receiving side.\<close>

definition closeAtEos :: "bool \<Rightarrow> server_stream \<Rightarrow> (server_stream \<times> uint64 option) option" where
  "closeAtEos eos s =
     (if eos then (case CloseRecv s of None \<Rightarrow> None | Some s1 \<Rightarrow> Some (s1, None)) else Some (s, None))"

definition ssProcessMessage ::
    "bool \<Rightarrow> request_message \<Rightarrow> server_stream \<Rightarrow> (server_stream \<times> uint64 option) option" where
  "ssProcessMessage pickCtx msg s =
     (if recvClosed s then Some (s, None)
      else if rmHasMessage msg then
        (case rmPacket msg of
           None \<Rightarrow>
             closeWithError (Some (ErrText ''expected RequestMessage.PacketMessgae to not be nil but it was'')) False s
         | Some p \<Rightarrow>
             (case processMessage p s of
                (None, s1) \<Rightarrow> Some (s1, None)
              | (Some data, s1) \<Rightarrow>
                  if recvClosed s1 then Some (s1, None)
                  else (case deliver pickCtx data s1 of
                     (Parked, s2) \<Rightarrow> Some (s2\<lparr>ssPendingEos := rmEos msg\<rparr>, None)
                   | (_, s2) \<Rightarrow> closeAtEos (rmEos msg) s2)))
      else closeAtEos (rmEos msg) s)"

text \<open>The rest of the same call when its delivery had to wait.\<close>

definition ssResume :: "bool \<Rightarrow> server_stream \<Rightarrow> (server_stream \<times> uint64 option) option" where
  "ssResume pickCtx s =
     (if parked s = None then Some (s, None)
      else (case resumeSender pickCtx s of
         (Parked, s1) \<Rightarrow> Some (s1, None)
       | (_, s1) \<Rightarrow> closeAtEos (ssPendingEos s1) (s1\<lparr>ssPendingEos := False\<rparr>)))"

text \<open>
  \<^verbatim>\<open>onRequest\<close>.  A headers frame without headers is a nil pointer dereference; such a frame does not
  come out of the decoder, and the channel tests for it when it creates the stream.
\<close>

definition onRequest ::
    "err_env \<Rightarrow> response dc_env \<Rightarrow> bool \<Rightarrow> request \<Rightarrow> 'h webrtc_server \<Rightarrow> server_stream
      \<Rightarrow> 'c base_channel_scheme \<Rightarrow> ('h, 'c) request_result" where
  "onRequest E env pickCtx req srv s ch =
     (case reqType req of
        ReqHeaders h \<Rightarrow>
          if ssHeadersReceived s then
            closeLogged E env (ErrStatus InvalidArgument ''headers already received'') srv s ch
          else (case h of None \<Rightarrow> None | Some hs \<Rightarrow> processHeaders E env hs srv s ch)
      | ReqMessage msg \<Rightarrow>
          if \<not> ssHeadersReceived s then
            closeLogged E env (ErrStatus InvalidArgument ''headers not yet received'') srv s ch
          else (case ssProcessMessage pickCtx msg s of
                  None \<Rightarrow> None
                | Some (s1, d) \<Rightarrow> Some (srv, s1, ch, d, None))
      | ReqRstStream b \<Rightarrow> closeLogged E env (ErrStatus Canceled ''request cancelled'') srv s ch
      | ReqUnset \<Rightarrow> closeLogged E env (ErrStatus InvalidArgument ''unknown request type <nil>'') srv s ch)"

section \<open>What the operations keep\<close>

lemma ssWriteHeaders_stream:
  assumes "ssWriteHeaders env s ch = Some (e, s', ch')"
  shows "s' = s\<lparr>ssHeadersWritten := True\<rparr>"
  using assms by (auto simp: ssWriteHeaders_def split: if_splits option.splits)

lemma writeClose_stream:
  assumes "writeClose E env err s ch = Some (e, s', ch')"
  shows "s' = s \<or> s' = s\<lparr>ssHeadersWritten := True\<rparr>"
  using assms
  by (auto simp: writeClose_def Let_def split: if_splits option.splits dest: ssWriteHeaders_stream)

lemma sendBody_stream:
  assumes "sendBody env n mm m s ch = Some (e, s', ch')"
  shows "s' = s\<lparr>ssHeadersWritten := True\<rparr>"
  using assms
  by (auto simp: sendBody_def split: option.splits sum.splits prod.splits dest: ssWriteHeaders_stream)

lemma closeWithSendError_announces:
  assumes "closeWithSendError E env err s ch = Some (e, s', ch', d)"
  shows "announces s s' d"
proof (cases "ssSendClosed s")
  case True
  then show ?thesis
    using assms by (auto simp: closeWithSendError_def announces_def)
next
  case False
  obtain w s1 ch1 where w: "writeClose E env err (s\<lparr>ssSendClosed := True\<rparr>) ch = Some (w, s1, ch1)"
    and c: "baseClose s1 = Some (s', d)"
    using assms False by (auto simp: closeWithSendError_def split: option.splits prod.splits)
  have "bsId s1 = bsId s" "bsClosed s1 = bsClosed s"
    using writeClose_stream [OF w] by auto
  with baseClose_announces [OF c] show ?thesis
    by (rule announces_shift)
qed

lemma SendMsg_announces:
  assumes "SendMsg E env n mm m s ch = Some (e, s', ch', d)"
  shows "announces s s' d"
proof (cases "ssSendClosed s")
  case True
  then show ?thesis
    using assms by (auto simp: SendMsg_def announces_def)
next
  case False
  obtain e1 s1 ch1 where b: "sendBody env n mm m s ch = Some (e1, s1, ch1)"
    using assms False by (auto simp: SendMsg_def split: option.splits)
  have s1: "bsId s1 = bsId s" "bsClosed s1 = bsClosed s"
    using sendBody_stream [OF b] by auto
  show ?thesis
  proof (cases e1)
    case None
    then show ?thesis
      using assms False b s1 by (auto simp: SendMsg_def intro: announces_same)
  next
    case (Some x)
    then obtain e2 where "closeWithSendError E env (Some x) s1 ch1 = Some (e2, s', ch', d)"
      using assms False b by (auto simp: SendMsg_def split: option.splits)
    from closeWithSendError_announces [OF this] s1 show ?thesis
      by (rule announces_shift)
  qed
qed

lemma closeAtEos_announces: "closeAtEos eos s = Some (s', d) \<Longrightarrow> announces s s' d"
  by (auto simp: closeAtEos_def CloseRecv_def closeRecv_def announces_def split: if_splits option.splits)

text \<open>The paths through a message frame on a stream that still receives.\<close>

lemma ssProcessMessage_elim:
  assumes "ssProcessMessage pick msg s = Some (s', d)"
  obtains (closed) "recvClosed s" "s' = s" "d = None"
  | (nopacket) e where "\<not> recvClosed s" "closeWithError (Some e) False s = Some (s', d)"
  | (partial) p where "\<not> recvClosed s" "processMessage p s = (None, s')" "d = None" "rmPacket msg = Some p"
  | (parked) p data s1 s2 where "\<not> recvClosed s" "processMessage p s = (Some data, s1)" "rmPacket msg = Some p"
      "deliver pick data s1 = (Parked, s2)" "s' = s2\<lparr>ssPendingEos := rmEos msg\<rparr>" "d = None"
  | (delivered) p data s1 r s2 where "\<not> recvClosed s" "processMessage p s = (Some data, s1)" "rmPacket msg = Some p"
      "deliver pick data s1 = (r, s2)" "r \<noteq> Parked" "closeAtEos (rmEos msg) s2 = Some (s', d)"
  | (eos) "\<not> recvClosed s" "\<not> rmHasMessage msg" "closeAtEos (rmEos msg) s = Some (s', d)"
proof (cases "\<not> recvClosed s \<and> rmHasMessage msg")
  case False
  show ?thesis
  proof (cases "recvClosed s")
    case True
    with assms show ?thesis
      by (intro closed) (simp_all add: ssProcessMessage_def)
  next
    case rc: False
    with assms False show ?thesis
      by (intro eos) (simp_all add: ssProcessMessage_def)
  qed
next
  case True
  show ?thesis
  proof (cases "rmPacket msg")
    case None
    then show ?thesis
      using assms True by (intro nopacket) (simp_all add: ssProcessMessage_def)
  next
    case p: (Some p)
    obtain r s1 where pm: "processMessage p s = (r, s1)"
      by (cases "processMessage p s")
    show ?thesis
    proof (cases r)
      case None
      then show ?thesis
        using assms True p pm by (intro partial [OF _ _ _ p]) (auto simp: ssProcessMessage_def)
    next
      case (Some data)
      have rc: "\<not> recvClosed s1"
        using processMessage_keeps(3) [OF pm] True by simp
      obtain q s2 where dl: "deliver pick data s1 = (q, s2)"
        by (cases "deliver pick data s1")
      have run: "ssProcessMessage pick msg s =
          (case q of Parked \<Rightarrow> Some (s2\<lparr>ssPendingEos := rmEos msg\<rparr>, None) | _ \<Rightarrow> closeAtEos (rmEos msg) s2)"
        using True p pm Some rc dl by (simp add: ssProcessMessage_def)
      show ?thesis
      proof (cases "q = Parked")
        case qp: True
        show ?thesis
          by (rule parked [OF _ pm [unfolded Some] p dl [unfolded qp]]) (use True assms run qp in auto)
      next
        case qp: False
        then have "closeAtEos (rmEos msg) s2 = Some (s', d)"
          using run assms by (cases q) auto
        with True show ?thesis
          by (intro delivered [OF _ pm [unfolded Some] p dl qp]) auto
      qed
    qed
  qed
qed

lemma ssProcessMessage_announces:
  assumes "ssProcessMessage pick msg s = Some (s', d)"
  shows "announces s s' d"
  using assms
proof (cases rule: ssProcessMessage_elim)
  case (nopacket e)
  then show ?thesis
    by (simp add: closeWithError_announces)
next
  case (delivered p data s1 r s2)
  then show ?thesis
    using closeAtEos_announces [OF delivered(6)] processMessage_keeps [OF delivered(2)] deliver_keeps [OF delivered(4)]
    by (auto intro: announces_shift)
next
  case (parked p data s1 s2)
  then show ?thesis
    using processMessage_keeps(1,2) [OF parked(2)] deliver_keeps(1,2) [OF parked(4)]
    by (simp add: announces_def)
next
  case eos
  then show ?thesis
    by (simp add: closeAtEos_announces)
qed (auto intro!: announces_same dest: processMessage_keeps)

lemma ssResume_announces:
  assumes "ssResume pick s = Some (s', d)"
  shows "announces s s' d"
proof (cases "parked s = None")
  case False
  obtain q s1 where r: "resumeSender pick s = (q, s1)"
    by (cases "resumeSender pick s")
  have k: "bsId s1 = bsId s" "bsClosed s1 = bsClosed s"
    using resumeSender_keeps [OF r] by simp_all
  show ?thesis
  proof (cases "q = Parked")
    case True
    then show ?thesis
      using assms False r k by (auto simp: ssResume_def intro: announces_same)
  next
    case q: False
    then have "closeAtEos (ssPendingEos s1) (s1\<lparr>ssPendingEos := False\<rparr>) = Some (s', d)"
      using assms False r by (cases q) (simp_all add: ssResume_def)
    from closeAtEos_announces [OF this] k show ?thesis
      by (auto intro: announces_shift)
  qed
qed (use assms in \<open>auto simp: ssResume_def intro: announces_same\<close>)

lemma closeLogged_announces:
  "closeLogged E env e srv s ch = Some (srv', s', ch', d, h) \<Longrightarrow> announces s s' d \<and> srv' = srv \<and> h = None"
  by (auto simp: closeLogged_def split: option.splits dest: closeWithSendError_announces)

lemma processHeaders_announces:
  assumes "processHeaders E env hs srv s ch = Some (srv', s', ch', d, h)"
  shows "announces s s' d"
  using assms
  by (auto simp: processHeaders_def split: prod.splits admission.splits dest: closeLogged_announces
      intro: announces_same)

lemma onRequest_announces:
  assumes "onRequest E env pick req srv s ch = Some (srv', s', ch', d, h)"
  shows "announces s s' d"
  using assms
  by (auto simp: onRequest_def split: request_type.splits if_splits option.splits
      dest: closeLogged_announces processHeaders_announces ssProcessMessage_announces)

end
