(* ===== verification/ServerFrames.thy ===== *)
theory ServerFrames
  imports ServerStream
begin

text \<open>
  The order of the frames a server stream writes.  Whatever its handler and its dispatcher do to the
  sending side, the frames that reach the wire are at most one headers frame, then messages, then
  at most one trailers frame.
\<close>

section \<open>Frames on the wire\<close>

definition wrote :: "'m dc_env \<Rightarrow> 'm list \<Rightarrow> 'c base_channel_scheme \<Rightarrow> 'c base_channel_scheme \<Rightarrow> bool" where
  "wrote env fs ch ch' \<longleftrightarrow>
     (\<exists>ds. list_all2 (\<lambda>f d. marshal env f = Inr d) fs ds \<and> bcWire ch' = bcWire ch @ ds)"

lemma wrote_refl [simp]: "wrote env [] ch ch"
  by (simp add: wrote_def)

lemma wrote_trans:
  assumes "wrote env fs ch ch1" "wrote env gs ch1 ch2"
  shows "wrote env (fs @ gs) ch ch2"
  using assms by (fastforce simp: wrote_def intro: list_all2_appendI)

lemma bcWrite_wrote:
  assumes "bcWrite env f ch = Some (e, ch')"
  shows "if e = None then wrote env [f] ch ch' else wrote env [] ch ch'"
  using assms by (elim bcWrite_elim) (auto simp: wrote_def)

text \<open>Writing a list of packets puts a prefix of them on the wire, all of them without an error.\<close>

lemma writeAll_wrote:
  assumes "writeAll (\<lambda>p c. bcWrite env (fr p) c) ps ch = Some (e, ch')"
  shows "\<exists>qs. prefix qs ps \<and> wrote env (map fr qs) ch ch' \<and> (e = None \<longrightarrow> qs = ps)"
  using assms
proof (induction ps arbitrary: ch)
  case (Cons p ps)
  obtain e1 ch1 where w: "bcWrite env (fr p) ch = Some (e1, ch1)"
    using Cons.prems by (auto simp: bind_eq_Some_conv)
  show ?case
  proof (cases e1)
    case None
    then have "writeAll (\<lambda>p c. bcWrite env (fr p) c) ps ch1 = Some (e, ch')"
      using Cons.prems w by simp
    then obtain qs where qs: "prefix qs ps" "wrote env (map fr qs) ch1 ch'" "e = None \<longrightarrow> qs = ps"
      using Cons.IH by blast
    have "wrote env (map fr (p # qs)) ch ch'"
      using wrote_trans [of env "[fr p]" ch ch1 "map fr qs" ch'] bcWrite_wrote [OF w] None qs(2) by simp
    then show ?thesis
      using qs by (intro exI [of _ "p # qs"]) simp
  next
    case (Some x)
    then have "ch' = ch1" "e = Some x"
      using Cons.prems w by auto
    then show ?thesis
      using bcWrite_wrote [OF w] Some by (intro exI [of _ "[]"]) simp
  qed
qed simp

section \<open>The order of frames\<close>

text \<open>
  A two-flag automaton: headers only before anything was written, messages and trailers only before
  the trailers.
\<close>

fun okFrames :: "bool \<Rightarrow> bool \<Rightarrow> response list \<Rightarrow> bool" where
  "okFrames hw sc [] \<longleftrightarrow> True"
| "okFrames hw sc (f # fs) \<longleftrightarrow>
     (case respType f of
        RespHeaders _ \<Rightarrow> \<not> hw \<and> okFrames True sc fs
      | RespMessage _ \<Rightarrow> \<not> sc \<and> okFrames True sc fs
      | RespTrailers _ \<Rightarrow> \<not> sc \<and> okFrames True True fs
      | RespUnset \<Rightarrow> False)"

fun afterFrames :: "bool \<Rightarrow> bool \<Rightarrow> response list \<Rightarrow> bool \<times> bool" where
  "afterFrames hw sc [] = (hw, sc)"
| "afterFrames hw sc (f # fs) =
     (case respType f of
        RespTrailers _ \<Rightarrow> afterFrames True True fs
      | _ \<Rightarrow> afterFrames True sc fs)"

lemma okFrames_anti:
  assumes "okFrames hw sc fs" "hw' \<longrightarrow> hw" "sc' \<longrightarrow> sc"
  shows "okFrames hw' sc' fs"
  using assms
proof (induction fs arbitrary: hw sc hw' sc')
  case (Cons f fs)
  show ?case
    using Cons.prems Cons.IH [of True sc True sc'] Cons.IH [of True True True True]
    by (cases "respType f") auto
qed simp

lemma okFrames_append:
  assumes "okFrames hw sc fs" "afterFrames hw sc fs = (a, b)" "a \<longrightarrow> hw'" "b \<longrightarrow> sc'" "okFrames hw' sc' gs"
  shows "okFrames hw sc (fs @ gs)"
  using assms
proof (induction fs arbitrary: hw sc)
  case Nil
  then show ?case
    using okFrames_anti [of hw' sc' gs hw sc] by simp
next
  case (Cons f fs)
  show ?case
    using Cons.prems Cons.IH [of True sc] Cons.IH [of True True] by (cases "respType f") auto
qed

text \<open>More restrictive flags stay more restrictive.\<close>

lemma afterFrames_mono:
  assumes "afterFrames x y fs = (u, v)" "x' \<longrightarrow> x" "y' \<longrightarrow> y" "afterFrames x' y' fs = (u', v')"
  shows "(u' \<longrightarrow> u) \<and> (v' \<longrightarrow> v)"
  using assms
proof (induction fs arbitrary: x y x' y')
  case (Cons f fs)
  show ?case
    using Cons.prems Cons.IH [of True y True y'] Cons.IH [of True True True True]
    by (cases "respType f") auto
qed simp

lemma afterFrames_append:
  "afterFrames hw sc (fs @ gs) = (case afterFrames hw sc fs of (a, b) \<Rightarrow> afterFrames a b gs)"
proof (induction fs arbitrary: hw sc)
  case (Cons f fs)
  then show ?case
    by (cases "respType f") simp_all
qed simp

lemma okFrames_messages:
  "\<not> sc \<Longrightarrow> okFrames hw sc (map (messageFrame i) ps)"
  by (induction ps arbitrary: hw) (simp_all add: messageFrame_def)

lemma afterFrames_messages: "afterFrames True sc (map (messageFrame i) ps) = (True, sc)"
  by (induction ps) (simp_all add: messageFrame_def)

text \<open>What an operation may do to the sending side of a stream.\<close>

definition sends ::
    "response dc_env \<Rightarrow> server_stream \<Rightarrow> 'c base_channel_scheme \<Rightarrow> server_stream \<Rightarrow> 'c base_channel_scheme \<Rightarrow> bool" where
  "sends env s ch s' ch' \<longleftrightarrow>
     bsId s' = bsId s \<and>
     (\<exists>fs a b. wrote env fs ch ch' \<and> okFrames (ssHeadersWritten s) (ssSendClosed s) fs \<and>
        afterFrames (ssHeadersWritten s) (ssSendClosed s) fs = (a, b) \<and>
        (a \<longrightarrow> ssHeadersWritten s') \<and> (b \<longrightarrow> ssSendClosed s') \<and>
        (\<forall>f \<in> set fs. respStream f = Some (bsId s)))"

lemma sendsI:
  assumes "wrote env fs ch ch'" "okFrames (ssHeadersWritten s) (ssSendClosed s) fs"
    "afterFrames (ssHeadersWritten s) (ssSendClosed s) fs = (a, b)"
    "a \<longrightarrow> ssHeadersWritten s'" "b \<longrightarrow> ssSendClosed s'"
    "\<forall>f \<in> set fs. respStream f = Some (bsId s)" "bsId s' = bsId s"
  shows "sends env s ch s' ch'"
  using assms unfolding sends_def by blast

lemma sendsE:
  assumes "sends env s ch s' ch'"
  obtains fs a b where "wrote env fs ch ch'" "okFrames (ssHeadersWritten s) (ssSendClosed s) fs"
    "afterFrames (ssHeadersWritten s) (ssSendClosed s) fs = (a, b)"
    "a \<longrightarrow> ssHeadersWritten s'" "b \<longrightarrow> ssSendClosed s'"
    "\<forall>f \<in> set fs. respStream f = Some (bsId s)" "bsId s' = bsId s"
  using assms unfolding sends_def by blast

lemma sends_trans:
  assumes "sends env s ch s1 ch1" "sends env s1 ch1 s2 ch2"
  shows "sends env s ch s2 ch2"
proof -
  from assms(1) obtain fs a b where fs: "wrote env fs ch ch1"
    "okFrames (ssHeadersWritten s) (ssSendClosed s) fs"
    "afterFrames (ssHeadersWritten s) (ssSendClosed s) fs = (a, b)"
    "a \<longrightarrow> ssHeadersWritten s1" "b \<longrightarrow> ssSendClosed s1"
    "\<forall>f \<in> set fs. respStream f = Some (bsId s)" "bsId s1 = bsId s"
    by (rule sendsE)
  from assms(2) obtain gs a' b' where gs: "wrote env gs ch1 ch2"
    "okFrames (ssHeadersWritten s1) (ssSendClosed s1) gs"
    "afterFrames (ssHeadersWritten s1) (ssSendClosed s1) gs = (a', b')"
    "a' \<longrightarrow> ssHeadersWritten s2" "b' \<longrightarrow> ssSendClosed s2"
    "\<forall>f \<in> set gs. respStream f = Some (bsId s1)" "bsId s2 = bsId s1"
    by (rule sendsE)
  obtain u v where uv: "afterFrames a b gs = (u, v)"
    by (cases "afterFrames a b gs")
  have *: "(u \<longrightarrow> a') \<and> (v \<longrightarrow> b')"
    by (rule afterFrames_mono [OF gs(3) fs(4,5) uv])
  show ?thesis
  proof (rule sendsI)
    show "wrote env (fs @ gs) ch ch2"
      by (rule wrote_trans [OF fs(1) gs(1)])
    show "okFrames (ssHeadersWritten s) (ssSendClosed s) (fs @ gs)"
      by (rule okFrames_append [OF fs(2,3,4,5) gs(2)])
    show "afterFrames (ssHeadersWritten s) (ssSendClosed s) (fs @ gs) = (u, v)"
      by (simp add: afterFrames_append fs(3) uv)
    show "u \<longrightarrow> ssHeadersWritten s2" "v \<longrightarrow> ssSendClosed s2"
      using * gs(4,5) by blast+
    show "\<forall>f \<in> set (fs @ gs). respStream f = Some (bsId s)" "bsId s2 = bsId s"
      using fs(6,7) gs(6,7) by auto
  qed
qed

lemma sends_silent:
  assumes "bsId s' = bsId s" "ssHeadersWritten s \<longrightarrow> ssHeadersWritten s'" "ssSendClosed s \<longrightarrow> ssSendClosed s'"
    "wrote env [] ch ch'"
  shows "sends env s ch s' ch'"
  by (rule sendsI [OF assms(4) _ _ assms(2,3)]) (simp_all add: assms(1))

section \<open>The operations\<close>

lemma ssWriteHeaders_sends:
  assumes "ssWriteHeaders env s ch = Some (e, s', ch')"
  shows "sends env s ch s' ch'"
proof (cases "ssHeadersWritten s")
  case True
  then show ?thesis
    using assms by (auto simp: ssWriteHeaders_def intro: sends_silent)
next
  case False
  then obtain w: "bcWrite env (headersFrame s) ch = Some (e, ch')" and s': "s' = s\<lparr>ssHeadersWritten := True\<rparr>"
    using assms by (auto simp: ssWriteHeaders_def split: option.splits)
  show ?thesis
  proof (cases e)
    case None
    then have "wrote env [headersFrame s] ch ch'"
      using bcWrite_wrote [OF w] by simp
    then show ?thesis
      using False s' by (intro sendsI) (auto simp: headersFrame_def)
  next
    case (Some x)
    then show ?thesis
      using bcWrite_wrote [OF w] s' by (intro sends_silent) simp_all
  qed
qed

lemma trailers_sends:
  assumes "bcWrite env (trailersFrame st s1) ch = Some (e, ch')" "bsId s1 = bsId s" "\<not> ssSendClosed s"
    "ssHeadersWritten s' \<and> ssSendClosed s'" "bsId s' = bsId s"
  shows "sends env s ch s' ch'"
proof (cases e)
  case None
  then have "wrote env [trailersFrame st s1] ch ch'"
    using bcWrite_wrote [OF assms(1)] by simp
  then show ?thesis
    using assms by (intro sendsI) (auto simp: trailersFrame_def)
next
  case (Some x)
  then show ?thesis
    using bcWrite_wrote [OF assms(1)] assms by (intro sends_silent) simp_all
qed

lemma baseClose_flags:
  assumes "baseClose s = Some (s', d)"
  shows "ssHeadersWritten s' = ssHeadersWritten s" "ssSendClosed s' = ssSendClosed s" "bsId s' = bsId s"
  using assms
  by (auto simp: baseClose_def closeWithError_def closeRecv_def Let_def split: if_splits)

lemma ssWriteHeaders_sendClosed:
  "ssWriteHeaders env (s\<lparr>ssSendClosed := b\<rparr>) ch =
     map_option (\<lambda>(e, s', c). (e, s'\<lparr>ssSendClosed := b\<rparr>, c)) (ssWriteHeaders env s ch)"
  by (auto simp: ssWriteHeaders_def headersFrame_def split: option.splits)

lemma writeClose_sends:
  assumes "writeClose E env err (s\<lparr>ssSendClosed := True\<rparr>) ch = Some (e, s', ch')" "\<not> ssSendClosed s"
  shows "sends env s ch s' ch' \<and> ssSendClosed s'"
proof (cases "errIs err ErrClosedPipe \<or> bsClosed s \<or> bcClosed ch")
  case True
  then have "s' = s\<lparr>ssSendClosed := True\<rparr>" "ch' = ch"
    using assms by (auto simp: writeClose_def split: if_splits)
  then show ?thesis
    by (auto intro: sends_silent)
next
  case False
  obtain e1 s1 ch1 where h: "ssWriteHeaders env s ch = Some (e1, s1, ch1)"
    using assms False by (auto simp: writeClose_def ssWriteHeaders_sendClosed split: option.splits)
  note s1 = ssWriteHeaders_stream [OF h]
  show ?thesis
  proof (cases e1)
    case (Some x)
    then have "s' = s1\<lparr>ssSendClosed := True\<rparr>" "ch' = ch1"
      using assms False h by (auto simp: writeClose_def ssWriteHeaders_sendClosed)
    then show ?thesis
      using sends_trans [OF ssWriteHeaders_sends [OF h] sends_silent, of s' ch'] by simp
  next
    case None
    then obtain st where "bcWrite env (trailersFrame st (s1\<lparr>ssSendClosed := True\<rparr>)) ch1 = Some (e, ch')"
      and s': "s' = s1\<lparr>ssSendClosed := True\<rparr>"
      using assms False h
      by (auto simp: writeClose_def ssWriteHeaders_sendClosed Let_def split: option.splits if_splits)
    then have "sends env s1 ch1 s' ch'"
      using assms(2) s1 by (auto intro: trailers_sends)
    then show ?thesis
      using sends_trans [OF ssWriteHeaders_sends [OF h]] s' by simp
  qed
qed

lemma closeWithSendError_sends:
  assumes "closeWithSendError E env err s ch = Some (e, s', ch', d)"
  shows "sends env s ch s' ch' \<and> ssSendClosed s'"
proof (cases "ssSendClosed s")
  case True
  then show ?thesis
    using assms by (auto simp: closeWithSendError_def intro: sends_silent)
next
  case False
  obtain w s1 where w: "writeClose E env err (s\<lparr>ssSendClosed := True\<rparr>) ch = Some (w, s1, ch')"
    and c: "baseClose s1 = Some (s', d)"
    using assms False by (auto simp: closeWithSendError_def split: option.splits prod.splits)
  have "sends env s1 ch' s' ch'"
    using baseClose_flags [OF c] by (auto intro: sends_silent)
  then show ?thesis
    using writeClose_sends [OF w False] sends_trans baseClose_flags(2) [OF c] by blast
qed

lemma packets_sends:
  assumes "0 < n" "sendPackets n (\<lambda>p c. bcWrite env (messageFrame (bsId s) p) c) data ch = Some (e, ch')"
    "\<not> ssSendClosed s" "ssHeadersWritten s"
  shows "sends env s ch s ch'"
proof -
  obtain qs where qs: "wrote env (map (messageFrame (bsId s)) qs) ch ch'"
    using writeAll_wrote assms(2) unfolding sendPackets_writeAll [OF assms(1)] by blast
  show ?thesis
    by (rule sendsI [OF qs okFrames_messages]) (auto simp: assms afterFrames_messages messageFrame_def)
qed

lemma sendBody_sends:
  assumes "0 < n" "sendBody env n mm m s ch = Some (e, s', ch')" "\<not> ssSendClosed s"
  shows "sends env s ch s' ch'"
proof -
  obtain e1 ch1 where h: "ssWriteHeaders env s ch = Some (e1, s', ch1)"
    using assms(2) by (auto simp: sendBody_def split: option.splits sum.splits)
  have hs: "sends env s ch s' ch1"
    by (rule ssWriteHeaders_sends [OF h])
  show ?thesis
  proof (cases "e1 \<noteq> None \<or> (\<exists>x. mm m = Inl x)")
    case True
    then have "ch' = ch1"
      using assms(2) h by (auto simp: sendBody_def split: option.splits)
    then show ?thesis
      using hs by simp
  next
    case False
    then obtain data where d: "mm m = Inr data" "e1 = None"
      by (cases "mm m") auto
    have "sendPackets n (\<lambda>p c. bcWrite env (messageFrame (bsId s') p) c) data ch1 = Some (e, ch')"
      using assms(2) h d by (auto simp: sendBody_def split: option.splits)
    then have "sends env s' ch1 s' ch'"
      using assms(1,3) ssWriteHeaders_stream [OF h] by (intro packets_sends) auto
    with hs show ?thesis
      by (rule sends_trans)
  qed
qed

lemma SendMsg_sends:
  assumes "0 < n" "SendMsg E env n mm m s ch = Some (e, s', ch', d)"
  shows "sends env s ch s' ch'"
proof (cases "ssSendClosed s")
  case True
  then show ?thesis
    using assms by (auto simp: SendMsg_def intro: sends_silent)
next
  case False
  obtain e1 s1 ch1 where b: "sendBody env n mm m s ch = Some (e1, s1, ch1)"
    using assms(2) False by (auto simp: SendMsg_def split: option.splits)
  note bs = sendBody_sends [OF assms(1) b False]
  show ?thesis
  proof (cases e1)
    case None
    then show ?thesis
      using assms(2) False b bs by (auto simp: SendMsg_def)
  next
    case (Some x)
    then obtain e2 where "closeWithSendError E env (Some x) s1 ch1 = Some (e2, s', ch', d)"
      using assms(2) False b by (auto simp: SendMsg_def split: option.splits)
    then show ?thesis
      using sends_trans [OF bs] closeWithSendError_sends by blast
  qed
qed

section \<open>Runs\<close>

datatype 'm server_op =
    OpSetHeader "md option" | OpSendHeader "md option" | OpSetTrailer "md option"
  | OpSendMsg 'm | OpCloseSend "err option"

fun serverOp ::
    "err_env \<Rightarrow> response dc_env \<Rightarrow> (md \<Rightarrow> md \<Rightarrow> md) \<Rightarrow> nat \<Rightarrow> ('m \<Rightarrow> err + bytes) \<Rightarrow> 'm server_op
      \<Rightarrow> server_stream \<times> 'c base_channel_scheme \<Rightarrow> (server_stream \<times> 'c base_channel_scheme) option" where
  "serverOp E env j n mm (OpSetHeader h) (s, ch) = Some (snd (SetHeader j h s), ch)"
| "serverOp E env j n mm (OpSetTrailer t) (s, ch) = Some (SetTrailer j t s, ch)"
| "serverOp E env j n mm (OpSendHeader h) (s, ch) =
     map_option (\<lambda>(e, s', ch'). (s', ch')) (SendHeader j env h s ch)"
| "serverOp E env j n mm (OpSendMsg m) (s, ch) =
     map_option (\<lambda>(e, s', ch', d). (s', ch')) (SendMsg E env n mm m s ch)"
| "serverOp E env j n mm (OpCloseSend e) (s, ch) =
     map_option (\<lambda>(e, s', ch', d). (s', ch')) (closeWithSendError E env e s ch)"

fun runServer ::
    "err_env \<Rightarrow> response dc_env \<Rightarrow> (md \<Rightarrow> md \<Rightarrow> md) \<Rightarrow> nat \<Rightarrow> ('m \<Rightarrow> err + bytes) \<Rightarrow> 'm server_op list
      \<Rightarrow> server_stream \<times> 'c base_channel_scheme \<Rightarrow> (server_stream \<times> 'c base_channel_scheme) option" where
  "runServer E env j n mm [] x = Some x"
| "runServer E env j n mm (op # ops) x = Option.bind (serverOp E env j n mm op x) (runServer E env j n mm ops)"

lemma serverOp_sends:
  assumes "0 < n" "serverOp E env j n mm op (s, ch) = Some (s', ch')"
  shows "sends env s ch s' ch'"
proof (cases op)
  case (OpSendHeader h)
  obtain e s1 where s1: "SetHeader j h s = (e, s1)"
    by (cases "SetHeader j h s")
  have k: "sends env s ch s1 ch"
    using s1 by (intro sends_silent) (auto simp: SetHeader_def split: if_splits)
  show ?thesis
  proof (cases e)
    case None
    then obtain e1 where "ssWriteHeaders env s1 ch = Some (e1, s', ch')"
      using assms(2) OpSendHeader s1 by (auto simp: SendHeader_def)
    then show ?thesis
      using sends_trans [OF k] ssWriteHeaders_sends by blast
  next
    case (Some x)
    then show ?thesis
      using assms(2) OpSendHeader s1 k by (simp add: SendHeader_def)
  qed
next
  case (OpSendMsg m)
  then show ?thesis
    using assms by (auto intro: SendMsg_sends [OF assms(1)])
next
  case (OpCloseSend e)
  then show ?thesis
    using assms(2) closeWithSendError_sends [of E env e s ch] by auto
qed (use assms(2) in \<open>auto simp: SetHeader_def SetTrailer_def intro!: sends_silent split: if_splits\<close>)

lemma runServer_sends:
  assumes "0 < n" "runServer E env j n mm ops (s, ch) = Some (s', ch')"
  shows "sends env s ch s' ch'"
  using assms(2)
proof (induction ops arbitrary: s ch)
  case (Cons op ops)
  then obtain s1 ch1 where "serverOp E env j n mm op (s, ch) = Some (s1, ch1)"
    "runServer E env j n mm ops (s1, ch1) = Some (s', ch')"
    by (auto simp: bind_eq_Some_conv)
  then show ?case
    using Cons.IH serverOp_sends [OF assms(1)] sends_trans by blast
qed (auto intro: sends_silent)

section \<open>Successful sending\<close>

lemma writeAll_good:
  assumes "goodEnv env" "chCtxErr ch = None"
  shows "writeAll (\<lambda>p c. bcWrite env (fr p) c) ps ch = Some (None, wireAfter env (map fr ps) ch)"
  using assms(2)
  by (induction ps arbitrary: ch) (simp_all add: bcWrite_good [OF assms(1)] wireAfter_append)

lemma ssWriteHeaders_good:
  assumes "goodEnv env" "chCtxErr ch = None"
  shows "ssWriteHeaders env s ch =
    Some (None, s\<lparr>ssHeadersWritten := True\<rparr>, wireAfter env (if ssHeadersWritten s then [] else [headersFrame s]) ch)"
  by (simp add: ssWriteHeaders_def bcWrite_good [OF assms])

lemma SendMsg_good:
  assumes "goodEnv env" "chCtxErr ch = None" "0 < n" "\<not> ssSendClosed s" "mm m = Inr data"
  shows "SendMsg E env n mm m s ch =
    Some (None, s\<lparr>ssHeadersWritten := True\<rparr>,
      wireAfter env ((if ssHeadersWritten s then [] else [headersFrame s])
        @ map (messageFrame (bsId s)) (packetsOf n data)) ch, None)"
  using assms
  by (simp add: SendMsg_def sendBody_def ssWriteHeaders_good sendPackets_writeAll writeAll_good wireAfter_append)

lemma closeWithSendError_good:
  assumes "goodEnv env" "chCtxErr ch = None" "\<not> bcClosed ch" "\<not> ssSendClosed s" "\<not> bsClosed s"
    "base_inv s" "parked s = None" "\<not> errIs err ErrClosedPipe"
  shows "\<exists>s'. closeWithSendError E env err s ch =
      Some (None, s',
        wireAfter env ((if ssHeadersWritten s then [] else [headersFrame s])
          @ [trailersFrame (ErrorToStatus E (if err = None then ctxErr s else err)) s]) ch, Some (bsId s))
      \<and> bsClosed s' \<and> recvClosed s' \<and> msgCh s' = msgCh s \<and> bsId s' = bsId s \<and> ssSendClosed s'"
proof -
  let ?s = "s\<lparr>ssSendClosed := True, ssHeadersWritten := True\<rparr>"
  have inv: "base_inv ?s" "\<not> bsClosed ?s" "parked ?s = None"
    using assms(5-7) by (simp_all add: base_inv_def)
  obtain s' d where c: "baseClose ?s = Some (s', d)"
    using closeWithError_returns [OF inv(1,3)] unfolding baseClose_def by blast
  note k = closeWithError_open [OF inv(1,2) c [unfolded baseClose_def]]
  have t: "trailersFrame st ?s = trailersFrame st s" for st
    by (simp add: trailersFrame_def)
  have h: "headersFrame (s\<lparr>ssSendClosed := True\<rparr>) = headersFrame s"
    by (simp add: headersFrame_def)
  have w: "writeClose E env err (s\<lparr>ssSendClosed := True\<rparr>) ch =
      Some (None, ?s, wireAfter env ((if ssHeadersWritten s then [] else [headersFrame s])
        @ [trailersFrame (ErrorToStatus E (if err = None then ctxErr s else err)) s]) ch)"
    using assms
    by (simp add: writeClose_def ssWriteHeaders_good bcWrite_good wireAfter_append t h Let_def)
  show ?thesis
    using assms(4) w c k baseClose_flags [OF c] by (simp add: closeWithSendError_def)
qed

section \<open>Properties\<close>

lemma okFrames_shape:
  assumes "okFrames hw sc fs"
  shows "\<exists>h ms t. fs = h @ ms @ t \<and> length h \<le> 1 \<and> length t \<le> 1 \<and>
     (\<forall>f \<in> set h. \<exists>x. respType f = RespHeaders x) \<and> (\<forall>f \<in> set ms. \<exists>x. respType f = RespMessage x) \<and>
     (\<forall>f \<in> set t. \<exists>x. respType f = RespTrailers x) \<and> (hw \<longrightarrow> h = [])"
  using assms
proof (induction fs arbitrary: hw sc)
  case (Cons f fs)
  show ?case
  proof (cases "respType f")
    case (RespHeaders x)
    then obtain ms t where "fs = ms @ t" "length t \<le> 1" "\<forall>f \<in> set ms. \<exists>x. respType f = RespMessage x"
      "\<forall>f \<in> set t. \<exists>x. respType f = RespTrailers x" "\<not> hw"
      using Cons.prems Cons.IH [of True sc] by auto
    then show ?thesis
      using RespHeaders by (intro exI [of _ "[f]"] exI [of _ ms] exI [of _ t]) auto
  next
    case (RespMessage x)
    then obtain ms t where "fs = ms @ t" "length t \<le> 1" "\<forall>f \<in> set ms. \<exists>x. respType f = RespMessage x"
      "\<forall>f \<in> set t. \<exists>x. respType f = RespTrailers x"
      using Cons.prems Cons.IH [of True sc] by auto
    then show ?thesis
      using RespMessage by (intro exI [of _ "[]"] exI [of _ "f # ms"] exI [of _ t]) auto
  next
    case (RespTrailers x)
    then have "okFrames True True fs"
      using Cons.prems by simp
    then have "fs = []"
      by (cases fs) (auto split: response_type.splits)
    then show ?thesis
      using RespTrailers by (intro exI [of _ "[]"] exI [of _ "[]"] exI [of _ "[f]"]) auto
  qed (use Cons.prems in simp)
qed simp


text \<open>A data channel for the witnesses, with a marshaller that keeps only the kind of a frame.\<close>

definition frameKind :: "response \<Rightarrow> bytes" where
  "frameKind f = (case respType f of RespHeaders _ \<Rightarrow> [1] | RespMessage _ \<Rightarrow> [2] | RespTrailers _ \<Rightarrow> [3] | RespUnset \<Rightarrow> [0])"

definition kindEnv :: "response dc_env" where
  "kindEnv = \<lparr> marshal = Inr \<circ> frameKind, readings = (\<lambda>_. [(False, 10)]), sendRes = (\<lambda>_ _. None),
     gracefulClose = None, errorText = (\<lambda>_. []), statsID = [] \<rparr>"

lemma kindEnv_good: "goodEnv kindEnv"
  by (simp add: goodEnv_def kindEnv_def bufferThreshold_def)

abbreviation freshServerStream :: server_stream where
  "freshServerStream \<equiv> newWebRTCServerStream None ''/s/m'' 1"

lemma freshServerStream_simps [simp]:
  "ctxErr freshServerStream = None" "bsId freshServerStream = 1" "ssHeadersWritten freshServerStream = False"
  "ssSendClosed freshServerStream = False" "bsClosed freshServerStream = False"
  "parked freshServerStream = None" "msgCh freshServerStream = []" "base_inv freshServerStream"
  by (simp_all add: newWebRTCServerStream_def newWebRTCBaseStream_def base_stream.defs base_inv_def)


end
