(* ===== verification/WebrtcServer.thy ===== *)
theory WebrtcServer
  imports ServerFrames
begin

text \<open>
  The server of gRPC over WebRTC: \<^verbatim>\<open>src/rpc/wrtc_server.go\<close> (services, handlers, peers, stopping)
  and the admission of calls under its tickets.
\<close>

section \<open>Services\<close>

record 'h service_desc =
  sdName :: string
  sdMethods :: "(string \<times> 'h) list"
  sdStreams :: "(string \<times> bool \<times> bool \<times> 'h) list"
  sdMetadata :: string

definition methodPath :: "string \<Rightarrow> string \<Rightarrow> string" where
  "methodPath service name = ''/'' @ service @ ''/'' @ name"

text \<open>
  Registration fills the two maps of the service and binds a path per method; the source writes the
  maps of the service twice with the same entries.
\<close>

definition RegisterService :: "'h service_desc \<Rightarrow> 'h webrtc_server \<Rightarrow> 'h webrtc_server" where
  "RegisterService sd srv =
     (let methods = fold (\<lambda>(n, h) m. mput n h m) (sdMethods sd @ sdMethods sd) [];
          streams = fold (\<lambda>(n, d) m. mput n d m) (sdStreams sd @ sdStreams sd) [];
          hs1 = fold (\<lambda>(n, h) m. mput (methodPath (sdName sd) n) (UnaryHandler h) m) (sdMethods sd) (srvHandlers srv);
          hs2 = fold (\<lambda>(n, c, s, h) m. mput (methodPath (sdName sd) n)
                  (StreamHandler (methodPath (sdName sd) n) h) m) (sdStreams sd) hs1
      in srv\<lparr>srvHandlers := hs2,
             srvServices := mput (sdName sd) \<lparr> siMethods = methods, siStreams = streams, siMetadata = sdMetadata sd \<rparr>
               (srvServices srv)\<rparr>)"

text \<open>The description of the services: per method its name and the two streaming flags.\<close>

definition GetServiceInfo :: "'h webrtc_server \<Rightarrow> (string, (string \<times> bool \<times> bool) list \<times> string) gomap" where
  "GetServiceInfo srv =
     fold (\<lambda>(name, info) result.
        mput name (map (\<lambda>(m, _). (m, False, False)) (siMethods info)
                   @ map (\<lambda>(m, c, s, _). (m, c, s)) (siStreams info), siMetadata info) result)
       (srvServices srv) []"

definition handlerOf :: "'h webrtc_server \<Rightarrow> string \<Rightarrow> 'h handler option" where
  "handlerOf srv path = mget (srvHandlers srv) path"

section \<open>Peers and stopping\<close>

definition addPeer :: "nat \<Rightarrow> 'h webrtc_server \<Rightarrow> 'h webrtc_server" where
  "addPeer pc srv = srv\<lparr>srvPeerConns := mput pc () (srvPeerConns srv)\<rparr>"

definition removePeer :: "nat \<Rightarrow> 'h webrtc_server \<Rightarrow> 'h webrtc_server" where
  "removePeer pc srv = srv\<lparr>srvPeerConns := mdel pc (srvPeerConns srv)\<rparr>"

text \<open>
  \<^verbatim>\<open>Stop\<close> cancels, waits for the workers and closes the remaining peer connections; the result is
  the list of those.  \<^const>\<open>None\<close> while there are workers.
\<close>

definition cancelServer :: "'h webrtc_server \<Rightarrow> 'h webrtc_server" where
  "cancelServer srv = srv\<lparr>srvCtxErr := cancelCtx (srvCtxErr srv)\<rparr>"

definition Stop :: "'h webrtc_server \<Rightarrow> ('h webrtc_server \<times> nat list) option" where
  "Stop srv =
     (let srv1 = cancelServer srv in
      if 0 < srvWorkers srv1 then None else Some (srv1, map fst (srvPeerConns srv1)))"

section \<open>Handlers\<close>

text \<open>
  A unary handler: user code \<open>h\<close> maps what \<^verbatim>\<open>RecvMsg\<close> gave it to a response or an error.
\<close>

definition unaryHandler ::
    "err_env \<Rightarrow> response dc_env \<Rightarrow> nat \<Rightarrow> (bytes \<Rightarrow> err + 'q) \<Rightarrow> ('r \<Rightarrow> err + bytes) \<Rightarrow> ('q recv_result \<Rightarrow> err + 'r)
      \<Rightarrow> bool \<Rightarrow> server_stream \<Rightarrow> 'c base_channel_scheme
      \<Rightarrow> (err option \<times> server_stream \<times> 'c base_channel_scheme \<times> uint64 option) option" where
  "unaryHandler E env n unmarshal marshalMsg h pickCtx s ch =
     (case RecvMsg unmarshal pickCtx s of
        None \<Rightarrow> None
      | Some (r, s1) \<Rightarrow>
          (case h r of
             Inl e \<Rightarrow> closeWithSendError E env (Some e) s1 ch
           | Inr response \<Rightarrow>
               (case SendMsg E env n marshalMsg response s1 ch of
                  None \<Rightarrow> None
                | Some (Some e, s2, ch2, d) \<Rightarrow> Some (Some e, s2, ch2, d)
                | Some (None, s2, ch2, d) \<Rightarrow>
                    (case closeWithSendError E env None s2 ch2 of
                       None \<Rightarrow> None
                     | Some (e3, s3, ch3, d3) \<Rightarrow> Some (e3, s3, ch3, if d = None then d3 else d)))))"

text \<open>
  A streaming handler: user code is any transformation of the stream and its channel.  An end-of-file
  error from it ends the handler without closing the stream.
\<close>

definition streamHandler ::
    "err_env \<Rightarrow> response dc_env
      \<Rightarrow> (server_stream \<Rightarrow> 'c base_channel_scheme
           \<Rightarrow> (err option \<times> server_stream \<times> 'c base_channel_scheme \<times> uint64 option) option)
      \<Rightarrow> server_stream \<Rightarrow> 'c base_channel_scheme
      \<Rightarrow> (err option \<times> server_stream \<times> 'c base_channel_scheme \<times> uint64 option) option" where
  "streamHandler E env h s ch =
     (case h s ch of
        None \<Rightarrow> None
      | Some (e, s1, ch1, d) \<Rightarrow>
          if errIs e EOF then Some (None, s1, ch1, d)
          else (case closeWithSendError E env e s1 ch1 of
             None \<Rightarrow> None
           | Some (e2, s2, ch2, d2) \<Rightarrow> Some (e2, s2, ch2, if d = None then d2 else d)))"

section \<open>Admission\<close>

inductive server_step :: "'h webrtc_server \<Rightarrow> 'h webrtc_server \<Rightarrow> bool" where
  step_admit: "server_step srv (snd (admit method srv))"
| step_return: "h \<in> set (srvRunning srv) \<Longrightarrow> server_step srv (handlerReturns h srv)"
| step_register: "server_step srv (RegisterService sd srv)"
| step_cancel: "server_step srv (cancelServer srv)"
| step_add_peer: "server_step srv (addPeer pc srv)"
| step_remove_peer: "server_step srv (removePeer pc srv)"

definition server_inv :: "'h webrtc_server \<Rightarrow> bool" where
  "server_inv srv \<longleftrightarrow>
     srvTickets srv = length (srvRunning srv) \<and> srvTickets srv \<le> DefaultWebRTCMaxGRPCCalls \<and>
     length (srvRunning srv) \<le> srvWorkers srv"

lemma server_inv_new [simp]: "server_inv (newWebRTCServer u)"
  by (simp add: server_inv_def newWebRTCServer_def)

lemma admit_counts:
  assumes "admit method srv = (r, srv')"
  shows "case r of
      Started h \<Rightarrow> srvTickets srv < DefaultWebRTCMaxGRPCCalls \<and> srvCtxErr srv = None \<and>
        srvWorkers srv' = Suc (srvWorkers srv) \<and> srvTickets srv' = Suc (srvTickets srv) \<and>
        srvRunning srv' = h # srvRunning srv
    | NoTicket \<Rightarrow> \<not> srvTickets srv < DefaultWebRTCMaxGRPCCalls \<and> srvWorkers srv' = Suc (srvWorkers srv) \<and>
        srvTickets srv' = srvTickets srv \<and> srvRunning srv' = srvRunning srv
    | _ \<Rightarrow> srv' = srv"
  using assms by (auto simp: admit_def Let_def split: option.splits if_splits)

lemma handlerReturns_counts:
  assumes "h \<in> set (srvRunning srv)" "server_inv srv"
  shows "srvWorkers (handlerReturns h srv) + length (srvRunning srv)
      = srvWorkers srv + length (srvRunning (handlerReturns h srv))"
    and "srvTickets (handlerReturns h srv) = length (srvRunning (handlerReturns h srv))"
proof -
  have "length (srvRunning srv) = Suc (length (remove1 h (srvRunning srv)))"
    using assms(1) length_pos_if_in_set [OF assms(1)] by (simp add: length_remove1)
  then show "srvWorkers (handlerReturns h srv) + length (srvRunning srv)
      = srvWorkers srv + length (srvRunning (handlerReturns h srv))"
    and "srvTickets (handlerReturns h srv) = length (srvRunning (handlerReturns h srv))"
    using assms(2) by (simp_all add: handlerReturns_def server_inv_def)
qed

text \<open>The number of workers no running handler accounts for never goes down.\<close>

lemma leaked_mono:
  assumes "server_step srv srv'" "server_inv srv"
  shows "server_inv srv' \<and> srvWorkers srv - length (srvRunning srv) \<le> srvWorkers srv' - length (srvRunning srv')"
  using assms
proof (induction rule: server_step.induct)
  case (step_admit srv name)
  then show ?case
    using admit_counts [of name srv "fst (admit name srv)" "snd (admit name srv)"]
    by (auto simp: server_inv_def split: admission.splits)
next
  case (step_return h srv)
  then show ?case
    using handlerReturns_counts [OF step_return] length_pos_if_in_set [OF step_return(1)]
    by (auto simp: server_inv_def handlerReturns_def length_remove1)
qed (auto simp: server_inv_def RegisterService_def cancelServer_def addPeer_def removePeer_def Let_def)

interpretation tickets: inductive_invariant "\<lambda>srv. \<exists>u. srv = newWebRTCServer u" server_step server_inv
  by unfold_locales (auto dest: leaked_mono)

lemma leaked_steps:
  assumes "server_step\<^sup>*\<^sup>* srv srv'" "server_inv srv"
  shows "server_inv srv' \<and> srvWorkers srv - length (srvRunning srv) \<le> srvWorkers srv' - length (srvRunning srv')"
  using assms
  by (induction rule: rtranclp_induct) (auto dest: leaked_mono intro: order_trans)

section \<open>Properties\<close>

text \<open>
  C23. The server never runs more handlers at a time than it has call tickets, and the tickets taken
  are exactly those of the running handlers, in every order of calls, returns, registrations and
  stops.
\<close>

theorem handlers_bounded_by_tickets:
  assumes "reach (\<lambda>srv. \<exists>u. srv = newWebRTCServer u) server_step srv"
  shows "length (srvRunning srv) \<le> DefaultWebRTCMaxGRPCCalls \<and> srvTickets srv = length (srvRunning srv)"
  using tickets.reach_inv [OF assms] by (simp add: server_inv_def)

text \<open>A server with one service and a call to it.\<close>

definition demoServer :: "nat webrtc_server" where
  "demoServer = RegisterService
     \<lparr> sdName = ''svc'', sdMethods = [(''Get'', 7)], sdStreams = [], sdMetadata = [] \<rparr> (newWebRTCServer None)"

lemma demoServer_admit:
  "fst (admit ''/svc/Get'' demoServer) = Started (UnaryHandler 7)"
  "srvRunning (snd (admit ''/svc/Get'' demoServer)) = [UnaryHandler 7]"
  by (simp_all add: demoServer_def RegisterService_def newWebRTCServer_def admit_def lookupHandler_def
      methodPath_def DefaultWebRTCMaxGRPCCalls_def)

theorem handlers_bounded_by_tickets_witness:
  "reach (\<lambda>srv. \<exists>u. srv = newWebRTCServer u) server_step (snd (admit ''/svc/Get'' demoServer)) \<and>
   srvRunning (snd (admit ''/svc/Get'' demoServer)) = [UnaryHandler 7] \<and>
   length (srvRunning (snd (admit ''/svc/Get'' demoServer))) \<le> DefaultWebRTCMaxGRPCCalls"
proof -
  let ?R = "reach (\<lambda>srv. \<exists>u. srv = newWebRTCServer (u :: nat option)) server_step"
  have "?R (newWebRTCServer None)"
    by (rule reach_start) blast
  then have "?R demoServer"
    unfolding demoServer_def by (rule reach_step) (rule step_register)
  then have "?R (snd (admit ''/svc/Get'' demoServer))"
    by (rule reach_step) (rule step_admit)
  then show ?thesis
    using handlers_bounded_by_tickets demoServer_admit by blast
qed

text \<open>
  A rejected call keeps the server from stopping.  After one call that found no ticket, \<^verbatim>\<open>Stop\<close>
  does not return in any later state, whatever the server does -- also when every handler has
  returned: the worker that was counted for the rejected call is never given back.
\<close>

lemma rejected_call_blocks_stop:
  assumes "server_inv srv" "admit method srv = (NoTicket, srv1)" "server_step\<^sup>*\<^sup>* srv1 srv2"
  shows "Stop srv2 = None"
proof -
  have "server_inv srv1 \<and> length (srvRunning srv1) < srvWorkers srv1"
    using admit_counts [OF assms(2)] assms(1) by (simp add: server_inv_def)
  then have "0 < srvWorkers srv2 - length (srvRunning srv2)"
    using leaked_steps [OF assms(3)] by auto
  then show ?thesis
    by (simp add: Stop_def cancelServer_def Let_def)
qed

text \<open>A server all of whose tickets are taken.\<close>

definition fullServer :: "nat webrtc_server" where
  "fullServer = demoServer\<lparr>srvWorkers := 256, srvTickets := 256, srvRunning := replicate 256 (UnaryHandler 7)\<rparr>"

lemma drain_handlers:
  assumes "server_inv srv"
  shows "\<exists>srv'. server_step\<^sup>*\<^sup>* srv srv' \<and> srvRunning srv' = []"
  using assms
proof (induction "length (srvRunning srv)" arbitrary: srv)
  case 0
  then show ?case
    by auto
next
  case (Suc n)
  then obtain h where h: "h \<in> set (srvRunning srv)"
    by (cases "srvRunning srv") auto
  have step: "server_step srv (handlerReturns h srv)"
    by (rule step_return [OF h])
  have "n = length (srvRunning (handlerReturns h srv))"
    using Suc(2) h by (simp add: handlerReturns_def length_remove1)
  then obtain srv' where "server_step\<^sup>*\<^sup>* (handlerReturns h srv) srv'" "srvRunning srv' = []"
    using Suc(1) leaked_mono [OF step Suc(3)] by blast
  then show ?case
    using converse_rtranclp_into_rtranclp [of server_step, OF step] by blast
qed

lemma unaryHandler_good:
  assumes "goodEnv env" "chCtxErr ch = None" "\<not> bcClosed ch" "0 < n" "status_laws E"
    and "base_inv s" "\<not> bsClosed s" "\<not> ssSendClosed s" "\<not> ssHeadersWritten s" "parked s = None" "ctxErr s = None"
    and "msgCh s = [q]" "unmarshal q = Inr req" "h (RecvOk req) = Inr resp" "marshalMsg resp = Inr data"
  shows "\<exists>s'. unaryHandler E env n unmarshal marshalMsg h pick s ch = Some (None, s',
      wireAfter env (headersFrame s # map (messageFrame (bsId s)) (packetsOf n data) @ [trailersFrame None s]) ch,
      Some (bsId s)) \<and> bsClosed s'"
proof -
  let ?s = "s\<lparr>msgCh := []\<rparr>"
  have recv: "RecvMsg unmarshal pick s = Some (RecvOk req, ?s)"
    using assms(12,13) by (simp add: RecvMsg_buffered decodeInto_def)
  have fr: "headersFrame ?s = headersFrame s" "trailersFrame st (?s\<lparr>ssHeadersWritten := True\<rparr>) = trailersFrame st s" for st
    by (simp_all add: headersFrame_def trailersFrame_def)
  have inv: "base_inv (?s\<lparr>ssHeadersWritten := True\<rparr>)"
    using assms(6) by (simp add: base_inv_def)
  let ?ch = "wireAfter env (headersFrame s # map (messageFrame (bsId s)) (packetsOf n data)) ch"
  have "SendMsg E env n marshalMsg resp ?s ch = Some (None, ?s\<lparr>ssHeadersWritten := True\<rparr>, ?ch, None)"
    using SendMsg_good [OF assms(1,2,4), of ?s marshalMsg resp data E] assms by (simp add: fr)
  moreover obtain s' where "closeWithSendError E env None (?s\<lparr>ssHeadersWritten := True\<rparr>) ?ch =
      Some (None, s', wireAfter env [trailersFrame None s] ?ch, Some (bsId s))" "bsClosed s'"
    using closeWithSendError_good [OF assms(1), of ?ch "?s\<lparr>ssHeadersWritten := True\<rparr>" None E]
      assms inv by (auto simp: fr ErrorToStatus_None)
  ultimately show ?thesis
    using assms(14,15) by (simp add: unaryHandler_def recv wireAfter_append)
qed

text \<open>
  C11. The server side of a unary call.  On a working channel, a handler that gets its request and
  returns a response writes exactly the headers, the packets of the response and the trailers with
  the nil (successful) status, gives the stream back to its channel and closes it; if the handler
  returns an error, it writes the headers and the trailers with the status of that error.
\<close>

theorem unary_handler_writes_response:
  assumes "goodEnv env" "chCtxErr ch = None" "\<not> bcClosed ch" "0 < n" "status_laws E"
    and "base_inv s" "\<not> bsClosed s" "\<not> ssSendClosed s" "\<not> ssHeadersWritten s" "parked s = None" "ctxErr s = None"
    and "msgCh s = [q]" "unmarshal q = Inr req"
  shows "case h (RecvOk req) of
      Inr resp \<Rightarrow> (case marshalMsg resp of
          Inr data \<Rightarrow> \<exists>s'. unaryHandler E env n unmarshal marshalMsg h pick s ch = Some (None, s',
              wireAfter env (headersFrame s # map (messageFrame (bsId s)) (packetsOf n data)
                @ [trailersFrame None s]) ch, Some (bsId s)) \<and> bsClosed s'
        | Inl _ \<Rightarrow> True)
    | Inl e \<Rightarrow> errorsIs e ErrClosedPipe \<or> (\<exists>s'. unaryHandler E env n unmarshal marshalMsg h pick s ch = Some (None, s',
              wireAfter env [headersFrame s, trailersFrame (ErrorToStatus E (Some e)) s] ch, Some (bsId s)) \<and> bsClosed s')"
proof -
  let ?s = "s\<lparr>msgCh := []\<rparr>"
  have recv: "RecvMsg unmarshal pick s = Some (RecvOk req, ?s)"
    using assms(12,13) by (simp add: RecvMsg_buffered decodeInto_def)
  have fr: "headersFrame ?s = headersFrame s" "trailersFrame st ?s = trailersFrame st s"
    for st
    by (simp_all add: headersFrame_def trailersFrame_def)
  have inv: "base_inv ?s"
    using assms(6) by (simp add: base_inv_def)
  show ?thesis
  proof (cases "h (RecvOk req)")
    case (Inl e)
    then show ?thesis
      using closeWithSendError_good [OF assms(1-3), of ?s "Some e" E] assms inv
      by (auto simp: unaryHandler_def recv fr)
  next
    case (Inr resp)
    then show ?thesis
      using unaryHandler_good [where unmarshal = unmarshal and h = h and marshalMsg = marshalMsg, OF assms]
      by (simp split: sum.splits)
  qed
qed

definition echoTwice :: "bytes recv_result \<Rightarrow> err + bytes" where
  "echoTwice r = (case r of RecvOk q \<Rightarrow> Inr (q @ q) | RecvErr e \<Rightarrow> Inl e | RecvNil \<Rightarrow> Inl EOF)"

theorem unary_handler_writes_response_witness:
  "\<exists>s' ch'. unaryHandler plainErrEnv kindEnv 2 Inr Inr echoTwice True (freshServerStream\<lparr>msgCh := [[9]]\<rparr>)
       (newBaseChannel None ICENew) = Some (None, s', ch', Some 1) \<and> bsClosed s' \<and> bcWire ch' = [[1], [2], [3]]"
proof -
  let ?s = "freshServerStream\<lparr>msgCh := [[9]]\<rparr>"
  let ?ch = "newBaseChannel None ICENew"
  have c: "chCtxErr ?ch = None" "\<not> bcClosed ?ch" "bcWire ?ch = []"
    by (simp_all add: newBaseChannel_def connStateChanged_def)
  have inv: "base_inv ?s"
    using freshServerStream_simps(8) by (simp add: base_inv_def msgChCap_def)
  have run: "\<exists>s'. unaryHandler plainErrEnv kindEnv 2 Inr Inr echoTwice True ?s ?ch = Some (None, s',
      wireAfter kindEnv (headersFrame ?s # map (messageFrame 1) (packetsOf 2 [9, 9]) @ [trailersFrame None ?s]) ?ch,
      Some 1) \<and> bsClosed s'"
    using unary_handler_writes_response [OF kindEnv_good c(1,2) _ plain_status_laws inv, where n = 2 and unmarshal = Inr
        and q = "[9]" and req = "[9]" and h = echoTwice and marshalMsg = Inr and pick = True]
    by (simp add: echoTwice_def)
  have "bcWire (wireAfter kindEnv (headersFrame ?s # map (messageFrame 1) (packetsOf 2 [9, 9]) @ [trailersFrame None ?s]) ?ch)
      = [[1], [2], [3]]"
    by (simp add: c payload_def kindEnv_def frameKind_def headersFrame_def messageFrame_def trailersFrame_def
        packetsOf_def chunks.simps nextPacket_def)
  with run show ?thesis
    by blast
qed

text \<open>The frames a server does not accept on an open stream, with the status it answers.\<close>

definition protocolError :: "server_stream \<Rightarrow> request \<Rightarrow> grpc_status option" where
  "protocolError s req =
     (case reqType req of
        ReqHeaders _ \<Rightarrow> if ssHeadersReceived s then Some (InvalidArgument, ''headers already received'') else None
      | ReqMessage _ \<Rightarrow> if ssHeadersReceived s then None else Some (InvalidArgument, ''headers not yet received'')
      | ReqRstStream _ \<Rightarrow> Some (Canceled, ''request cancelled'')
      | ReqUnset \<Rightarrow> Some (InvalidArgument, ''unknown request type <nil>''))"

text \<open>
  C34. A frame that violates the protocol (second headers, a message before the headers, a frame with
  no content) or cancels the call ends the stream: on a working channel the client gets the trailers
  with the status of the violation, the stream is closed and given back, and the server's books do
  not change.
\<close>

theorem protocol_error_ends_stream:
  assumes "goodEnv env" "chCtxErr ch = None" "\<not> bcClosed ch" "status_laws E"
    and "base_inv s" "\<not> bsClosed s" "\<not> ssSendClosed s" "parked s = None"
    and "protocolError s req = Some st"
  shows "\<exists>s'. onRequest E env pick req srv s ch = Some (srv, s',
      wireAfter env ((if ssHeadersWritten s then [] else [headersFrame s]) @ [trailersFrame (Some st) s]) ch,
      Some (bsId s), None) \<and> bsClosed s' \<and> recvClosed s' \<and> msgCh s' = msgCh s"
proof -
  obtain c m where st: "st = (c, m)" and c: "c \<noteq> OK"
    and req: "onRequest E env pick req srv s ch = closeLogged E env (ErrStatus c m) srv s ch"
    using assms(9) by (auto simp: protocolError_def onRequest_def split: request_type.splits if_splits)
  show ?thesis
    using closeWithSendError_good [OF assms(1-3,7,6,5,8), of "Some (ErrStatus c m)" E] c st
    by (auto simp: req closeLogged_def ErrorToStatus_status [OF assms(4)])
qed

theorem protocol_error_ends_stream_witness:
  "\<exists>s' ch'. onRequest plainErrEnv kindEnv False \<lparr> reqStream = Some 1, reqType = ReqRstStream True \<rparr> demoServer
       freshServerStream (newBaseChannel None ICENew) = Some (demoServer, s', ch', Some 1, None) \<and>
     bsClosed s' \<and> bcWire ch' = [[1], [3]]"
proof -
  let ?req = "\<lparr> reqStream = Some 1, reqType = ReqRstStream True \<rparr>"
  have c: "chCtxErr (newBaseChannel None ICENew) = None" "\<not> bcClosed (newBaseChannel None ICENew)"
    "bcWire (newBaseChannel None ICENew) = []"
    by (simp_all add: newBaseChannel_def connStateChanged_def)
  have p: "protocolError freshServerStream ?req = Some (Canceled, ''request cancelled'')"
    by (simp add: protocolError_def)
  let ?ch = "wireAfter kindEnv [headersFrame freshServerStream,
      trailersFrame (Some (Canceled, ''request cancelled'')) freshServerStream] (newBaseChannel None ICENew)"
  have "bcWire ?ch = [[1], [3]]"
    by (simp add: c payload_def kindEnv_def frameKind_def headersFrame_def trailersFrame_def)
  moreover have "\<exists>s'. onRequest plainErrEnv kindEnv False ?req demoServer freshServerStream (newBaseChannel None ICENew)
      = Some (demoServer, s', ?ch, Some 1, None) \<and> bsClosed s'"
    using protocol_error_ends_stream [OF kindEnv_good c(1,2) plain_status_laws _ _ _ _ p, of False demoServer]
    by auto
  ultimately show ?thesis
    by blast
qed

end
