(* ===== verification/ServerChannel.thy ===== *)
theory ServerChannel
  imports WebrtcServer
begin

text \<open>
  The server end of a connection: \<^verbatim>\<open>src/rpc/wrtc_server_channel.go\<close>.  Its streams are the objects
  \<open>scObjs\<close>; the table \<open>scStreams\<close> maps the identifiers of the open ones to positions in it.
\<close>

section \<open>State\<close>

record server_chan = base_channel +
  scAuthAudience :: string
  scObjs :: "server_stream list"
  scStreams :: "(uint64, nat) gomap"

definition newWebRTCServerChannel :: "'h webrtc_server \<Rightarrow> ice_state \<Rightarrow> string list \<Rightarrow> server_chan" where
  "newWebRTCServerChannel server st authAudience =
     base_channel.extend (newBaseChannel (srvCtxErr server) st)
       \<lparr> scAuthAudience = strJoin authAudience '':'', scObjs = [], scStreams = [] \<rparr>"

text \<open>\<^verbatim>\<open>NewChannel\<close> of the server also records the peer.\<close>

definition NewChannel ::
    "nat \<Rightarrow> ice_state \<Rightarrow> string list \<Rightarrow> 'h webrtc_server \<Rightarrow> server_chan \<times> 'h webrtc_server" where
  "NewChannel peerConn st authAudience srv =
     (newWebRTCServerChannel srv st authAudience, addPeer peerConn srv)"

definition removeStreamByID :: "uint64 \<Rightarrow> server_chan \<Rightarrow> server_chan" where
  "removeStreamByID i ch = ch\<lparr>scStreams := mdel i (scStreams ch)\<rparr>"

text \<open>
  The context of a stream is a child of the channel's: it is done when the channel's is.  A negative
  timeout is a deadline that has passed.
\<close>

definition handlerCtx :: "server_chan \<Rightarrow> int \<Rightarrow> err option" where
  "handlerCtx ch timeout =
     (case chCtxErr ch of
        Some e \<Rightarrow> Some e
      | None \<Rightarrow> if timeout < 0 then Some CtxDeadlineExceeded else None)"

definition syncCtx :: "server_chan \<Rightarrow> server_stream \<Rightarrow> server_stream" where
  "syncCtx ch s = s\<lparr>ctxErr := (case ctxErr s of Some e \<Rightarrow> Some e | None \<Rightarrow> chCtxErr ch)\<rparr>"

section \<open>Operations on a stream of the channel\<close>

text \<open>
  Put the stream an operation left behind back into the channel, and take it out of the table if the
  operation called \<^verbatim>\<open>onDone\<close>.
\<close>

definition putStream :: "nat \<Rightarrow> server_stream \<Rightarrow> uint64 option \<Rightarrow> server_chan \<Rightarrow> server_chan" where
  "putStream o' s d ch =
     (let ch1 = ch\<lparr>scObjs := (scObjs ch)[o' := s]\<rparr> in
      case d of None \<Rightarrow> ch1 | Some i \<Rightarrow> removeStreamByID i ch1)"

definition dispatch ::
    "err_env \<Rightarrow> response dc_env \<Rightarrow> bool \<Rightarrow> request \<Rightarrow> nat \<Rightarrow> 'h webrtc_server \<Rightarrow> server_chan
      \<Rightarrow> ('h webrtc_server \<times> server_chan \<times> (nat \<times> 'h handler) option) option" where
  "dispatch E env pickCtx req o' srv ch =
     (case onRequest E env pickCtx req srv (syncCtx ch (scObjs ch ! o')) ch of
        None \<Rightarrow> None
      | Some (srv1, s1, ch1, d, started) \<Rightarrow>
          Some (srv1, putStream o' s1 d ch1, map_option (Pair o') started))"

text \<open>
  The callback for a message of the data channel.  The last component is a handler that was started,
  with the stream it serves.
\<close>

definition onChannelMessage ::
    "err_env \<Rightarrow> response dc_env \<Rightarrow> (bytes \<Rightarrow> err + request) \<Rightarrow> bool \<Rightarrow> bytes \<Rightarrow> 'h webrtc_server \<Rightarrow> server_chan
      \<Rightarrow> ('h webrtc_server \<times> server_chan \<times> (nat \<times> 'h handler) option) option" where
  "onChannelMessage E env unmarshalReq pickCtx data srv ch =
     (case unmarshalReq data of
        Inl _ \<Rightarrow> Some (srv, ch, None)
      | Inr req \<Rightarrow>
          (case reqStream req of
             None \<Rightarrow> Some (srv, ch, None)
           | Some i \<Rightarrow>
               (case mget (scStreams ch) i of
                  Some o' \<Rightarrow> dispatch E env pickCtx req o' srv ch
                | None \<Rightarrow>
                    if length (scStreams ch) = WebRTCMaxStreamCount then Some (srv, ch, None)
                    else
                      (case reqType req of
                         ReqHeaders (Some headers) \<Rightarrow>
                           let o' = length (scObjs ch);
                               s = newWebRTCServerStream (handlerCtx ch (rhTimeout headers)) (rhMethod headers) i;
                               ch1 = ch\<lparr>scObjs := scObjs ch @ [s], scStreams := mput i o' (scStreams ch)\<rparr>
                           in dispatch E env pickCtx req o' srv ch1
                       | _ \<Rightarrow> Some (srv, ch, None)))))"

text \<open>What a handler or the dispatcher does to a stream of the channel later on.\<close>

definition withStream ::
    "nat \<Rightarrow> (server_stream \<Rightarrow> server_chan \<Rightarrow> ('r \<times> server_stream \<times> server_chan \<times> uint64 option) option)
      \<Rightarrow> server_chan \<Rightarrow> ('r \<times> server_chan) option" where
  "withStream o' f ch =
     (case f (syncCtx ch (scObjs ch ! o')) ch of
        None \<Rightarrow> None
      | Some (r, s1, ch1, d) \<Rightarrow> Some (r, putStream o' s1 d ch1))"

section \<open>Invariant\<close>

definition table_inv :: "server_chan \<Rightarrow> bool" where
  "table_inv ch \<longleftrightarrow> tableOK (scObjs ch) (scStreams ch)"

lemma table_inv_new [simp]: "table_inv (newWebRTCServerChannel srv st aud)"
  by (simp add: table_inv_def newWebRTCServerChannel_def newBaseChannel_def connStateChanged_def base_channel.defs)

text \<open>Operations on a stream write to the channel and touch neither table nor objects.\<close>

definition sameTable :: "server_chan \<Rightarrow> server_chan \<Rightarrow> bool" where
  "sameTable ch ch' \<longleftrightarrow> scObjs ch' = scObjs ch \<and> scStreams ch' = scStreams ch \<and> scAuthAudience ch' = scAuthAudience ch"

lemma sameTable_refl [simp]: "sameTable ch ch"
  by (simp add: sameTable_def)

lemma sameTable_trans: "sameTable a b \<Longrightarrow> sameTable b c \<Longrightarrow> sameTable a c"
  by (simp add: sameTable_def)

lemma bcWrite_sameTable: "bcWrite env f ch = Some (e, ch') \<Longrightarrow> sameTable ch ch'"
  by (elim bcWrite_elim) (simp_all add: sameTable_def)

lemma writeAll_sameTable:
  "writeAll (\<lambda>p c. bcWrite env (fr p) c) ps ch = Some (e, ch') \<Longrightarrow> sameTable ch ch'"
proof (induction ps arbitrary: ch)
  case (Cons p ps)
  obtain e1 ch1 where w: "bcWrite env (fr p) ch = Some (e1, ch1)"
    using Cons.prems by (auto simp: bind_eq_Some_conv)
  then show ?case
    using Cons.prems Cons.IH [of ch1] bcWrite_sameTable [OF w]
    by (cases e1) (auto intro: sameTable_trans)
qed simp

lemma ssWriteHeaders_sameTable: "ssWriteHeaders env s ch = Some (e, s', ch') \<Longrightarrow> sameTable ch ch'"
  by (auto simp: ssWriteHeaders_def split: if_splits option.splits dest: bcWrite_sameTable)

lemma writeClose_sameTable:
  assumes "writeClose E env err s ch = Some (e, s', ch')"
  shows "sameTable ch ch'"
  using assms
  by (auto simp: writeClose_def Let_def split: if_splits option.splits
      dest!: ssWriteHeaders_sameTable bcWrite_sameTable intro: sameTable_trans)

lemma closeWithSendError_sameTable:
  assumes "closeWithSendError E env err s ch = Some (e, s', ch', d)"
  shows "sameTable ch ch'"
  using assms
  by (auto simp: closeWithSendError_def split: if_splits option.splits dest: writeClose_sameTable)

lemma sendBody_sameTable:
  assumes "0 < n" "sendBody env n mm m s ch = Some (e, s', ch')"
  shows "sameTable ch ch'"
  using assms(2)
  by (auto simp: sendBody_def sendPackets_writeAll [OF assms(1)] split: option.splits sum.splits
      dest!: ssWriteHeaders_sameTable writeAll_sameTable intro: sameTable_trans)

lemma SendMsg_sameTable:
  assumes "0 < n" "SendMsg E env n mm m s ch = Some (e, s', ch', d)"
  shows "sameTable ch ch'"
  using assms(2)
  by (auto simp: SendMsg_def split: if_splits option.splits
      dest!: sendBody_sameTable [OF assms(1)] closeWithSendError_sameTable intro: sameTable_trans)

lemma onRequest_sameTable:
  assumes "onRequest E env pick req srv s ch = Some (srv', s', ch', d, h)"
  shows "sameTable ch ch'"
proof -
  have close: "closeLogged E env e v t c = Some (v', t', c', d', h') \<Longrightarrow> sameTable c c'" for e v t c v' t' c' d' h'
    by (auto simp: closeLogged_def split: option.splits dest: closeWithSendError_sameTable)
  have headers: "processHeaders E env hs srv s ch = Some (srv', s', ch', d, h) \<Longrightarrow> sameTable ch ch'" for hs
    by (auto simp: processHeaders_def split: prod.splits admission.splits dest: close)
  show ?thesis
    using assms
    by (auto simp: onRequest_def split: request_type.splits if_splits option.splits dest: close headers)
qed

lemma syncCtx_keeps [simp]:
  "bsId (syncCtx ch s) = bsId s" "bsClosed (syncCtx ch s) = bsClosed s"
  by (simp_all add: syncCtx_def)

lemma putStream_table:
  "scObjs (putStream k s d ch) = (scObjs ch)[k := s]" "scStreams (putStream k s d ch) = tableAfter d (scStreams ch)"
  by (cases d; simp add: putStream_def removeStreamByID_def tableAfter_def)+

lemma putStream_inv:
  assumes "table_inv ch" "sameTable ch ch1" "k < length (scObjs ch)" "announces (scObjs ch ! k) s1 d"
  shows "table_inv (putStream k s1 d ch1) \<and> length (scObjs (putStream k s1 d ch1)) = length (scObjs ch)"
  using tableOK_update [OF _ assms(3,4)] assms(1,2) by (simp add: table_inv_def sameTable_def putStream_table)

lemma newStream_inv:
  assumes "table_inv ch" "mget (scStreams ch) i = None" "length (scStreams ch) \<noteq> WebRTCMaxStreamCount"
    "bsId s = i" "\<not> bsClosed s"
  shows "table_inv (ch\<lparr>scObjs := scObjs ch @ [s], scStreams := mput i (length (scObjs ch)) (scStreams ch)\<rparr>)"
  using tableOK_new [of "scObjs ch" "scStreams ch" i s] assms by (simp add: table_inv_def)

lemma dispatch_inv:
  assumes "table_inv ch" "k < length (scObjs ch)" "dispatch E env pick req k srv ch = Some (srv', ch', h)"
  shows "table_inv ch' \<and> length (scObjs ch') = length (scObjs ch)"
proof -
  obtain s1 ch1 d h' where r: "onRequest E env pick req srv (syncCtx ch (scObjs ch ! k)) ch = Some (srv', s1, ch1, d, h')"
    and ch': "ch' = putStream k s1 d ch1"
    using assms(3) by (auto simp: dispatch_def split: option.splits)
  have "announces (scObjs ch ! k) s1 d"
    using onRequest_announces [OF r] by (rule announces_shift) simp_all
  then show ?thesis
    unfolding ch' by (rule putStream_inv [OF assms(1) onRequest_sameTable [OF r] assms(2)])
qed

lemma onChannelMessage_inv:
  assumes "table_inv ch" "onChannelMessage E env um pick data srv ch = Some (srv', ch', h)"
  shows "table_inv ch' \<and> length (scObjs ch) \<le> length (scObjs ch')"
proof (cases "\<exists>req i. um data = Inr req \<and> reqStream req = Some i")
  case False
  then show ?thesis
    using assms by (auto simp: onChannelMessage_def split: sum.splits option.splits)
next
  case True
  then obtain req i where req: "um data = Inr req" "reqStream req = Some i"
    by blast
  show ?thesis
  proof (cases "mget (scStreams ch) i")
    case (Some k)
    then have k: "k < length (scObjs ch)"
      using assms(1) by (simp add: table_inv_def tableOK_index)
    have "dispatch E env pick req k srv ch = Some (srv', ch', h)"
      using assms(2) req Some by (simp add: onChannelMessage_def)
    from dispatch_inv [OF assms(1) k this] show ?thesis
      by simp
  next
    case None
    show ?thesis
    proof (cases "\<exists>hs. reqType req = ReqHeaders (Some hs) \<and> length (scStreams ch) \<noteq> WebRTCMaxStreamCount")
      case False
      then show ?thesis
        using assms req None
        by (auto simp: onChannelMessage_def split: if_splits request_type.splits option.splits)
    next
      case True
      then obtain hs where hs: "reqType req = ReqHeaders (Some hs)" "length (scStreams ch) \<noteq> WebRTCMaxStreamCount"
        by blast
      let ?s = "newWebRTCServerStream (handlerCtx ch (rhTimeout hs)) (rhMethod hs) i"
      let ?ch = "ch\<lparr>scObjs := scObjs ch @ [?s], scStreams := mput i (length (scObjs ch)) (scStreams ch)\<rparr>"
      have "bsId ?s = i" "\<not> bsClosed ?s"
        by (simp_all add: newWebRTCServerStream_def newWebRTCBaseStream_def base_stream.defs)
      then have inv: "table_inv ?ch"
        by (rule newStream_inv [OF assms(1) None hs(2)])
      have "dispatch E env pick req (length (scObjs ch)) srv ?ch = Some (srv', ch', h)"
        using assms(2) req None hs by (simp add: onChannelMessage_def Let_def)
      from dispatch_inv [OF inv _ this] show ?thesis
        by simp
    qed
  qed
qed

section \<open>The contract of a stream operation\<close>

text \<open>
  What a channel relies on when user code, a handler or a woken dispatcher works on one of its
  streams: the operation announces the end of the stream exactly when it ends it, and it uses the
  channel only for writing.
\<close>

locale stream_client =
  fixes f :: "server_stream \<Rightarrow> server_chan \<Rightarrow> ('r \<times> server_stream \<times> server_chan \<times> uint64 option) option"
  assumes f_announces: "f s ch = Some (r, s', ch', d) \<Longrightarrow> announces s s' d"
    and f_table: "f s ch = Some (r, s', ch', d) \<Longrightarrow> sameTable ch ch'"
begin

lemma withStream_inv:
  assumes "table_inv ch" "k < length (scObjs ch)" "withStream k f ch = Some (r, ch')"
  shows "table_inv ch' \<and> length (scObjs ch') = length (scObjs ch)"
proof -
  obtain s1 ch1 d where r: "f (syncCtx ch (scObjs ch ! k)) ch = Some (r, s1, ch1, d)"
    and ch': "ch' = putStream k s1 d ch1"
    using assms(3) by (auto simp: withStream_def split: option.splits)
  have "announces (scObjs ch ! k) s1 d"
    using f_announces [OF r] by (rule announces_shift) simp_all
  then show ?thesis
    unfolding ch' by (rule putStream_inv [OF assms(1) f_table [OF r] assms(2)])
qed

end

interpretation sendMsg: stream_client "SendMsg E env (Suc n) mm m" for E env n mm m
  by unfold_locales (auto dest: SendMsg_announces SendMsg_sameTable [rotated])

interpretation closeSend: stream_client "closeWithSendError E env e" for E env e
  by unfold_locales (auto dest: closeWithSendError_announces closeWithSendError_sameTable)

text \<open>The operations that leave the channel alone, in the shape of the contract.\<close>

definition recvOn ::
    "(bytes \<Rightarrow> err + 'q) \<Rightarrow> bool \<Rightarrow> server_stream \<Rightarrow> server_chan
      \<Rightarrow> ('q recv_result \<times> server_stream \<times> server_chan \<times> uint64 option) option" where
  "recvOn um pick s ch = map_option (\<lambda>(r, s'). (r, s', ch, None)) (RecvMsg um pick s)"

definition resumeOn ::
    "bool \<Rightarrow> server_stream \<Rightarrow> server_chan \<Rightarrow> (unit \<times> server_stream \<times> server_chan \<times> uint64 option) option" where
  "resumeOn pick s ch = map_option (\<lambda>(s', d). ((), s', ch, d)) (ssResume pick s)"

interpretation recv: stream_client "recvOn um pick" for um pick
  by unfold_locales (auto simp: recvOn_def dest: RecvMsg_announces)

interpretation resume: stream_client "resumeOn pick" for pick
  by unfold_locales (auto simp: resumeOn_def dest: ssResume_announces)

lemma unaryHandler_steps:
  assumes "unaryHandler E env n um mm h pick s ch = Some (r, s', ch', d)"
  obtains s1 e where "announces s s1 None" "closeWithSendError E env e s1 ch = Some (r, s', ch', d)"
  | s1 m where "announces s s1 None" "SendMsg E env n mm m s1 ch = Some (r, s', ch', d)"
  | s1 m s2 ch2 d2 d3 where "announces s s1 None" "SendMsg E env n mm m s1 ch = Some (None, s2, ch2, d2)"
      "closeWithSendError E env None s2 ch2 = Some (r, s', ch', d3)" "d = (if d2 = None then d3 else d2)"
proof -
  obtain q s1 where recv: "RecvMsg um pick s = Some (q, s1)"
    using assms by (auto simp: unaryHandler_def split: option.splits)
  note a = RecvMsg_announces [OF recv]
  show ?thesis
  proof (cases "h q")
    case (Inl e)
    then show ?thesis
      using assms recv by (intro that(1) [OF a]) (simp add: unaryHandler_def)
  next
    case (Inr m)
    obtain e2 s2 ch2 d2 where s: "SendMsg E env n mm m s1 ch = Some (e2, s2, ch2, d2)"
      using assms recv Inr by (auto simp: unaryHandler_def split: option.splits)
    show ?thesis
    proof (cases e2)
      case (Some x)
      then show ?thesis
        using assms recv Inr s by (intro that(2) [OF a, of m]) (simp add: unaryHandler_def)
    next
      case None
      then obtain d3 where "closeWithSendError E env None s2 ch2 = Some (r, s', ch', d3)"
        "d = (if d2 = None then d3 else d2)"
        using assms recv Inr s by (auto simp: unaryHandler_def split: option.splits)
      with s None show ?thesis
        by (intro that(3) [OF a]) simp_all
    qed
  qed
qed

lemma unaryHandler_announces:
  assumes "unaryHandler E env n um mm h pick s ch = Some (r, s', ch', d)"
  shows "announces s s' d"
  using assms
proof (cases rule: unaryHandler_steps)
  case (1 s1 e)
  then show ?thesis
    using announces_trans [OF 1(1) closeWithSendError_announces] by simp
next
  case (2 s1 m)
  then show ?thesis
    using announces_trans [OF 2(1) SendMsg_announces] by simp
next
  case (3 s1 m s2 ch2 d2 d3)
  have "announces s1 s' d"
    unfolding 3(4) by (rule announces_trans [OF SendMsg_announces [OF 3(2)] closeWithSendError_announces [OF 3(3)]])
  then show ?thesis
    using announces_trans [OF 3(1)] by fastforce
qed

lemma unaryHandler_sameTable:
  assumes "0 < n" "unaryHandler E env n um mm h pick s ch = Some (r, s', ch', d)"
  shows "sameTable ch ch'"
  using assms(2)
  by (cases rule: unaryHandler_steps)
    (auto dest!: closeWithSendError_sameTable SendMsg_sameTable [OF assms(1)] intro: sameTable_trans)

interpretation unary: stream_client "unaryHandler E env (Suc n) um mm h pick" for E env n um mm h pick
  by unfold_locales (auto dest: unaryHandler_announces unaryHandler_sameTable [rotated])

section \<open>Properties\<close>

text \<open>
  The steps of a connection: a message of the data channel, a handler that receives, sends, closes or
  serves a whole unary call, a woken dispatcher, and the end of the channel's context.
\<close>

inductive chan_step ::
    "err_env \<Rightarrow> response dc_env \<Rightarrow> (bytes \<Rightarrow> err + request) \<Rightarrow> nat \<Rightarrow> 'h webrtc_server \<times> server_chan
      \<Rightarrow> 'h webrtc_server \<times> server_chan \<Rightarrow> bool"
  for E :: err_env and env :: "response dc_env" and um :: "bytes \<Rightarrow> err + request" and n :: nat where
  chan_frame: "onChannelMessage E env um pick data srv ch = Some (srv', ch', h) \<Longrightarrow>
     chan_step E env um n (srv, ch) (srv', ch')"
| chan_send: "k < length (scObjs ch) \<Longrightarrow> withStream k (SendMsg E env (Suc n) Inr m) ch = Some (r, ch') \<Longrightarrow>
     chan_step E env um n (srv, ch) (srv, ch')"
| chan_close: "k < length (scObjs ch) \<Longrightarrow> withStream k (closeWithSendError E env e) ch = Some (r, ch') \<Longrightarrow>
     chan_step E env um n (srv, ch) (srv, ch')"
| chan_recv: "k < length (scObjs ch) \<Longrightarrow> withStream k (recvOn Inr pick) ch = Some (q, ch') \<Longrightarrow>
     chan_step E env um n (srv, ch) (srv, ch')"
| chan_resume: "k < length (scObjs ch) \<Longrightarrow> withStream k (resumeOn pick) ch = Some (u, ch') \<Longrightarrow>
     chan_step E env um n (srv, ch) (srv, ch')"
| chan_unary: "k < length (scObjs ch) \<Longrightarrow> withStream k (unaryHandler E env (Suc n) Inr Inr g pick) ch = Some (r, ch') \<Longrightarrow>
     chan_step E env um n (srv, ch) (srv, ch')"
| chan_done: "chan_step E env um n (srv, ch) (srv, ch\<lparr>chCtxErr := cancelCtx (chCtxErr ch)\<rparr>)"

lemma chan_step_inv:
  assumes "chan_step E env um n x y" "table_inv (snd x)"
  shows "table_inv (snd y)"
  using assms
proof (induction rule: chan_step.induct)
  case (chan_frame pick data srv ch srv' ch' h)
  then show ?case
    using onChannelMessage_inv [OF _ chan_frame(1)] by simp
next
  case (chan_send k ch m r ch' srv)
  then show ?case
    using sendMsg.withStream_inv [OF _ chan_send(1,2)] by simp
next
  case (chan_close k ch e r ch' srv)
  then show ?case
    using closeSend.withStream_inv [OF _ chan_close(1,2)] by simp
next
  case (chan_recv k ch pick q ch' srv)
  then show ?case
    using recv.withStream_inv [OF _ chan_recv(1,2)] by simp
next
  case (chan_resume k ch pick u ch' srv)
  then show ?case
    using resume.withStream_inv [OF _ chan_resume(1,2)] by simp
next
  case (chan_unary k ch g pick r ch' srv)
  then show ?case
    using unary.withStream_inv [OF _ chan_unary(1,2)] by simp
qed (simp add: table_inv_def)

text \<open>A connection at its start: the channel of its server, with no streams.\<close>

definition freshConn :: "'h webrtc_server \<times> server_chan \<Rightarrow> bool" where
  "freshConn x \<longleftrightarrow> (\<exists>st aud. snd x = newWebRTCServerChannel (fst x) st aud)"

interpretation table: inductive_invariant freshConn "chan_step E env um n" "\<lambda>x. table_inv (snd x)"
  for E env um n
  by unfold_locales (auto simp: freshConn_def dest: chan_step_inv)


definition getFrame :: request where
  "getFrame = \<lparr> reqStream = Some 4,
     reqType = ReqHeaders (Some \<lparr> rhMethod = ''/svc/Get'', rhMetadata = None, rhTimeout = 0 \<rparr>) \<rparr>"

abbreviation demoChan :: server_chan where
  "demoChan \<equiv> newWebRTCServerChannel demoServer ICENew [''a'', ''b'']"

lemma getFrame_message:
  "onChannelMessage plainErrEnv kindEnv (\<lambda>_. Inr getFrame) False [] demoServer demoChan =
     Some (snd (admit ''/svc/Get'' demoServer),
       demoChan\<lparr>scObjs := [(newWebRTCServerStream None ''/svc/Get'' 4)\<lparr>ssHeadersReceived := True\<rparr>],
                scStreams := [(4, 0)]\<rparr>, Some (0, UnaryHandler 7))"
proof -
  have c: "chCtxErr demoChan = None" "scObjs demoChan = []" "scStreams demoChan = []"
    by (simp_all add: newWebRTCServerChannel_def newBaseChannel_def connStateChanged_def base_channel.defs
        demoServer_def RegisterService_def newWebRTCServer_def)
  have s: "syncCtx ch (newWebRTCServerStream None m i) = newWebRTCServerStream None m i"
    if "chCtxErr ch = None" for ch m i
    using that by (simp add: syncCtx_def newWebRTCServerStream_def newWebRTCBaseStream_def base_stream.defs)
  have r: "ssHeadersReceived (newWebRTCServerStream None m i) = False" for m i
    by (simp add: newWebRTCServerStream_def newWebRTCBaseStream_def base_stream.defs)
  obtain srv1 where a: "admit ''/svc/Get'' demoServer = (Started (UnaryHandler 7), srv1)"
    using demoServer_admit(1) by (metis prod.collapse)
  show ?thesis
    by (simp add: onChannelMessage_def getFrame_def c handlerCtx_def WebRTCMaxStreamCount_def dispatch_def s r
        onRequest_def processHeaders_def a putStream_def Let_def)
qed


end
