(* ===== verification/ClientStream.thy ===== *)
theory ClientStream
  imports Framing BaseChannel GoErrors StreamTable
begin

text \<open>
  The client end of a stream: \<^verbatim>\<open>src/rpc/wrtc_client_stream.go\<close>.  As on the server, an operation
  takes the stream and the channel it writes to and gives its result, both objects and the call of
  \<^verbatim>\<open>onDone\<close>; \<^const>\<open>None\<close> when the call does not return.  \<open>stErr\<close> stands for the error of a
  decoded status (\<^verbatim>\<open>status.FromProto(st).Err()\<close>).
\<close>

section \<open>State\<close>

record client_stream = base_stream +
  csHeaders :: "md option"
  csTrailers :: "md option"
  csUserCtx :: "md option option"
  csHeadersReceived :: bool
  csTrailersReceived :: bool
  csSendClosed :: bool

text \<open>The context of a stream merges the caller's with the channel's: it is done when either is.\<close>

definition mergeCtx :: "err option \<Rightarrow> err option \<Rightarrow> err option" where
  "mergeCtx chanCtx ctx = (case chanCtx of Some e \<Rightarrow> Some e | None \<Rightarrow> ctx)"

definition newWebRTCClientStream :: "err option \<Rightarrow> err option \<Rightarrow> uint64 \<Rightarrow> client_stream" where
  "newWebRTCClientStream chanCtx ctx stream =
     base_stream.extend (newWebRTCBaseStream (mergeCtx chanCtx ctx) stream)
       \<lparr> csHeaders = None, csTrailers = None, csUserCtx = None, csHeadersReceived = False,
         csTrailersReceived = False, csSendClosed = False \<rparr>"

text \<open>See \<^verbatim>\<open>maxResponseMessagePacketDataSize\<close>: \<open>wrapper\<close> is the length of the encoded wrapper.\<close>

definition maxRequestMessagePacketDataSize :: "nat \<Rightarrow> nat" where
  "maxRequestMessagePacketDataSize wrapper = maxDataChannelSize - wrapper"

section \<open>Reading what arrived\<close>

text \<open>\<^verbatim>\<open>Header\<close> waits for the headers or the end of the context.\<close>

definition Header :: "client_stream \<Rightarrow> (err + md option) option" where
  "Header s =
     (if csHeadersReceived s then Some (Inr (csHeaders s))
      else (case ctxErr s of Some e \<Rightarrow> Some (Inl e) | None \<Rightarrow> None))"

definition Trailer :: "client_stream \<Rightarrow> md option" where
  "Trailer s = csTrailers s"

section \<open>Writing\<close>

definition reqFrame :: "uint64 \<Rightarrow> request_type \<Rightarrow> request" where
  "reqFrame i t = \<lparr> reqStream = Some i, reqType = t \<rparr>"

definition checkWriteErrForStreamClose :: "err option \<Rightarrow> err option" where
  "checkWriteErrForStreamClose e = (if e = None \<or> errIs e ErrClosedPipe then None else e)"

text \<open>The deferred function of the writers: an error that is not a closed pipe closes the stream.\<close>

definition closeOnWriteErr ::
    "err option \<Rightarrow> client_stream \<Rightarrow> (client_stream \<times> uint64 option) option" where
  "closeOnWriteErr e s =
     (case checkWriteErrForStreamClose e of
        None \<Rightarrow> Some (s, None)
      | Some x \<Rightarrow> closeWithError (Some x) False s)"

type_synonym 'c client_result = "(err option \<times> client_stream \<times> 'c base_channel_scheme \<times> uint64 option) option"

definition resetStream :: "request dc_env \<Rightarrow> client_stream \<Rightarrow> 'c base_channel_scheme \<Rightarrow> 'c client_result" where
  "resetStream env s ch =
     (case bcWrite env (reqFrame (bsId s) (ReqRstStream True)) ch of
        None \<Rightarrow> None
      | Some (e, ch1) \<Rightarrow>
          (case closeWithError (checkWriteErrForStreamClose e) False (s\<lparr>csSendClosed := True\<rparr>) of
             None \<Rightarrow> None
           | Some (s1, d) \<Rightarrow> Some (e, s1, ch1, d)))"

text \<open>The goroutine of a stream: when the context ends before the stream is closed, reset it.\<close>

definition ctxWatch :: "request dc_env \<Rightarrow> client_stream \<Rightarrow> 'c base_channel_scheme \<Rightarrow> 'c client_result" where
  "ctxWatch env s ch =
     (if ctxErr s = None then None
      else if bsClosed s then Some (None, s, ch, None)
      else resetStream env s ch)"

definition csClose :: "client_stream \<Rightarrow> (client_stream \<times> uint64 option) option" where
  "csClose s = baseClose (s\<lparr>ctxErr := cancelCtx (ctxErr s)\<rparr>)"

definition csWriteHeaders ::
    "request dc_env \<Rightarrow> request_headers \<Rightarrow> client_stream \<Rightarrow> 'c base_channel_scheme \<Rightarrow> 'c client_result" where
  "csWriteHeaders env headers s ch =
     (case bcWrite env (reqFrame (bsId s) (ReqHeaders (Some headers))) ch of
        None \<Rightarrow> None
      | Some (e, ch1) \<Rightarrow>
          (case closeOnWriteErr e s of None \<Rightarrow> None | Some (s1, d) \<Rightarrow> Some (e, s1, ch1, d)))"

text \<open>
  The body of \<^verbatim>\<open>writeMessage\<close> before its deferred function.  \<^const>\<open>None\<close> for \<open>m\<close> is the nil message of
  \<^verbatim>\<open>CloseSend\<close>; every packet of the last message carries the end-of-stream mark.
\<close>

definition writeBody ::
    "request dc_env \<Rightarrow> nat \<Rightarrow> ('m \<Rightarrow> err + bytes) \<Rightarrow> 'm option \<Rightarrow> bool \<Rightarrow> uint64 \<Rightarrow> 'c base_channel_scheme
      \<Rightarrow> (err option \<times> 'c base_channel_scheme) option" where
  "writeBody env n marshalMsg m eos i ch =
     (case (case m of None \<Rightarrow> Inr [] | Some x \<Rightarrow> marshalMsg x) of
        Inl e \<Rightarrow> Some (Some e, ch)
      | Inr data \<Rightarrow>
          sendPackets n (\<lambda>p c. bcWrite env (reqFrame i (ReqMessage
             \<lparr> rmHasMessage = (m \<noteq> None), rmPacket = Some p, rmEos = eos \<rparr>)) c) data ch)"

definition csWriteMessage ::
    "request dc_env \<Rightarrow> nat \<Rightarrow> ('m \<Rightarrow> err + bytes) \<Rightarrow> 'm option \<Rightarrow> bool \<Rightarrow> client_stream
      \<Rightarrow> 'c base_channel_scheme \<Rightarrow> 'c client_result" where
  "csWriteMessage env n marshalMsg m eos s ch =
     (if csSendClosed s then Some (Some ErrClosedPipe, s, ch, None)
      else
        let s1 = (if eos then s\<lparr>csSendClosed := True\<rparr> else s) in
        (case writeBody env n marshalMsg m eos (bsId s1) ch of
           None \<Rightarrow> None
         | Some (e, ch1) \<Rightarrow>
             (case closeOnWriteErr e s1 of None \<Rightarrow> None | Some (s2, d) \<Rightarrow> Some (e, s2, ch1, d))))"

definition csSendMsg ::
    "request dc_env \<Rightarrow> nat \<Rightarrow> ('m \<Rightarrow> err + bytes) \<Rightarrow> 'm \<Rightarrow> client_stream \<Rightarrow> 'c base_channel_scheme \<Rightarrow> 'c client_result" where
  "csSendMsg env n marshalMsg m s ch = csWriteMessage env n marshalMsg (Some m) False s ch"

definition CloseSend ::
    "request dc_env \<Rightarrow> nat \<Rightarrow> ('m \<Rightarrow> err + bytes) \<Rightarrow> client_stream \<Rightarrow> 'c base_channel_scheme \<Rightarrow> 'c client_result" where
  "CloseSend env n marshalMsg s ch = csWriteMessage env n marshalMsg None True s ch"

section \<open>Responses\<close>

definition csProcessHeaders :: "response_headers \<Rightarrow> client_stream \<Rightarrow> client_stream" where
  "csProcessHeaders headers s =
     (let h = metadataFromProto (rspMetadata headers) in
      s\<lparr>csHeaders := h, csUserCtx := Some h, csHeadersReceived := True\<rparr>)"

definition csProcessMessage :: "bool \<Rightarrow> response_message \<Rightarrow> client_stream \<Rightarrow> client_stream" where
  "csProcessMessage pickCtx msg s =
     (if csTrailersReceived s then s
      else
        (case processMessage (rspPacket msg) s of
           (None, s1) \<Rightarrow> s1
         | (Some data, s1) \<Rightarrow> snd (deliver pickCtx data s1)))"

definition processTrailers ::
    "(grpc_status option \<Rightarrow> err option) \<Rightarrow> response_trailers \<Rightarrow> client_stream
      \<Rightarrow> (client_stream \<times> uint64 option) option" where
  "processTrailers stErr trailers s =
     (let s1 = s\<lparr>csTrailersReceived := True\<rparr>;
          s2 = (if rtMetadata trailers \<noteq> None then s1\<lparr>csTrailers := metadataFromProto (rtMetadata trailers)\<rparr> else s1)
      in closeFromTrailers (stErr (rtStatus trailers)) s2)"

definition onResponse ::
    "(grpc_status option \<Rightarrow> err option) \<Rightarrow> bool \<Rightarrow> response \<Rightarrow> client_stream
      \<Rightarrow> (client_stream \<times> uint64 option) option" where
  "onResponse stErr pickCtx resp s =
     (case respType resp of
        RespHeaders h \<Rightarrow>
          if csHeadersReceived s then closeWithError (Some (ErrText ''headers already received'')) False s
          else if csTrailersReceived s then closeWithError (Some (ErrText ''headers received after trailers'')) False s
          else Some (csProcessHeaders h s, None)
      | RespMessage m \<Rightarrow>
          if \<not> csHeadersReceived s then closeWithError (Some (ErrText ''headers not yet received'')) False s
          else if csTrailersReceived s then closeWithError (Some (ErrText ''message received after trailers'')) False s
          else Some (csProcessMessage pickCtx m s, None)
      | RespTrailers t \<Rightarrow> processTrailers stErr t s
      | RespUnset \<Rightarrow> Some (s, None))"

section \<open>What the operations announce\<close>

lemma closeOnWriteErr_announces: "closeOnWriteErr e s = Some (s', d) \<Longrightarrow> announces s s' d"
  by (auto simp: closeOnWriteErr_def split: option.splits dest: closeWithError_announces intro: announces_same)

lemma resetStream_announces:
  assumes "resetStream env s ch = Some (e, s', ch', d)"
  shows "announces s s' d"
  using assms
  by (auto simp: resetStream_def split: option.splits dest!: closeWithError_announces intro: announces_shift)

lemma ctxWatch_announces: "ctxWatch env s ch = Some (e, s', ch', d) \<Longrightarrow> announces s s' d"
  by (auto simp: ctxWatch_def split: if_splits dest: resetStream_announces intro: announces_same)

lemma csClose_announces: "csClose s = Some (s', d) \<Longrightarrow> announces s s' d"
  by (auto simp: csClose_def dest!: baseClose_announces intro: announces_shift)

lemma csWriteHeaders_announces: "csWriteHeaders env h s ch = Some (e, s', ch', d) \<Longrightarrow> announces s s' d"
  by (auto simp: csWriteHeaders_def split: option.splits dest: closeOnWriteErr_announces)

lemma csWriteMessage_announces:
  assumes "csWriteMessage env n mm m eos s ch = Some (e, s', ch', d)"
  shows "announces s s' d"
  using assms
  by (auto simp: csWriteMessage_def Let_def split: if_splits option.splits
      dest!: closeOnWriteErr_announces intro: announces_shift announces_same)

lemma csProcessMessage_keeps:
  "bsId (csProcessMessage pick m s) = bsId s" "bsClosed (csProcessMessage pick m s) = bsClosed s"
proof -
  obtain r s1 where p: "processMessage (rspPacket m) s = (r, s1)"
    by (cases "processMessage (rspPacket m) s")
  show "bsId (csProcessMessage pick m s) = bsId s" "bsClosed (csProcessMessage pick m s) = bsClosed s"
    using processMessage_keeps(1,2) [OF p] deliver_keeps(1,2) [OF prod.collapse [symmetric], of pick _ s1]
    by (auto simp: csProcessMessage_def p split: option.splits)
qed

lemma onResponse_announces:
  assumes "onResponse stErr pick resp s = Some (s', d)"
  shows "announces s s' d"
  using assms
  by (auto simp: onResponse_def processTrailers_def csProcessHeaders_def Let_def csProcessMessage_keeps
      split: response_type.splits if_splits
      dest!: closeWithError_announces closeFromTrailers_announces intro: announces_same announces_shift)

end
