(* ===== verification/ClientChannel.thy ===== *)
theory ClientChannel
  imports ClientStream
begin

text \<open>
  The client end of a connection: \<^verbatim>\<open>src/rpc/wrtc_client_channel.go\<close>.  Identifiers of streams come
  from a 64-bit counter; the table \<open>ccStreams\<close> maps those of the open streams to positions in
  \<open>ccObjs\<close>.
\<close>

section \<open>State\<close>

record client_chan = base_channel +
  ccCounter :: uint64
  ccObjs :: "client_stream list"
  ccStreams :: "(uint64, nat) gomap"

definition errWebRTCMaxStreams :: err where
  "errWebRTCMaxStreams = ErrText ''stream limit hit''"

definition newWebRTCClientChannel :: "ice_state \<Rightarrow> client_chan" where
  "newWebRTCClientChannel st =
     base_channel.extend (newBaseChannel None st) \<lparr> ccCounter = 0, ccObjs = [], ccStreams = [] \<rparr>"

definition ccRemoveStreamByID :: "uint64 \<Rightarrow> client_chan \<Rightarrow> client_chan" where
  "ccRemoveStreamByID i ch = ch\<lparr>ccStreams := mdel i (ccStreams ch)\<rparr>"

definition ccSyncCtx :: "client_chan \<Rightarrow> client_stream \<Rightarrow> client_stream" where
  "ccSyncCtx ch s = s\<lparr>ctxErr := mergeCtx (chCtxErr ch) (ctxErr s)\<rparr>"

definition ccPutStream :: "nat \<Rightarrow> client_stream \<Rightarrow> uint64 option \<Rightarrow> client_chan \<Rightarrow> client_chan" where
  "ccPutStream k s d ch =
     (let ch1 = ch\<lparr>ccObjs := (ccObjs ch)[k := s]\<rparr> in
      case d of None \<Rightarrow> ch1 | Some i \<Rightarrow> ccRemoveStreamByID i ch1)"

text \<open>An operation on a stream of the channel.\<close>

definition withClient ::
    "nat \<Rightarrow> (client_stream \<Rightarrow> client_chan \<Rightarrow> ('r \<times> client_stream \<times> client_chan \<times> uint64 option) option)
      \<Rightarrow> client_chan \<Rightarrow> ('r \<times> client_chan) option" where
  "withClient k f ch =
     (case f (ccSyncCtx ch (ccObjs ch ! k)) ch of
        None \<Rightarrow> None
      | Some (r, s1, ch1, d) \<Rightarrow> Some (r, ccPutStream k s1 d ch1))"

section \<open>Opening streams\<close>

definition nextStreamID :: "client_chan \<Rightarrow> uint64 \<times> client_chan" where
  "nextStreamID ch = (ccCounter ch + 1, ch\<lparr>ccCounter := ccCounter ch + 1\<rparr>)"

definition newStream :: "err option \<Rightarrow> uint64 \<Rightarrow> client_chan \<Rightarrow> (err + nat) \<times> client_chan" where
  "newStream ctx i ch =
     (case mget (ccStreams ch) i of
        Some k \<Rightarrow> (Inr k, ch)
      | None \<Rightarrow>
          if length (ccStreams ch) = WebRTCMaxStreamCount then (Inl errWebRTCMaxStreams, ch)
          else (Inr (length (ccObjs ch)),
                ch\<lparr>ccObjs := ccObjs ch @ [newWebRTCClientStream (chCtxErr ch) ctx i],
                   ccStreams := mput i (length (ccObjs ch)) (ccStreams ch)\<rparr>))"

text \<open>\<open>mdOut\<close> is the outgoing metadata of the caller's context, \<open>timeout\<close> the time to its deadline (0 for none).\<close>

definition makeRequestHeaders :: "md option \<Rightarrow> int \<Rightarrow> string \<Rightarrow> request_headers" where
  "makeRequestHeaders mdOut timeout method =
     \<lparr> rhMethod = method, rhMetadata = metadataToProto mdOut, rhTimeout = timeout \<rparr>"

definition newClientStream ::
    "request dc_env \<Rightarrow> err option \<Rightarrow> md option \<Rightarrow> int \<Rightarrow> string \<Rightarrow> client_chan \<Rightarrow> ((err + nat) \<times> client_chan) option" where
  "newClientStream env ctx mdOut timeout method ch =
     (case nextStreamID ch of
        (i, ch1) \<Rightarrow>
          (case newStream ctx i ch1 of
             (Inl e, ch2) \<Rightarrow> Some (Inl e, ch2)
           | (Inr k, ch2) \<Rightarrow>
               (case withClient k (csWriteHeaders env (makeRequestHeaders mdOut timeout method)) ch2 of
                  None \<Rightarrow> None
                | Some (Some e, ch3) \<Rightarrow> Some (Inl e, ch3)
                | Some (None, ch3) \<Rightarrow> Some (Inr k, ch3))))"

text \<open>
  The sending part of \<^verbatim>\<open>invoke\<close>: open a stream, write the headers and the only message.  What is left
  of the call is \<^verbatim>\<open>RecvMsg\<close> on the stream.
\<close>

definition invokeSend ::
    "request dc_env \<Rightarrow> nat \<Rightarrow> ('m \<Rightarrow> err + bytes) \<Rightarrow> err option \<Rightarrow> md option \<Rightarrow> int \<Rightarrow> string \<Rightarrow> 'm \<Rightarrow> client_chan
      \<Rightarrow> ((err + nat) \<times> client_chan) option" where
  "invokeSend env n marshalMsg ctx mdOut timeout method args ch =
     (case newClientStream env ctx mdOut timeout method ch of
        None \<Rightarrow> None
      | Some (Inl e, ch1) \<Rightarrow> Some (Inl e, ch1)
      | Some (Inr k, ch1) \<Rightarrow>
          (case withClient k (csWriteMessage env n marshalMsg (Some args) True) ch1 of
             None \<Rightarrow> None
           | Some (Some e, ch2) \<Rightarrow> Some (Inl e, ch2)
           | Some (None, ch2) \<Rightarrow> Some (Inr k, ch2)))"

definition clientRecv ::
    "(bytes \<Rightarrow> err + 'q) \<Rightarrow> bool \<Rightarrow> client_stream \<Rightarrow> client_chan
      \<Rightarrow> ('q recv_result \<times> client_stream \<times> client_chan \<times> uint64 option) option" where
  "clientRecv um pick s ch = map_option (\<lambda>(r, s'). (r, s', ch, None)) (RecvMsg um pick s)"

text \<open>
  The receiving part with the deferred function of \<^verbatim>\<open>invoke\<close>: the headers and trailers that the
  call options ask for.
\<close>

definition invokeRecv ::
    "(bytes \<Rightarrow> err + 'q) \<Rightarrow> bool \<Rightarrow> nat \<Rightarrow> client_chan
      \<Rightarrow> ('q recv_result \<times> md option \<times> md option \<times> client_chan) option" where
  "invokeRecv um pick k ch =
     (case withClient k (clientRecv um pick) ch of
        None \<Rightarrow> None
      | Some (r, ch1) \<Rightarrow> Some (r, csHeaders (ccObjs ch1 ! k), csTrailers (ccObjs ch1 ! k), ch1))"

section \<open>Frames and closing\<close>

definition clientResponse ::
    "(grpc_status option \<Rightarrow> err option) \<Rightarrow> bool \<Rightarrow> response \<Rightarrow> client_stream \<Rightarrow> client_chan
      \<Rightarrow> (unit \<times> client_stream \<times> client_chan \<times> uint64 option) option" where
  "clientResponse stErr pick resp s ch = map_option (\<lambda>(s', d). ((), s', ch, d)) (onResponse stErr pick resp s)"

definition ccOnChannelMessage ::
    "(grpc_status option \<Rightarrow> err option) \<Rightarrow> (bytes \<Rightarrow> err + response) \<Rightarrow> bool \<Rightarrow> bytes \<Rightarrow> client_chan \<Rightarrow> client_chan option" where
  "ccOnChannelMessage stErr unmarshalResp pickCtx data ch =
     (case unmarshalResp data of
        Inl _ \<Rightarrow> Some ch
      | Inr resp \<Rightarrow>
          (case respStream resp of
             None \<Rightarrow> Some ch
           | Some i \<Rightarrow>
               (case mget (ccStreams ch) i of
                  None \<Rightarrow> Some ch
                | Some k \<Rightarrow> map_option snd (withClient k (clientResponse stErr pickCtx resp) ch))))"

definition clientClose ::
    "client_stream \<Rightarrow> client_chan \<Rightarrow> (unit \<times> client_stream \<times> client_chan \<times> uint64 option) option" where
  "clientClose s ch = map_option (\<lambda>(s', d). ((), s', ch, d)) (csClose s)"

text \<open>\<^verbatim>\<open>Close\<close> closes a copy of the table's streams one after the other, then the channel.\<close>

fun closeStreams :: "(uint64, nat) gomap \<Rightarrow> client_chan \<Rightarrow> client_chan option" where
  "closeStreams [] ch = Some ch"
| "closeStreams ((i, k) # rest) ch =
     (case withClient k clientClose ch of None \<Rightarrow> None | Some (_, ch1) \<Rightarrow> closeStreams rest ch1)"

definition ccClose :: "request dc_env \<Rightarrow> client_chan \<Rightarrow> (err option \<times> client_chan) option" where
  "ccClose env ch = (case closeStreams (ccStreams ch) ch of None \<Rightarrow> None | Some ch1 \<Rightarrow> bcClose env ch1)"

section \<open>The contract of a stream operation\<close>

definition cc_inv :: "client_chan \<Rightarrow> bool" where
  "cc_inv ch \<longleftrightarrow> tableOK (ccObjs ch) (ccStreams ch)"

definition ccSame :: "client_chan \<Rightarrow> client_chan \<Rightarrow> bool" where
  "ccSame ch ch' \<longleftrightarrow> ccObjs ch' = ccObjs ch \<and> ccStreams ch' = ccStreams ch \<and> ccCounter ch' = ccCounter ch"

lemma ccSame_refl [simp]: "ccSame ch ch"
  by (simp add: ccSame_def)

lemma ccSame_trans: "ccSame a b \<Longrightarrow> ccSame b c \<Longrightarrow> ccSame a c"
  by (simp add: ccSame_def)

lemma ccSyncCtx_keeps [simp]: "bsId (ccSyncCtx ch s) = bsId s" "bsClosed (ccSyncCtx ch s) = bsClosed s"
  by (simp_all add: ccSyncCtx_def)

lemma ccPutStream_table:
  "ccObjs (ccPutStream k s d ch) = (ccObjs ch)[k := s]"
  "ccStreams (ccPutStream k s d ch) = tableAfter d (ccStreams ch)"
  "ccCounter (ccPutStream k s d ch) = ccCounter ch"
  by (cases d; simp add: ccPutStream_def ccRemoveStreamByID_def tableAfter_def)+

locale client_op =
  fixes f :: "client_stream \<Rightarrow> client_chan \<Rightarrow> ('r \<times> client_stream \<times> client_chan \<times> uint64 option) option"
  assumes f_announces: "f s ch = Some (r, s', ch', d) \<Longrightarrow> announces s s' d"
    and f_table: "f s ch = Some (r, s', ch', d) \<Longrightarrow> ccSame ch ch'"
begin

lemma withClient_inv:
  assumes "cc_inv ch" "k < length (ccObjs ch)" "withClient k f ch = Some (r, ch')"
  shows "cc_inv ch'" "length (ccObjs ch') = length (ccObjs ch)" "ccCounter ch' = ccCounter ch"
proof -
  obtain s1 ch1 d where r: "f (ccSyncCtx ch (ccObjs ch ! k)) ch = Some (r, s1, ch1, d)"
    and ch': "ch' = ccPutStream k s1 d ch1"
    using assms(3) by (auto simp: withClient_def split: option.splits)
  have "announces (ccObjs ch ! k) s1 d"
    using f_announces [OF r] by (rule announces_shift) simp_all
  then show "cc_inv ch'" "length (ccObjs ch') = length (ccObjs ch)" "ccCounter ch' = ccCounter ch"
    using tableOK_update [OF _ assms(2)] assms(1) f_table [OF r]
    by (simp_all add: cc_inv_def ccSame_def ch' ccPutStream_table)
qed

end

lemma bcWrite_ccSame: "bcWrite env f ch = Some (e, ch') \<Longrightarrow> ccSame ch ch'"
  by (elim bcWrite_elim) (simp_all add: ccSame_def)

lemma writeAll_ccSame: "writeAll (\<lambda>p c. bcWrite env (fr p) c) ps ch = Some (e, ch') \<Longrightarrow> ccSame ch ch'"
proof (induction ps arbitrary: ch)
  case (Cons p ps)
  obtain e1 ch1 where w: "bcWrite env (fr p) ch = Some (e1, ch1)"
    using Cons.prems by (auto simp: bind_eq_Some_conv)
  then show ?case
    using Cons.prems Cons.IH [of ch1] bcWrite_ccSame [OF w] by (cases e1) (auto intro: ccSame_trans)
qed simp

lemma csWriteMessage_ccSame:
  assumes "0 < n" "csWriteMessage env n mm m eos s ch = Some (e, s', ch', d)"
  shows "ccSame ch ch'"
  using assms(2)
  by (auto simp: csWriteMessage_def writeBody_def sendPackets_writeAll [OF assms(1)] Let_def
      split: if_splits option.splits sum.splits dest!: writeAll_ccSame)

interpretation c_headers: client_op "csWriteHeaders env h" for env h
  by unfold_locales
    (auto dest: csWriteHeaders_announces, auto simp: csWriteHeaders_def split: option.splits dest: bcWrite_ccSame)

interpretation c_message: client_op "csWriteMessage env (Suc n) mm m eos" for env n mm m eos
  by unfold_locales (auto dest: csWriteMessage_announces csWriteMessage_ccSame [rotated])

interpretation c_recv: client_op "clientRecv um pick" for um pick
  by unfold_locales (auto simp: clientRecv_def dest: RecvMsg_announces)

interpretation c_response: client_op "clientResponse stErr pick resp" for stErr pick resp
  by unfold_locales (auto simp: clientResponse_def dest: onResponse_announces)

interpretation c_close: client_op clientClose
  by unfold_locales (auto simp: clientClose_def dest: csClose_announces)

interpretation c_watch: client_op "ctxWatch env" for env
  by unfold_locales
    (auto dest: ctxWatch_announces,
     auto simp: ctxWatch_def resetStream_def split: if_splits option.splits dest: bcWrite_ccSame)

lemma ccNewStream_inv:
  assumes "cc_inv ch" "newStream ctx i ch = (r, ch')"
  shows "cc_inv ch'" "r = Inr k \<Longrightarrow> k < length (ccObjs ch')" "ccCounter ch' = ccCounter ch"
proof -
  let ?s = "newWebRTCClientStream (chCtxErr ch) ctx i"
  have "bsId ?s = i" "\<not> bsClosed ?s"
    by (simp_all add: newWebRTCClientStream_def newWebRTCBaseStream_def base_stream.defs)
  then show "cc_inv ch'" "r = Inr k \<Longrightarrow> k < length (ccObjs ch')" "ccCounter ch' = ccCounter ch"
    using assms tableOK_new [of "ccObjs ch" "ccStreams ch" i ?s] tableOK_index [of "ccObjs ch" "ccStreams ch" i k]
    by (auto simp: newStream_def cc_inv_def split: option.splits if_splits)
qed

lemma nextStreamID_inv: "cc_inv ch \<Longrightarrow> nextStreamID ch = (i, ch') \<Longrightarrow> cc_inv ch'"
  by (auto simp: nextStreamID_def cc_inv_def)

lemma newClientStream_inv:
  assumes "cc_inv ch" "newClientStream env ctx mdOut t method ch = Some (r, ch')"
  shows "cc_inv ch'" "r = Inr k \<Longrightarrow> k < length (ccObjs ch')"
proof -
  obtain i ch1 where n: "nextStreamID ch = (i, ch1)"
    by (cases "nextStreamID ch")
  obtain q ch2 where s: "newStream ctx i ch1 = (q, ch2)"
    by (cases "newStream ctx i ch1")
  note inv2 = ccNewStream_inv [OF nextStreamID_inv [OF assms(1) n] s]
  have "cc_inv ch' \<and> (\<forall>k. r = Inr k \<longrightarrow> k < length (ccObjs ch'))"
  proof (cases q)
    case (Inl e)
    then show ?thesis
      using assms(2) n s inv2(1) by (auto simp: newClientStream_def)
  next
    case (Inr j)
    obtain e ch3 where w: "withClient j (csWriteHeaders env (makeRequestHeaders mdOut t method)) ch2 = Some (e, ch3)"
      using assms(2) n s Inr by (auto simp: newClientStream_def split: option.splits)
    note inv3 = c_headers.withClient_inv [OF inv2(1) inv2(2) [OF Inr] w]
    have "ch' = ch3" "r = Inr j \<or> (\<exists>x. r = Inl x)"
      using assms(2) n s Inr w by (auto simp: newClientStream_def split: option.splits)
    then show ?thesis
      using inv3 inv2(2) [OF Inr] by auto
  qed
  then show "cc_inv ch'" "r = Inr k \<Longrightarrow> k < length (ccObjs ch')"
    by blast+
qed

section \<open>Properties\<close>

text \<open>The identifiers of the next \<open>n\<close> streams.\<close>

fun streamIDs :: "nat \<Rightarrow> client_chan \<Rightarrow> uint64 list" where
  "streamIDs 0 ch = []"
| "streamIDs (Suc n) ch = (case nextStreamID ch of (i, ch') \<Rightarrow> i # streamIDs n ch')"

lemma streamIDs_eq: "streamIDs n ch = map (\<lambda>k. ccCounter ch + of_nat (Suc k)) [0..<n]"
proof (induction n arbitrary: ch)
  case (Suc n)
  have "streamIDs (Suc n) ch = (ccCounter ch + 1) # map (\<lambda>k. ccCounter ch + 1 + of_nat (Suc k)) [0..<n]"
    using Suc [of "ch\<lparr>ccCounter := ccCounter ch + 1\<rparr>"] by (simp add: nextStreamID_def)
  also have "\<dots> = map (\<lambda>k. ccCounter ch + of_nat (Suc k)) (0 # map Suc [0..<n])"
    by (simp add: algebra_simps)
  also have "0 # map Suc [0..<n] = [0..<Suc n]"
    by (simp add: map_Suc_upt upt_conv_Cons)
  finally show ?case .
qed simp

text \<open>
  The identifiers a client draws are pairwise different for as many streams as there are 64-bit
  numbers, whatever the counter stands at: it takes that many calls before one is used again.
\<close>

lemma stream_ids_distinct:
  assumes "n \<le> 2 ^ 64"
  shows "distinct (streamIDs n ch)"
proof -
  have "inj_on (\<lambda>k. ccCounter ch + of_nat (Suc k)) {0..<n}"
  proof (rule inj_onI)
    fix j k
    assume "j \<in> {0..<n}" "k \<in> {0..<n}" "ccCounter ch + of_nat (Suc j) = ccCounter ch + of_nat (Suc k)"
    then have "(of_nat j :: uint64) = of_nat k" "j < 2 ^ 64" "k < 2 ^ 64"
      using assms by auto
    then show "j = k"
      by (simp add: word_of_nat_eq_iff take_bit_nat_eq_self)
  qed
  then show ?thesis
    unfolding streamIDs_eq by (simp add: distinct_map)
qed

lemma clientClose_closed: "clientClose s ch = Some (u, s', ch', d) \<Longrightarrow> bsClosed s'"
  by (auto simp: clientClose_def csClose_def baseClose_def closeWithError_def closeRecv_def Let_def split: if_splits)

lemma closeStreams_closes:
  assumes "closeStreams tab ch = Some ch'" "cc_inv ch" "\<forall>i k. mget (ccStreams ch) i = Some k \<longrightarrow> k \<in> snd ` set tab"
    "\<forall>k \<in> snd ` set tab. k < length (ccObjs ch)"
  shows "cc_inv ch' \<and> ccStreams ch' = []"
  using assms
proof (induction tab arbitrary: ch)
  case Nil
  then have "mget (ccStreams ch) = Map.empty"
    by (metis empty_iff image_empty list.set(1) not_None_eq)
  then have "ccStreams ch = []"
    by simp
  then show ?case
    using Nil by simp
next
  case (Cons x tab)
  obtain i k where x: "x = (i, k)"
    by (cases x)
  obtain u ch1 where w: "withClient k clientClose ch = Some (u, ch1)" and rest: "closeStreams tab ch1 = Some ch'"
    using Cons.prems(1) x by (auto split: option.splits)
  have k: "k < length (ccObjs ch)"
    using Cons.prems(4) x by simp
  note inv = c_close.withClient_inv [OF Cons.prems(2) k w]
  obtain s1 d where s1: "bsClosed s1" "ccObjs ch1 = (ccObjs ch)[k := s1]" "ccStreams ch1 = tableAfter d (ccStreams ch)"
    using w by (auto simp: withClient_def ccPutStream_table clientClose_def split: option.splits
        dest: clientClose_closed [unfolded clientClose_def] intro: that)
      (metis (no_types, lifting) clientClose_closed clientClose_def map_option_eq_Some case_prod_conv)
  have "p \<in> snd ` set tab" if "mget (ccStreams ch1) j = Some p" for j p
  proof -
    have "mget (ccStreams ch) j = Some p"
      using that s1(3) by (auto simp: tableAfter_def split: option.splits if_splits)
    moreover have "p \<noteq> k"
      using that inv(1) s1 k by (auto simp: cc_inv_def tableOK_def)
    ultimately show ?thesis
      using Cons.prems(3) x by auto
  qed
  then show ?case
    using Cons.IH [OF rest inv(1)] Cons.prems(4) inv(2) by auto
qed

lemma tableOK_empty_closed: "tableOK objs [] \<Longrightarrow> k < length objs \<Longrightarrow> bsClosed (objs ! k)"
  by (simp add: tableOK_def)

text \<open>
  C35. \<^verbatim>\<open>Close\<close> of a connection that returns has closed every one of its streams: none is left in the
  table, and no stream object is open.
\<close>

theorem close_ends_all_streams:
  assumes "cc_inv ch" "ccClose env ch = Some (e, ch')"
  shows "ccStreams ch' = [] \<and> (\<forall>k < length (ccObjs ch'). bsClosed (ccObjs ch' ! k)) \<and> bcClosed ch'"
proof -
  obtain ch1 where c: "closeStreams (ccStreams ch) ch = Some ch1" and b: "bcClose env ch1 = Some (e, ch')"
    using assms(2) by (auto simp: ccClose_def split: option.splits)
  have "k \<in> snd ` set (ccStreams ch)" if "mget (ccStreams ch) i = Some k" for i k
    using map_of_SomeD [OF that] by force
  moreover have "k < length (ccObjs ch)" if "k \<in> snd ` set (ccStreams ch)" for k
    using that assms(1) by (auto simp: cc_inv_def tableOK_def)
  ultimately have "cc_inv ch1 \<and> ccStreams ch1 = []"
    using closeStreams_closes [OF c assms(1)] by blast
  moreover have "ccStreams ch' = ccStreams ch1" "ccObjs ch' = ccObjs ch1" "bcClosed ch'"
    using b by (auto simp: bcClose_def closeWithReason_def Let_def split: if_splits)
  ultimately show ?thesis
    using tableOK_empty_closed by (auto simp: cc_inv_def)
qed

definition demoClient :: client_chan where
  "demoClient = (snd (newStream None 1 (newWebRTCClientChannel ICENew)))\<lparr>bcWorkers := []\<rparr>"

lemma newWebRTCClientChannel_inv: "cc_inv (newWebRTCClientChannel st)"
  by (simp add: cc_inv_def newWebRTCClientChannel_def newBaseChannel_def connStateChanged_def base_channel.defs)

lemma demoClient_inv: "cc_inv demoClient"
  using ccNewStream_inv(1) [OF newWebRTCClientChannel_inv prod.collapse [symmetric]]
  by (simp add: demoClient_def cc_inv_def)

definition noEnv :: "request dc_env" where
  "noEnv = \<lparr> marshal = (\<lambda>_. Inr []), readings = (\<lambda>_. [(False, 0)]), sendRes = (\<lambda>_ _. None),
     gracefulClose = None, errorText = (\<lambda>_. []), statsID = [] \<rparr>"

theorem close_ends_all_streams_witness:
  "\<exists>ch'. length (ccStreams demoClient) = 1 \<and> ccClose noEnv demoClient = Some (None, ch') \<and> ccStreams ch' = []"
proof -
  have d: "demoClient = base_channel.extend ((newBaseChannel None ICENew)\<lparr>bcWorkers := []\<rparr>)
      \<lparr> ccCounter = 0, ccObjs = [newWebRTCClientStream None None 1], ccStreams = [(1, 0)] \<rparr>"
    by (simp add: demoClient_def newStream_def newWebRTCClientChannel_def newBaseChannel_def connStateChanged_def
        base_channel.defs WebRTCMaxStreamCount_def)
  obtain ch' where c: "ccClose noEnv demoClient = Some (None, ch')"
    by (simp add: d ccClose_def withClient_def clientClose_def csClose_def baseClose_def closeWithError_def
        closeRecv_def ccPutStream_def ccRemoveStreamByID_def bcClose_def closeWithReason_def noEnv_def
        newBaseChannel_def connStateChanged_def base_channel.defs newWebRTCClientStream_def mergeCtx_def
        newWebRTCBaseStream_def base_stream.defs ccSyncCtx_def Let_def)
  show ?thesis
    using c close_ends_all_streams [OF demoClient_inv c]
    by (simp add: d base_channel.defs newBaseChannel_def connStateChanged_def)
qed

end
