(* ===== verification/UnaryCall.thy ===== *)
theory UnaryCall
  imports FrameCodec ServerChannel ClientChannel
begin

text \<open>
  A whole unary call over a data channel, across all components of gRPC over WebRTC: \<^verbatim>\<open>invoke\<close> of the
  client channel writes its frames, the server channel dispatches them and starts the handler, the
  handler writes the response, the client channel dispatches that, and \<^verbatim>\<open>invoke\<close> returns.  The data
  channel is reliable and ordered, so each side is fed the payloads of the other in order.
\<close>

section \<open>Feeding payloads\<close>

fun serverFeed ::
    "err_env \<Rightarrow> response dc_env \<Rightarrow> (bytes \<Rightarrow> err + request) \<Rightarrow> bytes list \<Rightarrow> 'h webrtc_server \<Rightarrow> server_chan
      \<Rightarrow> ('h webrtc_server \<times> server_chan \<times> (nat \<times> 'h handler) list) option" where
  "serverFeed E env um [] srv ch = Some (srv, ch, [])"
| "serverFeed E env um (p # ps) srv ch =
     (case onChannelMessage E env um False p srv ch of
        None \<Rightarrow> None
      | Some (srv1, ch1, h) \<Rightarrow>
          (case serverFeed E env um ps srv1 ch1 of
             None \<Rightarrow> None
           | Some (srv2, ch2, hs) \<Rightarrow> Some (srv2, ch2, (case h of None \<Rightarrow> hs | Some x \<Rightarrow> x # hs))))"

fun clientFeed ::
    "(grpc_status option \<Rightarrow> err option) \<Rightarrow> (bytes \<Rightarrow> err + response) \<Rightarrow> bytes list \<Rightarrow> client_chan \<Rightarrow> client_chan option" where
  "clientFeed stErr um [] ch = Some ch"
| "clientFeed stErr um (p # ps) ch =
     (case ccOnChannelMessage stErr um False p ch of None \<Rightarrow> None | Some ch1 \<Rightarrow> clientFeed stErr um ps ch1)"

lemma serverFeed_Cons:
  assumes "onChannelMessage E env um False p srv ch = Some (srv1, ch1, h)"
    "serverFeed E env um ps srv1 ch1 = Some (srv2, ch2, hs)"
  shows "serverFeed E env um (p # ps) srv ch = Some (srv2, ch2, (case h of None \<Rightarrow> hs | Some x \<Rightarrow> x # hs))"
  using assms by simp

lemma clientFeed_Cons:
  assumes "ccOnChannelMessage stErr um False p ch = Some ch1"
  shows "clientFeed stErr um (p # ps) ch = clientFeed stErr um ps ch1"
  using assms by simp

lemma clientFeed_append:
  "clientFeed stErr um (ps @ qs) ch =
     (case clientFeed stErr um ps ch of None \<Rightarrow> None | Some ch1 \<Rightarrow> clientFeed stErr um qs ch1)"
  by (induction ps arbitrary: ch) (auto split: option.splits)

section \<open>The client sends\<close>

lemma wireAfter_tables [simp]:
  "ccStreams (wireAfter env fs c) = ccStreams c" "ccObjs (wireAfter env fs c) = ccObjs c"
  "scStreams (wireAfter env' gs d) = scStreams d" "scObjs (wireAfter env' gs d) = scObjs d"
  by (simp_all add: wireAfter_def)

lemma withClient_eq:
  assumes "f (ccSyncCtx ch (ccObjs ch ! k)) ch = Some (r, s, wireAfter env fs ch, None)"
  shows "withClient k f ch = Some (r, (wireAfter env fs ch)\<lparr>ccObjs := (ccObjs ch)[k := s]\<rparr>)"
  using assms by (simp add: withClient_def ccPutStream_def wireAfter_def)

lemma closeOnWriteErr_None [simp]: "closeOnWriteErr None s = Some (s, None)"
  by (simp add: closeOnWriteErr_def checkWriteErrForStreamClose_def)

text \<open>The frames of the request message.\<close>

definition argFrame :: "uint64 \<Rightarrow> packet_message \<Rightarrow> request" where
  "argFrame i p = reqFrame i (ReqMessage \<lparr> rmHasMessage = True, rmPacket = Some p, rmEos = True \<rparr>)"

lemma ccSyncCtx_live: "chCtxErr ch = None \<Longrightarrow> ccSyncCtx ch s = s"
  by (simp add: ccSyncCtx_def mergeCtx_def)

lemma invokeSend_good:
  fixes ch :: client_chan
  defines "i \<equiv> ccCounter ch + 1" and "k \<equiv> length (ccObjs ch)"
  assumes "goodEnv env" "chCtxErr ch = None" "0 < n" "marshalMsg args = Inr data"
    "mget (ccStreams ch) i = None" "length (ccStreams ch) \<noteq> WebRTCMaxStreamCount"
  shows "\<exists>ch'. invokeSend env n marshalMsg None mdOut timeout method args ch = Some (Inr k, ch') \<and>
    bcWire ch' = bcWire ch @ map (payload env)
      (reqFrame i (ReqHeaders (Some (makeRequestHeaders mdOut timeout method))) # map (argFrame i) (packetsOf n data)) \<and>
    ccObjs ch' = ccObjs ch @ [(newWebRTCClientStream None None i)\<lparr>csSendClosed := True\<rparr>] \<and>
    ccStreams ch' = mput i k (ccStreams ch) \<and> chCtxErr ch' = None"
proof -
  let ?h = "reqFrame i (ReqHeaders (Some (makeRequestHeaders mdOut timeout method)))"
  let ?s = "newWebRTCClientStream None None i"
  let ?c = "ch\<lparr>ccCounter := i, ccObjs := ccObjs ch @ [?s], ccStreams := mput i k (ccStreams ch)\<rparr>"
  have new: "newStream None i (ch\<lparr>ccCounter := i\<rparr>) = (Inr k, ?c)"
    using assms by (simp add: newStream_def)
  have live: "chCtxErr ?c = None"
    using assms by simp
  have id: "bsId ?s = i" "\<not> csSendClosed ?s"
    by (simp_all add: newWebRTCClientStream_def newWebRTCBaseStream_def base_stream.defs)
  have at_k: "(ccObjs ch @ [x]) ! k = x" "(ccObjs ch @ [x])[k := y] = ccObjs ch @ [y]" for x y
    by (simp_all add: k_def)
  let ?c1 = "(wireAfter env [?h] ?c)\<lparr>ccObjs := ccObjs ch @ [?s]\<rparr>"
  have hdr: "withClient k (csWriteHeaders env (makeRequestHeaders mdOut timeout method)) ?c = Some (None, ?c1)"
    by (subst withClient_eq [where s = ?s and fs = "[?h]" and env = env])
      (simp_all add: csWriteHeaders_def bcWrite_good [OF assms(3) live] ccSyncCtx_live [OF live] id at_k)
  have stream: "newClientStream env None mdOut timeout method ch = Some (Inr k, ?c1)"
    using new hdr by (simp add: newClientStream_def nextStreamID_def i_def)
  let ?ms = "map (argFrame i) (packetsOf n data)"
  have live1: "chCtxErr ?c1 = None"
    using assms by simp
  have body: "writeBody env n marshalMsg (Some args) True i ?c1 = Some (None, wireAfter env ?ms ?c1)"
    using writeAll_good [OF assms(3) live1, of "argFrame i"] assms(4,5,6)
    by (simp add: writeBody_def sendPackets_writeAll argFrame_def)
  have msg: "withClient k (csWriteMessage env n marshalMsg (Some args) True) ?c1 =
      Some (None, (wireAfter env ?ms ?c1)\<lparr>ccObjs := ccObjs ch @ [?s\<lparr>csSendClosed := True\<rparr>]\<rparr>)"
    by (subst withClient_eq [where s = "?s\<lparr>csSendClosed := True\<rparr>" and fs = ?ms and env = env])
      (simp_all add: csWriteMessage_def ccSyncCtx_live [OF live1] id at_k body Let_def)
  show ?thesis
    using stream msg assms(4) by (simp add: invokeSend_def)
qed

section \<open>The server receives\<close>

lemma syncCtx_live: "chCtxErr ch = None \<Longrightarrow> syncCtx ch s = s"
  by (cases "ctxErr s") (simp_all add: syncCtx_def)

lemma onChannelMessage_known:
  assumes "um p = Inr req" "reqStream req = Some i" "mget (scStreams ch) i = Some k" "chCtxErr ch = None"
    "onRequest E env False req srv (scObjs ch ! k) ch = Some (srv', s', ch, None, h)"
  shows "onChannelMessage E env um False p srv ch =
    Some (srv', ch\<lparr>scObjs := (scObjs ch)[k := s']\<rparr>, map_option (Pair k) h)"
  using assms by (simp add: onChannelMessage_def dispatch_def syncCtx_live putStream_def)

lemma serverFeed_headers:
  fixes ch :: server_chan
  assumes "um p = Inr (reqFrame i (ReqHeaders (Some hs)))" "mget (scStreams ch) i = None"
    "length (scStreams ch) \<noteq> WebRTCMaxStreamCount" "chCtxErr ch = None" "0 \<le> rhTimeout hs"
    "admit (rhMethod hs) srv = (Started h, srv')"
  shows "onChannelMessage E env um False p srv ch =
    Some (srv', ch\<lparr>scObjs := scObjs ch @ [(newWebRTCServerStream None (rhMethod hs) i)\<lparr>ssHeadersReceived := True\<rparr>],
      scStreams := mput i (length (scObjs ch)) (scStreams ch)\<rparr>, Some (length (scObjs ch), h))"
proof -
  have r: "ssHeadersReceived (newWebRTCServerStream None m i) = False" for m
    by (simp add: newWebRTCServerStream_def newWebRTCBaseStream_def base_stream.defs)
  show ?thesis
    using assms
    by (simp add: onChannelMessage_def reqFrame_def handlerCtx_def dispatch_def syncCtx_live onRequest_def r
        processHeaders_def putStream_def Let_def)
qed

text \<open>A stream that has its headers and waits for its message.\<close>

definition awaiting :: "server_stream \<Rightarrow> bool" where
  "awaiting s \<longleftrightarrow> ssHeadersReceived s \<and> \<not> recvClosed s \<and> msgCh s = [] \<and> ctxErr s = None \<and> activeSenders s = 0"

lemma onRequest_partial:
  assumes "awaiting s" "\<not> pmEom p" "length (packetBuf s) + length (pmData p) \<le> MaxMessageSize"
  shows "onRequest E env False (argFrame i p) srv s ch =
    Some (srv, s\<lparr>packetBuf := packetBuf s @ pmData p\<rparr>, ch, None, None)"
  using assms
  by (simp add: onRequest_def argFrame_def reqFrame_def awaiting_def ssProcessMessage_def processMessage_def Let_def)

lemma onRequest_last:
  assumes "awaiting s" "pmEom p" "length (packetBuf s) + length (pmData p) \<le> MaxMessageSize"
    "pmData p = [] \<longrightarrow> packetBuf s = []"
  shows "onRequest E env False (argFrame i p) srv s ch =
    Some (srv, s\<lparr>packetBuf := [], msgCh := [packetBuf s @ pmData p], recvClosed := True, msgChClosed := True\<rparr>, ch, None, None)"
  using assms
  by (cases "pmData p = []")
    (simp_all add: onRequest_def argFrame_def reqFrame_def awaiting_def ssProcessMessage_def processMessage_def
      deliver_def msgChCap_def closeAtEos_def CloseRecv_def closeRecv_def Let_def)

lemma serverFeed_train:
  fixes ch :: server_chan
  assumes "train ps" "\<And>f. um (enc f) = Inr f" "mget (scStreams ch) i = Some k" "k < length (scObjs ch)"
    "chCtxErr ch = None" "scObjs ch ! k = s" "awaiting s"
    "length (packetBuf s) + length (concat (map pmData ps)) \<le> MaxMessageSize"
    "packetBuf s \<noteq> [] \<longrightarrow> pmData (hd ps) \<noteq> []"
  shows "serverFeed E env um (map (\<lambda>p. enc (argFrame i p)) ps) srv ch =
    Some (srv, ch\<lparr>scObjs := (scObjs ch)[k := s\<lparr>packetBuf := [], msgCh := [packetBuf s @ concat (map pmData ps)],
      recvClosed := True, msgChClosed := True\<rparr>]\<rparr>, [])"
  using assms
proof (induction ps arbitrary: s ch rule: train.induct)
  case (2 p)
  have "onChannelMessage E env um False (enc (argFrame i p)) srv ch =
      Some (srv, ch\<lparr>scObjs := (scObjs ch)[k := s\<lparr>packetBuf := [], msgCh := [packetBuf s @ pmData p],
        recvClosed := True, msgChClosed := True\<rparr>]\<rparr>, map_option (Pair k) None)"
    using 2 by (intro onChannelMessage_known [of _ _ "argFrame i p" i])
      (auto simp: onRequest_last argFrame_def [of i p, THEN arg_cong [of _ _ reqStream]] reqFrame_def)
  then show ?case
    by simp
next
  case (3 p q ps)
  let ?s = "s\<lparr>packetBuf := packetBuf s @ pmData p\<rparr>"
  let ?ch = "ch\<lparr>scObjs := (scObjs ch)[k := ?s]\<rparr>"
  have first: "onChannelMessage E env um False (enc (argFrame i p)) srv ch = Some (srv, ?ch, map_option (Pair k) None)"
    using 3 by (intro onChannelMessage_known [of _ _ "argFrame i p" i])
      (auto simp: onRequest_partial argFrame_def [of i p, THEN arg_cong [of _ _ reqStream]] reqFrame_def)
  have rest: "serverFeed E env um (map (\<lambda>p. enc (argFrame i p)) (q # ps)) srv ?ch =
    Some (srv, ?ch\<lparr>scObjs := (scObjs ?ch)[k := ?s\<lparr>packetBuf := [], msgCh := [packetBuf ?s @ concat (map pmData (q # ps))],
      recvClosed := True, msgChClosed := True\<rparr>]\<rparr>, [])"
    using 3 by (intro "3.IH") (auto simp: awaiting_def)
  show ?case
    using serverFeed_Cons [OF first rest] by (simp del: serverFeed.simps)
qed simp

section \<open>The client receives\<close>

lemma ccOnChannelMessage_known:
  assumes "um p = Inr resp" "respStream resp = Some i" "mget (ccStreams ch) i = Some k" "chCtxErr ch = None"
    "onResponse stErr False resp (ccObjs ch ! k) = Some (s', d)"
  shows "ccOnChannelMessage stErr um False p ch = Some (ccPutStream k s' d ch)"
  using assms by (simp add: ccOnChannelMessage_def withClient_def clientResponse_def ccSyncCtx_live)

definition collecting :: "client_stream \<Rightarrow> bool" where
  "collecting s \<longleftrightarrow> csHeadersReceived s \<and> \<not> csTrailersReceived s \<and> \<not> recvClosed s \<and> msgCh s = [] \<and> ctxErr s = None"

lemma csProcessMessage_partial:
  assumes "collecting s" "\<not> pmEom p" "length (packetBuf s) + length (pmData p) \<le> MaxMessageSize"
  shows "csProcessMessage False \<lparr> rspPacket = p \<rparr> s = s\<lparr>packetBuf := packetBuf s @ pmData p\<rparr>"
  using assms by (simp add: csProcessMessage_def processMessage_def collecting_def Let_def)

lemma csProcessMessage_last:
  assumes "collecting s" "pmEom p" "length (packetBuf s) + length (pmData p) \<le> MaxMessageSize"
    "pmData p = [] \<longrightarrow> packetBuf s = []"
  shows "csProcessMessage False \<lparr> rspPacket = p \<rparr> s = s\<lparr>packetBuf := [], msgCh := [packetBuf s @ pmData p]\<rparr>"
  using assms
  by (cases "pmData p = []")
    (simp_all add: csProcessMessage_def processMessage_def collecting_def deliver_def msgChCap_def Let_def)

lemma onResponse_message:
  assumes "collecting s"
  shows "onResponse stErr False (messageFrame i p) s = Some (csProcessMessage False \<lparr> rspPacket = p \<rparr> s, None)"
  using assms by (simp add: onResponse_def messageFrame_def collecting_def)

lemma respStream_messageFrame [simp]: "respStream (messageFrame i p) = Some i"
  by (simp add: messageFrame_def)

lemma clientFeed_train:
  fixes ch :: client_chan
  assumes "train ps" "\<And>f. um (enc f) = Inr f" "mget (ccStreams ch) i = Some k" "k < length (ccObjs ch)"
    "chCtxErr ch = None" "ccObjs ch ! k = s" "collecting s"
    "length (packetBuf s) + length (concat (map pmData ps)) \<le> MaxMessageSize"
    "packetBuf s \<noteq> [] \<longrightarrow> pmData (hd ps) \<noteq> []"
  shows "clientFeed stErr um (map (\<lambda>p. enc (messageFrame i p)) ps) ch =
    Some (ch\<lparr>ccObjs := (ccObjs ch)[k := s\<lparr>packetBuf := [], msgCh := [packetBuf s @ concat (map pmData ps)]\<rparr>]\<rparr>)"
  using assms
proof (induction ps arbitrary: s ch rule: train.induct)
  case (2 p)
  have "ccOnChannelMessage stErr um False (enc (messageFrame i p)) ch =
      Some (ccPutStream k (s\<lparr>packetBuf := [], msgCh := [packetBuf s @ pmData p]\<rparr>) None ch)"
    using 2 by (intro ccOnChannelMessage_known [of _ _ "messageFrame i p" i])
      (auto simp: onResponse_message intro!: csProcessMessage_last)
  then show ?case
    by (simp add: ccPutStream_def)
next
  case (3 p q ps)
  let ?s = "s\<lparr>packetBuf := packetBuf s @ pmData p\<rparr>"
  let ?ch = "ch\<lparr>ccObjs := (ccObjs ch)[k := ?s]\<rparr>"
  have first: "ccOnChannelMessage stErr um False (enc (messageFrame i p)) ch = Some (ccPutStream k ?s None ch)"
    using 3 by (intro ccOnChannelMessage_known [of _ _ "messageFrame i p" i])
      (simp_all add: onResponse_message csProcessMessage_partial)
  have rest: "clientFeed stErr um (map (\<lambda>p. enc (messageFrame i p)) (q # ps)) ?ch =
    Some (?ch\<lparr>ccObjs := (ccObjs ?ch)[k := ?s\<lparr>packetBuf := [], msgCh := [packetBuf ?s @ concat (map pmData (q # ps))]\<rparr>]\<rparr>)"
    using 3 by (intro "3.IH") (auto simp: collecting_def)
  show ?case
    using clientFeed_Cons [OF first] rest by (simp add: ccPutStream_def del: clientFeed.simps)
qed simp

lemma onResponse_trailers:
  assumes "base_inv s" "\<not> bsClosed s" "parked s = None"
  shows "\<exists>s'. onResponse stErr False \<lparr> respStream = Some i, respType = RespTrailers tr \<rparr> s = Some (s', Some (bsId s))
    \<and> bsClosed s' \<and> msgCh s' = msgCh s"
proof -
  define u where "u = (let s1 = s\<lparr>csTrailersReceived := True\<rparr> in
      if rtMetadata tr \<noteq> None then s1\<lparr>csTrailers := metadataFromProto (rtMetadata tr)\<rparr> else s1)"
  have u: "base_inv u" "\<not> bsClosed u" "parked u = None" "bsId u = bsId s" "msgCh u = msgCh s"
    using assms by (cases "rtMetadata tr"; simp add: u_def base_inv_def Let_def)+
  have "onResponse stErr False \<lparr> respStream = Some i, respType = RespTrailers tr \<rparr> s = closeFromTrailers (stErr (rtStatus tr)) u"
    by (simp add: onResponse_def processTrailers_def u_def Let_def)
  moreover obtain s' d where c: "closeFromTrailers (stErr (rtStatus tr)) u = Some (s', d)"
    using closeWithError_returns [OF u(1,3)] unfolding closeFromTrailers_def by blast
  ultimately show ?thesis
    using closeWithError_open [OF u(1,2) c [unfolded closeFromTrailers_def]] u(4,5) by simp
qed

lemma clientFeed_response:
  fixes ch :: client_chan
  assumes "\<And>f. um (enc f) = Inr f" "stErr None = None" "mget (ccStreams ch) i = Some k" "k < length (ccObjs ch)"
    "chCtxErr ch = None" "ccObjs ch ! k = (newWebRTCClientStream None None i)\<lparr>csSendClosed := True\<rparr>"
    "0 < n" "length data \<le> MaxMessageSize"
  shows "\<exists>ch'. clientFeed stErr um (map enc (\<lparr> respStream = Some i, respType = RespHeaders hd' \<rparr>
        # map (messageFrame i) (packetsOf n data)
        @ [\<lparr> respStream = Some i, respType = RespTrailers \<lparr> rtStatus = None, rtMetadata = tm \<rparr> \<rparr>])) ch = Some ch' \<and>
      k < length (ccObjs ch') \<and> msgCh (ccObjs ch' ! k) = [data] \<and> bsClosed (ccObjs ch' ! k) \<and>
      mget (ccStreams ch') i = None"
proof -
  let ?s = "(newWebRTCClientStream None None i)\<lparr>csSendClosed := True\<rparr>"
  let ?h = "\<lparr> respStream = Some i, respType = RespHeaders hd' \<rparr>"
  let ?t = "\<lparr> respStream = Some i, respType = RespTrailers \<lparr> rtStatus = None, rtMetadata = tm \<rparr> \<rparr>"
  note new = newWebRTCClientStream_def newWebRTCBaseStream_def base_stream.defs mergeCtx_def
  let ?s1 = "csProcessHeaders hd' ?s"
  let ?ch1 = "ccPutStream k ?s1 None ch"
  have 1: "ccOnChannelMessage stErr um False (enc ?h) ch = Some ?ch1"
    by (rule ccOnChannelMessage_known [of _ _ ?h i])
      (use assms in \<open>simp_all add: onResponse_def new\<close>)
  let ?s2 = "?s1\<lparr>packetBuf := [], msgCh := [data]\<rparr>"
  let ?ch2 = "ch\<lparr>ccObjs := (ccObjs ch)[k := ?s2]\<rparr>"
  have c: "collecting ?s1" "packetBuf ?s1 = []"
    by (simp_all add: collecting_def csProcessHeaders_def new Let_def)
  have 2: "clientFeed stErr um (map (\<lambda>p. enc (messageFrame i p)) (packetsOf n data)) ?ch1 = Some ?ch2"
    by (subst clientFeed_train [where k = k and s = ?s1])
      (use assms c in \<open>simp_all add: packetsOf_train packetsOf_data ccPutStream_def\<close>)
  obtain s3 d where t: "onResponse stErr False ?t ?s2 = Some (s3, d)" "bsClosed s3" "msgCh s3 = [data]" "d = Some i"
  proof -
    have "base_inv ?s2" "\<not> bsClosed ?s2" "parked ?s2 = None" "bsId ?s2 = i"
      by (simp_all add: base_inv_def csProcessHeaders_def new msgChCap_def Let_def)
    then show thesis
      using onResponse_trailers [of ?s2 stErr i "\<lparr> rtStatus = None, rtMetadata = tm \<rparr>"] that by auto
  qed
  have 3: "ccOnChannelMessage stErr um False (enc ?t) ?ch2 = Some (ccPutStream k s3 d ?ch2)"
    by (rule ccOnChannelMessage_known [of _ _ ?t i]) (use assms t(1) in simp_all)
  have "clientFeed stErr um (map enc (?h # map (messageFrame i) (packetsOf n data) @ [?t])) ch
      = Some (ccPutStream k s3 d ?ch2)"
    using clientFeed_Cons [OF 1] 2 3 by (simp add: clientFeed_append comp_def)
  then show ?thesis
    using assms(4) t by (intro exI [of _ "ccPutStream k s3 d ?ch2"]) (simp add: ccPutStream_table tableAfter_def)
qed

section \<open>The whole call\<close>

text \<open>Both ends are ready for a call of \<open>method\<close> under the identifier \<open>i\<close>.\<close>

definition clientReady :: "client_chan \<Rightarrow> bool" where
  "clientReady ch \<longleftrightarrow>
     chCtxErr ch = None \<and> mget (ccStreams ch) (ccCounter ch + 1) = None \<and>
     length (ccStreams ch) \<noteq> WebRTCMaxStreamCount"

definition serverReady :: "string \<Rightarrow> 'h \<Rightarrow> uint64 \<Rightarrow> 'h webrtc_server \<Rightarrow> server_chan \<Rightarrow> bool" where
  "serverReady method h i srv ch \<longleftrightarrow>
     chCtxErr ch = None \<and> \<not> bcClosed ch \<and> mget (scStreams ch) i = None \<and>
     length (scStreams ch) \<noteq> WebRTCMaxStreamCount \<and>
     mget (srvHandlers srv) method = Some (UnaryHandler h) \<and> srvCtxErr srv = None \<and>
     srvTickets srv < DefaultWebRTCMaxGRPCCalls"

lemma serverReady_admit:
  "serverReady method h i srv ch \<Longrightarrow> \<exists>srv'. admit method srv = (Started (UnaryHandler h), srv')"
  by (simp add: serverReady_def admit_def lookupHandler_def)

text \<open>The server's half: from the request frames to the response frames.\<close>

lemma server_half:
  fixes sch :: server_chan
  assumes "serverReady method h i srv sch" "codec envC umReq" "codec envS umResp" "status_laws E" "0 \<le> timeout" "0 < nC" "0 < nS"
    "length qb \<le> MaxMessageSize" "umQ qb = Inr req" "g (RecvOk req) = Inr resp" "marshalResp resp = Inr rb"
  shows "\<exists>srv1 sch1 sch2 hf tf.
      serverFeed E envS umReq (map (payload envC) (reqFrame i (ReqHeaders (Some (makeRequestHeaders mdOut timeout method)))
          # map (argFrame i) (packetsOf nC qb))) srv sch = Some (srv1, sch1, [(length (scObjs sch), UnaryHandler h)]) \<and>
      withStream (length (scObjs sch)) (unaryHandler E envS nS umQ marshalResp g pick) sch1 = Some (None, sch2) \<and>
      bcWire sch2 = bcWire sch @ map (payload envS) (\<lparr> respStream = Some i, respType = RespHeaders hf \<rparr>
        # map (messageFrame i) (packetsOf nS rb)
        @ [\<lparr> respStream = Some i, respType = RespTrailers \<lparr> rtStatus = None, rtMetadata = tf \<rparr> \<rparr>]) \<and>
      mget (scStreams sch2) i = None"
proof -
  let ?k = "length (scObjs sch)"
  let ?hs = "makeRequestHeaders mdOut timeout method"
  let ?s0 = "(newWebRTCServerStream None method i)\<lparr>ssHeadersReceived := True\<rparr>"
  let ?c0 = "sch\<lparr>scObjs := scObjs sch @ [?s0], scStreams := mput i ?k (scStreams sch)\<rparr>"
  note new = newWebRTCServerStream_def newWebRTCBaseStream_def base_stream.defs
  have r: "chCtxErr sch = None" "\<not> bcClosed sch" "mget (scStreams sch) i = None"
    "length (scStreams sch) \<noteq> WebRTCMaxStreamCount"
    using assms(1) by (simp_all add: serverReady_def)
  have dec: "umReq (payload envC f) = Inr f" for f
    using assms(2) by (simp add: codec_def)
  obtain srv' where adm: "admit method srv = (Started (UnaryHandler h), srv')"
    using serverReady_admit [OF assms(1)] by blast
  have 1: "onChannelMessage E envS umReq False (payload envC (reqFrame i (ReqHeaders (Some ?hs)))) srv sch =
      Some (srv', ?c0, Some (?k, UnaryHandler h))"
    by (subst serverFeed_headers [where hs = ?hs and i = i and h = "UnaryHandler h" and srv' = srv'])
      (use r dec assms(5) adm in \<open>simp_all add: makeRequestHeaders_def\<close>)
  let ?s1 = "?s0\<lparr>packetBuf := [], msgCh := [qb], recvClosed := True, msgChClosed := True\<rparr>"
  let ?c1 = "?c0\<lparr>scObjs := scObjs sch @ [?s1]\<rparr>"
  have 2: "serverFeed E envS umReq (map (\<lambda>p. payload envC (argFrame i p)) (packetsOf nC qb)) srv' ?c0 = Some (srv', ?c1, [])"
    by (subst serverFeed_train [where k = ?k and s = ?s0])
      (use r dec assms(6,8) in \<open>simp_all add: packetsOf_train packetsOf_data awaiting_def new\<close>)
  have feed: "serverFeed E envS umReq (map (payload envC) (reqFrame i (ReqHeaders (Some ?hs)) # map (argFrame i) (packetsOf nC qb)))
      srv sch = Some (srv', ?c1, [(?k, UnaryHandler h)])"
    using serverFeed_Cons [OF 1 2] by (simp add: comp_def del: serverFeed.simps)
  have s1: "base_inv ?s1" "\<not> bsClosed ?s1" "\<not> ssSendClosed ?s1" "\<not> ssHeadersWritten ?s1" "parked ?s1 = None"
    "ctxErr ?s1 = None" "msgCh ?s1 = [qb]" "bsId ?s1 = i"
    by (simp_all add: base_inv_def new msgChCap_def)
  have c1: "chCtxErr ?c1 = None" "\<not> bcClosed ?c1"
    using r by simp_all
  obtain s2 where u: "unaryHandler E envS nS umQ marshalResp g pick ?s1 ?c1 = Some (None, s2,
      wireAfter envS (headersFrame ?s1 # map (messageFrame i) (packetsOf nS rb) @ [trailersFrame None ?s1]) ?c1, Some i)"
    using unaryHandler_good [where env = envS and ch = ?c1 and n = nS and s = ?s1 and q = qb and h = g and unmarshal = umQ and req = req
        and marshalMsg = marshalResp and pick = pick, OF _ c1 assms(7,4) s1(1-7) assms(9-11)]
      assms(3) s1(8) by (auto simp: codec_def)
  have w: "withStream ?k (unaryHandler E envS nS umQ marshalResp g pick) ?c1 = Some (None,
      putStream ?k s2 (Some i) (wireAfter envS (headersFrame ?s1 # map (messageFrame i) (packetsOf nS rb)
        @ [trailersFrame None ?s1]) ?c1))"
    using u r(1) by (simp add: withStream_def syncCtx_live)
  show ?thesis
    by (intro exI conjI, rule feed, rule w)
      (simp_all add: putStream_def removeStreamByID_def headersFrame_def trailersFrame_def s1(8))
qed

text \<open>
  C1. A unary call returns the response of its handler.  When both ends are ready and the data channel
  works, \<^verbatim>\<open>invoke\<close> with any arguments puts frames on the wire that make the server start exactly the
  handler of the method; the handler gets the arguments the client sent; its response, fed back, makes
  \<^verbatim>\<open>invoke\<close> return exactly that response; and both ends have forgotten the stream.  Messages may be as
  long as the limit, over as many packets as it takes.
\<close>

theorem unary_call_round_trip:
  fixes ch :: client_chan and sch :: server_chan
  assumes "clientReady ch" "serverReady method h (ccCounter ch + 1) srv sch"
    and "codec envC umReq" "codec envS umResp" "status_laws E" "stErr None = None" "0 \<le> timeout" "0 < nC" "0 < nS"
    and "marshalArgs args = Inr qb" "length qb \<le> MaxMessageSize" "umQ qb = Inr req"
    and "g (RecvOk req) = Inr resp" "marshalResp resp = Inr rb" "length rb \<le> MaxMessageSize" "umR rb = Inr reply"
  shows "\<exists>k reqs ch1 srv1 sch1 sch2 resps ch2 hd' tr ch3.
      invokeSend envC nC marshalArgs None mdOut timeout method args ch = Some (Inr k, ch1) \<and> bcWire ch1 = bcWire ch @ reqs \<and>
      serverFeed E envS umReq reqs srv sch = Some (srv1, sch1, [(length (scObjs sch), UnaryHandler h)]) \<and>
      withStream (length (scObjs sch)) (unaryHandler E envS nS umQ marshalResp g pick) sch1 = Some (None, sch2) \<and>
      bcWire sch2 = bcWire sch @ resps \<and> clientFeed stErr umResp resps ch1 = Some ch2 \<and>
      invokeRecv umR pick' k ch2 = Some (RecvOk reply, hd', tr, ch3) \<and>
      mget (ccStreams ch3) (ccCounter ch + 1) = None \<and> mget (scStreams sch2) (ccCounter ch + 1) = None"
proof -
  let ?i = "ccCounter ch + 1"
  let ?k = "length (ccObjs ch)"
  have c: "chCtxErr ch = None" "mget (ccStreams ch) ?i = None" "length (ccStreams ch) \<noteq> WebRTCMaxStreamCount"
    using assms(1) by (simp_all add: clientReady_def)
  let ?reqs = "map (payload envC) (reqFrame ?i (ReqHeaders (Some (makeRequestHeaders mdOut timeout method)))
      # map (argFrame ?i) (packetsOf nC qb))"
  obtain ch1 where send: "invokeSend envC nC marshalArgs None mdOut timeout method args ch = Some (Inr ?k, ch1)"
    "bcWire ch1 = bcWire ch @ ?reqs"
    "ccObjs ch1 = ccObjs ch @ [(newWebRTCClientStream None None ?i)\<lparr>csSendClosed := True\<rparr>]"
    "ccStreams ch1 = mput ?i ?k (ccStreams ch)" "chCtxErr ch1 = None"
    using invokeSend_good [where marshalMsg = marshalArgs, OF _ c(1) assms(8,10) c(2,3)] assms(3) unfolding codec_def by blast
  obtain srv1 sch1 sch2 hf tf where srv: "serverFeed E envS umReq ?reqs srv sch = Some (srv1, sch1, [(length (scObjs sch), UnaryHandler h)])"
    "withStream (length (scObjs sch)) (unaryHandler E envS nS umQ marshalResp g pick) sch1 = Some (None, sch2)"
    "bcWire sch2 = bcWire sch @ map (payload envS) (\<lparr> respStream = Some ?i, respType = RespHeaders hf \<rparr>
        # map (messageFrame ?i) (packetsOf nS rb)
        @ [\<lparr> respStream = Some ?i, respType = RespTrailers \<lparr> rtStatus = None, rtMetadata = tf \<rparr> \<rparr>])"
    "mget (scStreams sch2) ?i = None"
    using server_half [where umQ = umQ and g = g and marshalResp = marshalResp, OF assms(2-5,7-9,11-14)] by blast
  have dec: "umResp (payload envS f) = Inr f" for f
    using assms(4) by (simp add: codec_def)
  obtain ch2 where feed: "clientFeed stErr umResp (map (payload envS) (\<lparr> respStream = Some ?i, respType = RespHeaders hf \<rparr>
        # map (messageFrame ?i) (packetsOf nS rb)
        @ [\<lparr> respStream = Some ?i, respType = RespTrailers \<lparr> rtStatus = None, rtMetadata = tf \<rparr> \<rparr>])) ch1 = Some ch2"
    "?k < length (ccObjs ch2)" "msgCh (ccObjs ch2 ! ?k) = [rb]" "mget (ccStreams ch2) ?i = None"
    using clientFeed_response [where ch = ch1 and k = ?k and i = ?i and um = umResp and enc = "payload envS" and stErr = stErr,
        OF dec assms(6) _ _ send(5) _ assms(9,15)] send(3,4) by auto
  have "msgCh (ccSyncCtx ch2 (ccObjs ch2 ! ?k)) = [rb]"
    using feed(3) by (simp add: ccSyncCtx_def)
  then obtain hd' tr ch3 where "invokeRecv umR pick' ?k ch2 = Some (RecvOk reply, hd', tr, ch3)"
    "ccStreams ch3 = ccStreams ch2"
    using assms(16) by (simp add: invokeRecv_def withClient_def clientRecv_def RecvMsg_buffered decodeInto_def ccPutStream_def)
  with send(1,2) srv feed(1,4) show ?thesis
    by (intro exI conjI) (assumption | simp)+
qed

abbreviation demoCaller :: client_chan where
  "demoCaller \<equiv> newWebRTCClientChannel ICENew"

definition demoStatusErr :: "grpc_status option \<Rightarrow> err option" where
  "demoStatusErr st = map_option (\<lambda>(c, m). ErrStatus c m) st"

theorem unary_call_round_trip_witness:
  "\<exists>k reqs ch1 srv1 sch1 sch2 resps ch2 hd' tr ch3.
     invokeSend (fmtEnv requestF) 2 Inr None None 0 ''/svc/Get'' [7, 8, 9] demoCaller = Some (Inr k, ch1) \<and> bcWire ch1 = reqs \<and>
     serverFeed plainErrEnv (fmtEnv responseF) (fmtDecode requestF) reqs demoServer demoChan =
       Some (srv1, sch1, [(0, UnaryHandler 7)]) \<and>
     withStream 0 (unaryHandler plainErrEnv (fmtEnv responseF) 4 Inr Inr echoTwice True) sch1 = Some (None, sch2) \<and>
     bcWire sch2 = resps \<and> clientFeed demoStatusErr (fmtDecode responseF) resps ch1 = Some ch2 \<and>
     invokeRecv Inr False k ch2 = Some (RecvOk [7, 8, 9, 7, 8, 9], hd', tr, ch3) \<and>
     mget (ccStreams ch3) 1 = None \<and> mget (scStreams sch2) 1 = None"
proof -
  note init = newWebRTCClientChannel_def newWebRTCServerChannel_def newBaseChannel_def connStateChanged_def
    base_channel.defs demoServer_def RegisterService_def newWebRTCServer_def
  have w: "bcWire demoCaller = []" "bcWire demoChan = []" "scObjs demoChan = []" "ccCounter demoCaller = 0"
    by (simp_all add: init)
  have c: "clientReady demoCaller"
    by (simp add: clientReady_def WebRTCMaxStreamCount_def init)
  have s: "serverReady ''/svc/Get'' 7 (ccCounter demoCaller + 1) demoServer demoChan"
    by (simp add: serverReady_def WebRTCMaxStreamCount_def DefaultWebRTCMaxGRPCCalls_def init methodPath_def)
  show ?thesis
    using unary_call_round_trip [OF c s codec_fmtEnv [OF requestF_ok] codec_fmtEnv [OF responseF_ok] plain_status_laws,
        where stErr = demoStatusErr and timeout = 0 and nC = 2 and nS = 4 and marshalArgs = Inr and args = "[7, 8, 9]"
        and umQ = Inr and g = echoTwice and marshalResp = Inr and umR = Inr and pick = True and pick' = False
        and mdOut = None]
    by (simp add: w demoStatusErr_def echoTwice_def MaxMessageSize_def)
qed

end
