(* ===== verification/GoJson.thy ===== *)
theory GoJson
  imports GoPrelude
begin

text \<open>
  JSON values and how \<^verbatim>\<open>encoding/json\<close> decodes an object into the fields of a Go struct: a key matches a
  field up to the case of ASCII letters, later members override earlier ones, \<^verbatim>\<open>null\<close> leaves a plain
  field alone and clears a pointer or a slice, and a value of another type is an error.  The text of a
  document and its parser are below this level.
\<close>

datatype json =
    JNull
  | JBool bool
  | JInt int
  | JFloat string
  | JStr string
  | JArr "json list"
  | JObj "(string \<times> json) list"

definition foldChar :: "char \<Rightarrow> char" where
  "foldChar c = (if 65 \<le> (of_char c :: nat) \<and> (of_char c :: nat) \<le> 90 then char_of ((of_char c :: nat) + 32) else c)"

definition fieldVals :: "string \<Rightarrow> (string \<times> json) list \<Rightarrow> json list" where
  "fieldVals name fs = map snd (filter (\<lambda>(k, v). map foldChar k = map foldChar name) fs)"

definition typeErr :: err where
  "typeErr = ErrTyped ''json.UnmarshalTypeError'' []"

fun isJStr :: "json \<Rightarrow> bool" where
  "isJStr (JStr s) = True"
| "isJStr v = False"

fun strOf :: "json \<Rightarrow> string" where
  "strOf (JStr s) = s"
| "strOf v = []"

fun isJInt :: "json \<Rightarrow> bool" where
  "isJInt (JInt n) = True"
| "isJInt v = False"

fun intOf :: "json \<Rightarrow> int" where
  "intOf (JInt n) = n"
| "intOf v = 0"

text \<open>A field of type \<^verbatim>\<open>string\<close>, \<^verbatim>\<open>int\<close>, \<^verbatim>\<open>*int\<close> and \<^verbatim>\<open>[]string\<close>.\<close>

definition strField :: "string \<Rightarrow> (string \<times> json) list \<Rightarrow> err + string" where
  "strField name fs =
     (let vs = filter (\<lambda>v. v \<noteq> JNull) (fieldVals name fs)
      in if list_all isJStr vs then Inr (if vs = [] then [] else strOf (last vs)) else Inl typeErr)"

definition intField :: "string \<Rightarrow> (string \<times> json) list \<Rightarrow> err + int" where
  "intField name fs =
     (let vs = filter (\<lambda>v. v \<noteq> JNull) (fieldVals name fs)
      in if list_all isJInt vs then Inr (if vs = [] then 0 else intOf (last vs)) else Inl typeErr)"

definition ptrIntField :: "string \<Rightarrow> (string \<times> json) list \<Rightarrow> err + int option" where
  "ptrIntField name fs =
     (let vs = fieldVals name fs
      in if list_all (\<lambda>v. v = JNull \<or> isJInt v) vs
         then Inr (if vs = [] \<or> last vs = JNull then None else Some (intOf (last vs))) else Inl typeErr)"

fun isStrList :: "json \<Rightarrow> bool" where
  "isStrList (JArr xs) = list_all (\<lambda>v. v = JNull \<or> isJStr v) xs"
| "isStrList v \<longleftrightarrow> v = JNull"

fun strListOf :: "json \<Rightarrow> string list option" where
  "strListOf (JArr xs) = Some (map strOf xs)"
| "strListOf v = None"

definition strListField :: "string \<Rightarrow> (string \<times> json) list \<Rightarrow> err + string list option" where
  "strListField name fs =
     (let vs = fieldVals name fs
      in if list_all isStrList vs then Inr (if vs = [] then None else strListOf (last vs)) else Inl typeErr)"

text \<open>
  A field of type \<^verbatim>\<open>bool\<close> and one of type \<^verbatim>\<open>map[string]string\<close>: an object adds its members to the map
  that is there, \<^verbatim>\<open>null\<close> clears it.
\<close>

fun isJBool :: "json \<Rightarrow> bool" where
  "isJBool (JBool b) = True"
| "isJBool v = False"

fun boolOf :: "json \<Rightarrow> bool" where
  "boolOf (JBool b) = b"
| "boolOf v = False"

definition boolField :: "string \<Rightarrow> (string \<times> json) list \<Rightarrow> err + bool" where
  "boolField name fs =
     (let vs = filter (\<lambda>v. v \<noteq> JNull) (fieldVals name fs)
      in if list_all isJBool vs then Inr (if vs = [] then False else boolOf (last vs)) else Inl typeErr)"

fun isStrMap :: "json \<Rightarrow> bool" where
  "isStrMap (JObj ms) = list_all (\<lambda>(k, v). v = JNull \<or> isJStr v) ms"
| "isStrMap v \<longleftrightarrow> v = JNull"

fun addStrMap :: "json \<Rightarrow> (string, string) gomap option \<Rightarrow> (string, string) gomap option" where
  "addStrMap (JObj ms) acc =
     Some (fold (\<lambda>(k, v) m. mput k v m) (map (map_prod id strOf) ms) (case acc of None \<Rightarrow> [] | Some m \<Rightarrow> m))"
| "addStrMap v acc = None"

definition strMapField :: "string \<Rightarrow> (string \<times> json) list \<Rightarrow> err + (string, string) gomap option" where
  "strMapField name fs =
     (let vs = fieldVals name fs
      in if list_all isStrMap vs then Inr (fold addStrMap vs None) else Inl typeErr)"

text \<open>A \<^verbatim>\<open>*json.RawMessage\<close> keeps the value as it is.\<close>

definition rawField :: "string \<Rightarrow> (string \<times> json) list \<Rightarrow> json option" where
  "rawField name fs =
     (let vs = fieldVals name fs in if vs = [] \<or> last vs = JNull then None else Some (last vs))"

text \<open>The members of the document: only an object decodes into a struct, and \<^verbatim>\<open>null\<close> sets nothing.\<close>

fun structMembers :: "json \<Rightarrow> err + (string \<times> json) list" where
  "structMembers (JObj fs) = Inr fs"
| "structMembers JNull = Inr []"
| "structMembers v = Inl typeErr"

lemma fieldVals_simps [simp]:
  "fieldVals name [] = []"
  "fieldVals name ((k, v) # fs) = (if map foldChar k = map foldChar name then v # fieldVals name fs else fieldVals name fs)"
  by (simp_all add: fieldVals_def)

end
