(* ===== verification/ArtifactTree.thy ===== *)
theory ArtifactTree
  imports GoJson
begin

text \<open>
  The tree of versioned artifacts (\<^verbatim>\<open>src/artifact/tree.go\<close>, \<^verbatim>\<open>src/artifact/config.go\<close>): the nodes, the
  operations by path, their JSON form, and the configuration file.  The tree is a hierarchy of Go maps
  updated in place; no map is reachable by two paths, so it is a value here.  Its meaning is the map
  \<open>artifacts\<close> from paths to content hashes, which the operations refine.
\<close>

section \<open>The tree\<close>

datatype tree_node =
    InternalNode "(string \<times> tree_node) list"
  | ExternalNode string int

type_synonym node_tree = "(string, tree_node) gomap"

fun IsInternal :: "tree_node \<Rightarrow> bool" where
  "IsInternal (InternalNode t) = True"
| "IsInternal (ExternalNode nodeHash nodeSize) = False"

text \<open>The internal map of an external node is nil: looking it up finds nothing.\<close>

fun lookup :: "node_tree \<Rightarrow> string list \<Rightarrow> tree_node option" where
  "lookup tnt [] = None"
| "lookup tnt (p # path) =
     (case mget tnt p of
        None \<Rightarrow> None
      | Some node \<Rightarrow>
          if path = [] then Some node
          else (case node of InternalNode t \<Rightarrow> lookup t path | ExternalNode _ _ \<Rightarrow> None))"

fun storeHash :: "string \<Rightarrow> int \<Rightarrow> string list \<Rightarrow> node_tree \<Rightarrow> node_tree" where
  "storeHash nodeHash nodeSize [] tnt = tnt"
| "storeHash nodeHash nodeSize [p] tnt = mput p (ExternalNode nodeHash nodeSize) tnt"
| "storeHash nodeHash nodeSize (p # q # path) tnt =
     (case mget tnt p of
        None \<Rightarrow> mput p (InternalNode (storeHash nodeHash nodeSize (q # path) [])) tnt
      | Some (ExternalNode _ _) \<Rightarrow> mput p (InternalNode (storeHash nodeHash nodeSize (q # path) [])) tnt
      | Some (InternalNode t) \<Rightarrow> mput p (InternalNode (storeHash nodeHash nodeSize (q # path) t)) tnt)"

fun removePath :: "string list \<Rightarrow> node_tree \<Rightarrow> node_tree" where
  "removePath [] tnt = tnt"
| "removePath [p] tnt = mdel p tnt"
| "removePath (p # q # path) tnt =
     (case mget tnt p of
        Some (InternalNode t) \<Rightarrow> mput p (InternalNode (removePath (q # path) t)) tnt
      | _ \<Rightarrow> tnt)"

subsection \<open>What the tree stands for\<close>

definition artifacts :: "node_tree \<Rightarrow> string list \<Rightarrow> (string \<times> int) option" where
  "artifacts tnt path = (case lookup tnt path of Some (ExternalNode h n) \<Rightarrow> Some (h, n) | _ \<Rightarrow> None)"

lemma artifacts_Nil [simp]: "artifacts t [] = None" "artifacts [] q = None"
  by (cases q; simp add: artifacts_def)+

lemma artifacts_Cons:
  "artifacts t (p # q) =
     (case mget t p of
        None \<Rightarrow> None
      | Some (ExternalNode h n) \<Rightarrow> if q = [] then Some (h, n) else None
      | Some (InternalNode s) \<Rightarrow> artifacts s q)"
  by (cases q) (auto simp: artifacts_def split: option.splits tree_node.splits)

text \<open>Nodes above and below the stored path give way to it; everything beside it stays.\<close>

definition setArtifact :: "string list \<Rightarrow> string \<times> int \<Rightarrow> (string list \<Rightarrow> (string \<times> int) option) \<Rightarrow> string list \<Rightarrow> (string \<times> int) option" where
  "setArtifact p a m q = (if q = p then Some a else if prefix p q \<or> prefix q p then None else m q)"

definition dropArtifacts :: "string list \<Rightarrow> (string list \<Rightarrow> (string \<times> int) option) \<Rightarrow> string list \<Rightarrow> (string \<times> int) option" where
  "dropArtifacts p m q = (if prefix p q then None else m q)"

lemma artifacts_storeHash:
  "p \<noteq> [] \<Longrightarrow> artifacts (storeHash h n p t) q = setArtifact p (h, n) (artifacts t) q"
proof (induction h n p t arbitrary: q rule: storeHash.induct)
  case (2 h n p t)
  then show ?case
    by (cases q) (auto simp: artifacts_Cons setArtifact_def)
next
  case (3 h n p p' path t)
  show ?case
  proof (cases q)
    case (Cons x xs)
    then show ?thesis
      using 3 by (cases "mget t p") (auto simp: artifacts_Cons [of _ p] artifacts_Cons [of _ x] setArtifact_def split: tree_node.splits)
  qed (simp add: setArtifact_def)
qed simp

lemma artifacts_removePath:
  "p \<noteq> [] \<Longrightarrow> artifacts (removePath p t) q = dropArtifacts p (artifacts t) q"
proof (induction p t arbitrary: q rule: removePath.induct)
  case (2 p t)
  then show ?case
    by (cases q) (auto simp: artifacts_Cons dropArtifacts_def)
next
  case (3 p p' path t)
  show ?case
  proof (cases q)
    case (Cons x xs)
    then show ?thesis
      using 3 by (cases "mget t p") (auto simp: artifacts_Cons [of _ p] artifacts_Cons [of _ x] dropArtifacts_def split: tree_node.splits)
  qed (simp add: dropArtifacts_def)
qed simp

text \<open>
  C24. The artifact tree refines a map from paths to artifacts.  Storing a hash sets its path and nothing
  else but for the artifacts the path goes through or covers; removing a path removes exactly what
  is at or below it.  In particular a stored artifact is found under its path and a removed one is not.
\<close>

theorem tree_refines_path_map:
  assumes "p \<noteq> []"
  shows "artifacts (storeHash h n p t) = setArtifact p (h, n) (artifacts t) \<and>
    artifacts (removePath p t) = dropArtifacts p (artifacts t) \<and>
    lookup (storeHash h n p t) p = Some (ExternalNode h n)"
proof -
  have "artifacts (storeHash h n p t) p = Some (h, n)"
    using assms by (simp add: artifacts_storeHash setArtifact_def)
  then have "lookup (storeHash h n p t) p = Some (ExternalNode h n)"
    by (auto simp: artifacts_def split: option.splits tree_node.splits)
  with assms show ?thesis
    by (auto simp: artifacts_storeHash artifacts_removePath)
qed

theorem tree_refines_path_map_witness:
  "artifacts (storeHash ''h2'' 5 [''a'', ''b''] [(''a'', ExternalNode ''h1'' 3), (''c'', ExternalNode ''h3'' 1)]) [''a''] = None \<and>
   artifacts (storeHash ''h2'' 5 [''a'', ''b''] [(''a'', ExternalNode ''h1'' 3), (''c'', ExternalNode ''h3'' 1)]) [''a'', ''b''] = Some (''h2'', 5) \<and>
   artifacts (storeHash ''h2'' 5 [''a'', ''b''] [(''a'', ExternalNode ''h1'' 3), (''c'', ExternalNode ''h3'' 1)]) [''c''] = Some (''h3'', 1)"
  using tree_refines_path_map [of "[''a'', ''b'']" "''h2''" 5 "[(''a'', ExternalNode ''h1'' 3), (''c'', ExternalNode ''h3'' 1)]"]
  by (simp add: setArtifact_def artifacts_Cons)

section \<open>The JSON form\<close>

primrec MarshalJSON :: "tree_node \<Rightarrow> json" where
  "MarshalJSON (InternalNode t) = JObj (map (map_prod id MarshalJSON) t)"
| "MarshalJSON (ExternalNode h n) = JObj [(''hash'', JStr h), (''size'', JInt n)]"

text \<open>
  Decoding a map of nodes: the first error of a member ends it, later members replace earlier ones.  The
  value of a member that is \<^verbatim>\<open>null\<close> is a nil pointer, which no node of the model stands for
  (\<^const>\<open>None\<close>).
\<close>

fun isNodeErr :: "(err + tree_node) option \<Rightarrow> bool" where
  "isNodeErr (Some (Inl e)) = True"
| "isNodeErr r = False"

definition collectNodes :: "(string \<times> (err + tree_node) option) list \<Rightarrow> (err + tree_node) option" where
  "collectNodes ms =
     (case filter isNodeErr (map snd ms) of
        r # _ \<Rightarrow> r
      | [] \<Rightarrow> if None \<in> snd ` set ms then None
          else Some (Inr (InternalNode (fold (\<lambda>(k, v). mput k v) (map (map_prod id (projr \<circ> the)) ms) []))))"

text \<open>\<^verbatim>\<open>UnmarshalJSON\<close>: an object whose member \<^verbatim>\<open>size\<close> is a number is an external node.\<close>

definition externalOf :: "(string \<times> json) list \<Rightarrow> (err + tree_node) option" where
  "externalOf fs =
     (case ptrIntField ''size'' fs of
        Inr (Some _) \<Rightarrow>
          (case (strField ''hash'' fs, intField ''size'' fs) of
             (Inr h, Inr n) \<Rightarrow> Some (Inr (ExternalNode h n))
           | (Inl e, _) \<Rightarrow> Some (Inl e)
           | (_, Inl e) \<Rightarrow> Some (Inl e))
      | _ \<Rightarrow> None)"

primrec UnmarshalJSON :: "json \<Rightarrow> (err + tree_node) option" where
  "UnmarshalJSON (JObj fs) =
     (case externalOf fs of
        Some r \<Rightarrow> Some r
      | None \<Rightarrow> collectNodes (map (map_prod id UnmarshalJSON) fs))"
| "UnmarshalJSON JNull = None"
| "UnmarshalJSON (JBool b) = Some (Inl typeErr)"
| "UnmarshalJSON (JInt i) = Some (Inl typeErr)"
| "UnmarshalJSON (JFloat x) = Some (Inl typeErr)"
| "UnmarshalJSON (JStr s) = Some (Inl typeErr)"
| "UnmarshalJSON (JArr xs) = Some (Inl typeErr)"

text \<open>The maps of a tree have distinct keys.\<close>

primrec wfNode :: "tree_node \<Rightarrow> bool" where
  "wfNode (InternalNode t) \<longleftrightarrow> wfmap t \<and> list_all snd (map (map_prod id wfNode) t)"
| "wfNode (ExternalNode h n) \<longleftrightarrow> True"

lemma wfNode_Internal: "wfNode (InternalNode t) \<longleftrightarrow> wfmap t \<and> (\<forall>(k, v) \<in> set t. wfNode v)"
  by (auto simp: list_all_iff)

declare wfNode.simps(1) [simp del]

lemma MarshalJSON_kind [simp]: "\<not> isJInt (MarshalJSON node)" "MarshalJSON node \<noteq> JNull"
  by (cases node; simp)+

lemma externalOf_internal: "externalOf (map (map_prod id MarshalJSON) t) = None"
proof -
  let ?vs = "fieldVals ''size'' (map (map_prod id MarshalJSON) t)"
  have "\<forall>v \<in> set ?vs. \<not> isJInt v \<and> v \<noteq> JNull"
    by (auto simp: fieldVals_def)
  then have "?vs = [] \<or> \<not> list_all (\<lambda>v. v = JNull \<or> isJInt v) ?vs"
    by (cases ?vs) auto
  then show ?thesis
    by (auto simp: externalOf_def ptrIntField_def Let_def)
qed

lemma Unmarshal_Marshal: "wfNode node \<Longrightarrow> UnmarshalJSON (MarshalJSON node) = Some (Inr node)"
proof (induction node)
  case (InternalNode t)
  define os where "os = map (map_prod id (Some \<circ> (Inr :: tree_node \<Rightarrow> err + tree_node))) t"
  have "filter isNodeErr (map snd os) = []" "None \<notin> snd ` set os"
    by (auto simp: os_def filter_empty_conv)
  moreover have "map (map_prod id (projr \<circ> the)) os = t"
    by (simp add: os_def comp_def map_prod_def case_prod_beta)
  ultimately have "collectNodes os = Some (Inr (InternalNode t))"
    using InternalNode.prems by (simp add: collectNodes_def wfNode_Internal)
  moreover have "UnmarshalJSON (MarshalJSON v) = Some (Inr v)" if "(k, v) \<in> set t" for k v
    using InternalNode.IH [OF that, of v] InternalNode.prems that by (auto simp: wfNode_Internal snds.simps)
  then have "map (map_prod id UnmarshalJSON) (map (map_prod id MarshalJSON) t) = os"
    by (auto simp: os_def)
  ultimately show ?case
    by (simp add: externalOf_internal del: map_map)
next
  case (ExternalNode h n)
  then show ?case
    by (simp add: externalOf_def ptrIntField_def strField_def intField_def foldChar_def)
qed

lemma wfNode_mput:
  assumes "wfNode (InternalNode t)" "wfNode v"
  shows "wfNode (InternalNode (mput k v t))"
  using assms set_mput [of k v t] by (fastforce simp: wfNode_Internal)

lemma wfNode_mdel: "wfNode (InternalNode t) \<Longrightarrow> wfNode (InternalNode (mdel k t))"
  using set_mdel [of k t] by (fastforce simp: wfNode_Internal)

lemma wfNode_child: "wfNode (InternalNode t) \<Longrightarrow> mget t p = Some v \<Longrightarrow> wfNode v"
  by (auto simp: wfNode_Internal dest: map_of_SomeD)

lemma wfNode_empty [simp]: "wfNode (InternalNode [])"
  by (simp add: wfNode_Internal)

lemma wfNode_storeHash: "wfNode (InternalNode t) \<Longrightarrow> wfNode (InternalNode (storeHash h n p t))"
proof (induction h n p t rule: storeHash.induct)
  case (3 h n p q path t)
  then show ?case
    using wfNode_child [OF "3.prems", of p] by (auto intro!: wfNode_mput split: option.splits tree_node.splits)
qed (auto intro: wfNode_mput)

lemma wfNode_removePath: "wfNode (InternalNode t) \<Longrightarrow> wfNode (InternalNode (removePath p t))"
proof (induction p t rule: removePath.induct)
  case (3 p q path t)
  then show ?case
    using wfNode_child [OF "3.prems", of p] by (auto intro!: wfNode_mput split: option.splits tree_node.splits)
qed (auto intro: wfNode_mdel)

datatype tree_op = StoreOp string int "string list" | RemoveOp "string list"

fun runTree :: "tree_op list \<Rightarrow> node_tree \<Rightarrow> node_tree" where
  "runTree [] t = t"
| "runTree (StoreOp h n p # ops) t = runTree ops (storeHash h n p t)"
| "runTree (RemoveOp p # ops) t = runTree ops (removePath p t)"

lemma wfNode_runTree: "wfNode (InternalNode t) \<Longrightarrow> wfNode (InternalNode (runTree ops t))"
  by (induction ops t rule: runTree.induct) (simp_all add: wfNode_storeHash wfNode_removePath)

text \<open>
  The tree file holds the map of the root.  A \<^verbatim>\<open>null\<close> in it is a nil map or a nil node
  (\<^const>\<open>None\<close>).
\<close>

definition decodeTree :: "json \<Rightarrow> (err + node_tree) option" where
  "decodeTree v =
     (case v of
        JObj fs \<Rightarrow> map_option (map_sum id (\<lambda>node. case node of InternalNode t \<Rightarrow> t | ExternalNode _ _ \<Rightarrow> []))
          (collectNodes (map (map_prod id UnmarshalJSON) fs))
      | JNull \<Rightarrow> None
      | _ \<Rightarrow> Some (Inl typeErr))"

text \<open>
  C25. The tree file keeps the tree: whatever stores and removals built a tree, and whatever its files are
  called -- a file or directory named \<^verbatim>\<open>size\<close> or \<^verbatim>\<open>hash\<close> included -- decoding its JSON form gives back the
  same tree, as a node and as a tree file.
\<close>

theorem tree_json_round_trip:
  "UnmarshalJSON (MarshalJSON (InternalNode (runTree ops []))) = Some (Inr (InternalNode (runTree ops []))) \<and>
   decodeTree (MarshalJSON (InternalNode (runTree ops []))) = Some (Inr (runTree ops []))"
proof -
  have "UnmarshalJSON (MarshalJSON (InternalNode (runTree ops []))) = Some (Inr (InternalNode (runTree ops [])))"
    by (rule Unmarshal_Marshal) (simp add: wfNode_runTree)
  then show ?thesis
    by (simp add: decodeTree_def externalOf_internal)
qed

section \<open>The configuration\<close>

datatype store_config =
    FileSystemStoreConfig string
  | GoogleStorageStoreConfig string

record artifact_config =
  cfgCache :: string
  cfgRoot :: string
  cfgSourceStore :: "store_config option"
  cfgSourcePullSizeLimit :: int
  cfgIgnore :: "string list option"
  cfgIgnoreSet :: "string list"
  cfgTree :: node_tree

definition DefaultSourcePullSizeLimitBytes :: int where
  "DefaultSourcePullSizeLimitBytes = 2 ^ 22"

definition NewArtifactNotFoundHashError :: "string \<Rightarrow> err" where
  "NewArtifactNotFoundHashError hash = ErrTyped ''artifact.NotFoundError'' (''hash='' @ hash)"

definition NewArtifactNotFoundPathError :: "string \<Rightarrow> err" where
  "NewArtifactNotFoundPathError path = ErrTyped ''artifact.NotFoundError'' (''path='' @ path)"

text \<open>\<^verbatim>\<open>errors.As\<close> follows the wrapping.\<close>

fun IsNotFoundError :: "err \<Rightarrow> bool" where
  "IsNotFoundError (ErrWrap m e) = IsNotFoundError e"
| "IsNotFoundError (ErrTyped t x) = (t = ''artifact.NotFoundError'')"
| "IsNotFoundError e = False"

definition Lookup :: "string \<Rightarrow> artifact_config \<Rightarrow> err + tree_node" where
  "Lookup path c =
     (if path = ''/'' then Inr (InternalNode (cfgTree c))
      else case lookup (cfgTree c) (splitOn CHR ''/'' path) of
        None \<Rightarrow> Inl (NewArtifactNotFoundPathError path)
      | Some node \<Rightarrow> Inr node)"

definition RemovePath :: "string \<Rightarrow> artifact_config \<Rightarrow> artifact_config" where
  "RemovePath path c = c\<lparr>cfgTree := removePath (splitOn CHR ''/'' path) (cfgTree c)\<rparr>"

definition StoreHash :: "string \<Rightarrow> int \<Rightarrow> string list \<Rightarrow> artifact_config \<Rightarrow> artifact_config" where
  "StoreHash nodeHash nodeSize path c = c\<lparr>cfgTree := storeHash nodeHash nodeSize path (cfgTree c)\<rparr>"

definition unmarshalJSONToStoreConfig :: "json \<Rightarrow> err + store_config" where
  "unmarshalJSONToStoreConfig v =
     (case structMembers v of
        Inl e \<Rightarrow> Inl e
      | Inr fs \<Rightarrow>
          (case strField ''type'' fs of
             Inl e \<Rightarrow> Inl e
           | Inr ty \<Rightarrow>
               if ty = ''fs'' then map_sum id FileSystemStoreConfig (strField ''path'' fs)
               else if ty = ''google_storage'' then map_sum id GoogleStorageStoreConfig (strField ''bucket'' fs)
               else Inl (ErrText (''unknown store type '' @ goQuote ty))))"

text \<open>The tree and the directory of the file are set by the loader; here the tree is empty.\<close>

definition unmarshalConfig :: "json \<Rightarrow> err + artifact_config" where
  "unmarshalConfig v =
     (case structMembers v of
        Inl e \<Rightarrow> Inl e
      | Inr fs \<Rightarrow>
          (case (strField ''cache'' fs, strField ''root'' fs, ptrIntField ''source_pull_size_limit'' fs, strListField ''ignore'' fs) of
             (Inr cache, Inr root, Inr limit, Inr ignore) \<Rightarrow>
               let c = \<lparr> cfgCache = cache, cfgRoot = root, cfgSourceStore = None,
                     cfgSourcePullSizeLimit = (case limit of None \<Rightarrow> DefaultSourcePullSizeLimitBytes | Some n \<Rightarrow> n),
                     cfgIgnore = ignore, cfgIgnoreSet = (case ignore of None \<Rightarrow> [] | Some xs \<Rightarrow> xs), cfgTree = [] \<rparr>
               in (case rawField ''source_store'' fs of
                     None \<Rightarrow> Inr c
                   | Some raw \<Rightarrow> map_sum id (\<lambda>s. c\<lparr>cfgSourceStore := Some s\<rparr>) (unmarshalJSONToStoreConfig raw))
           | _ \<Rightarrow> Inl typeErr))"

lemma IsNotFoundError_new [simp]:
  "IsNotFoundError (NewArtifactNotFoundHashError h)" "IsNotFoundError (NewArtifactNotFoundPathError p)"
  by (simp_all add: NewArtifactNotFoundHashError_def NewArtifactNotFoundPathError_def)

text \<open>
  Loading: the configuration file has to be there; the tree file beside it does not.  The arguments are
  what opening and parsing the two files gave.
\<close>

definition LoadConfigFromFile :: "err + json \<Rightarrow> (err + json) option \<Rightarrow> (err + artifact_config) option" where
  "LoadConfigFromFile configFile treeFile =
     (case configFile of
        Inl e \<Rightarrow> Some (Inl e)
      | Inr v \<Rightarrow>
          (case unmarshalConfig v of
             Inl e \<Rightarrow> Some (Inl e)
           | Inr config \<Rightarrow>
               (case treeFile of
                  None \<Rightarrow> Some (Inr (config\<lparr>cfgTree := []\<rparr>))
                | Some (Inl e) \<Rightarrow> Some (Inl e)
                | Some (Inr tv) \<Rightarrow> map_option (map_sum id (\<lambda>t. config\<lparr>cfgTree := t\<rparr>)) (decodeTree tv))))"

text \<open>The search for the configuration file, upwards from the working directory; a directory is the list of its names.\<close>

datatype stat_result = StatFound | StatMissing | StatError err

definition ErrConfigNotFound :: err where
  "ErrConfigNotFound = ErrForeign ''artifact.ErrConfigNotFound''"

function searchConfig :: "(string list \<Rightarrow> stat_result) \<Rightarrow> string list \<Rightarrow> err + string list" where
  "searchConfig stat path =
     (case stat (path @ [''.artifact'', ''config.json'']) of
        StatFound \<Rightarrow> Inr (path @ [''.artifact'', ''config.json''])
      | StatError e \<Rightarrow> Inl e
      | StatMissing \<Rightarrow> if path = [] then Inl ErrConfigNotFound else searchConfig stat (butlast path))"
  by pat_completeness auto
termination
  by (relation "measure (length \<circ> snd)") simp_all

declare searchConfig.simps [simp del]

text \<open>
  The nearest configuration wins: the search always ends, and what it finds is the file of the nearest
  directory on the way up that has one, with nothing but absent files below; it reports that there is none
  only when every directory up to the root lacks it.
\<close>

lemma search_finds_nearest:
  "case searchConfig stat path of
     Inr file \<Rightarrow> \<exists>dir. prefix dir path \<and> file = dir @ [''.artifact'', ''config.json''] \<and> stat file = StatFound \<and>
       (\<forall>sub. prefix sub path \<and> strict_prefix dir sub \<longrightarrow> stat (sub @ [''.artifact'', ''config.json'']) = StatMissing)
   | Inl e \<Rightarrow> (\<exists>dir. prefix dir path \<and> stat (dir @ [''.artifact'', ''config.json'']) = StatError e) \<or>
       e = ErrConfigNotFound \<and> (\<forall>dir. prefix dir path \<longrightarrow> stat (dir @ [''.artifact'', ''config.json'']) = StatMissing)"
proof (induction stat path rule: searchConfig.induct)
  case (1 stat path)
  have up: "prefix sub path \<longleftrightarrow> sub = path \<or> prefix sub (butlast path)" if "path \<noteq> []" for sub
    using that by (metis append_butlast_last_id prefix_snoc)
  show ?case
  proof (cases "stat (path @ [''.artifact'', ''config.json''])")
    case StatMissing
    show ?thesis
    proof (cases "path = []")
      case False
      note IH = 1 [OF StatMissing False]
      have "searchConfig stat path = searchConfig stat (butlast path)"
        using StatMissing False by (simp add: searchConfig.simps [of stat path])
      then show ?thesis
        using IH StatMissing up [OF False] by (auto split: sum.splits)
    qed (use StatMissing in \<open>simp add: searchConfig.simps\<close>)
  qed (auto simp: searchConfig.simps [of stat path] strict_prefix_def)
qed

end
