(* ===== verification/ArtifactStore.thy ===== *)
theory ArtifactStore
  imports ArtifactTree
begin

text \<open>
  Stores of artifacts by content hash (\<^verbatim>\<open>src/artifact/store.go\<close>, \<^verbatim>\<open>src/artifact/fs_store.go\<close>, the store
  operations of \<^verbatim>\<open>src/artifact/cache.go\<close>) and the hash itself.  The locale \<open>artifact_store\<close> is the contract
  of the interface \<^verbatim>\<open>Store\<close>; the file system store and the cached store over any source that keeps the
  contract are its instances.  A system call can fail at any time: \<open>fault\<close> gives the error of a call on
  a place, if it fails.
\<close>

section \<open>The content hash\<close>

text \<open>FNV-1a with 128 bits, printed as 32 hexadecimal digits.\<close>

definition fnvOffset :: "128 word" where
  "fnvOffset = 0x6c62272e07bb014262b821756295c58d"

definition fnvPrime :: "128 word" where
  "fnvPrime = 0x1000000000000000000013B"

definition fnv128a :: "bytes \<Rightarrow> 128 word" where
  "fnv128a data = fold (\<lambda>b h. Bit_Operations.xor h (ucast b) * fnvPrime) data fnvOffset"

definition hexString :: "128 word \<Rightarrow> string" where
  "hexString w = map (\<lambda>i. ''0123456789abcdef'' ! unat (Bit_Operations.and (drop_bit (124 - 4 * i) w) 15)) [0..<32]"

definition computeHash :: "bytes \<Rightarrow> string" where
  "computeHash data = hexString (fnv128a data)"

section \<open>System calls\<close>

datatype place =
    InCache string
  | InUser "string list"
  | TreeFile

record os_env =
  fault :: "string \<Rightarrow> place \<Rightarrow> err option"

text \<open>The error of the first call that fails, in order.\<close>

fun firstFault :: "'a os_env_scheme \<Rightarrow> string list \<Rightarrow> place \<Rightarrow> err option" where
  "firstFault env [] p = None"
| "firstFault env (c # cs) p = (case fault env c p of Some e \<Rightarrow> Some e | None \<Rightarrow> firstFault env cs p)"

text \<open>
  \<^verbatim>\<open>AtomicStore\<close>: write a temporary file beside the target and rename it.  Any failure removes the
  temporary file and leaves the target; success gives the content the target now has.
\<close>

definition AtomicStore :: "'a os_env_scheme \<Rightarrow> place \<Rightarrow> err + bytes \<Rightarrow> err + bytes" where
  "AtomicStore env p r =
     (case firstFault env [''CreateTemp'', ''Chmod''] p of
        Some e \<Rightarrow> Inl e
      | None \<Rightarrow>
          (case r of
             Inl e \<Rightarrow> Inl e
           | Inr data \<Rightarrow> (case firstFault env [''Copy'', ''Close'', ''Rename''] p of Some e \<Rightarrow> Inl e | None \<Rightarrow> Inr data)))"

section \<open>The file system store\<close>

text \<open>The directory of the store: its files by name.\<close>

type_synonym hash_dir = "(string, bytes) gomap"

definition fsContains :: "'a os_env_scheme \<Rightarrow> string \<Rightarrow> hash_dir \<Rightarrow> err option" where
  "fsContains env hash dir =
     (case fault env ''ReadDir'' (InCache []) of
        Some e \<Rightarrow> Some e
      | None \<Rightarrow> if hash \<in> fst ` set dir then None else Some (NewArtifactNotFoundHashError hash))"

definition fsLoad :: "'a os_env_scheme \<Rightarrow> string \<Rightarrow> hash_dir \<Rightarrow> err + bytes" where
  "fsLoad env hash dir =
     (case fsContains env hash dir of
        Some e \<Rightarrow> Inl e
      | None \<Rightarrow> (case fault env ''Open'' (InCache hash) of Some e \<Rightarrow> Inl e | None \<Rightarrow> Inr (the (mget dir hash))))"

definition fsStore :: "'a os_env_scheme \<Rightarrow> string \<Rightarrow> err + bytes \<Rightarrow> hash_dir \<Rightarrow> err option \<times> hash_dir" where
  "fsStore env hash r dir =
     (case AtomicStore env (InCache hash) r of
        Inl e \<Rightarrow> (Some e, dir)
      | Inr data \<Rightarrow> (None, mput hash data dir))"

section \<open>The contract of a store\<close>

text \<open>
  What is loaded after a store is what was stored; storing under one hash does not change another; and a
  store that fails leaves the old content or has put the new one.
\<close>

locale artifact_store =
  fixes contains :: "string \<Rightarrow> 's \<Rightarrow> err option"
    and load :: "string \<Rightarrow> 's \<Rightarrow> err + bytes"
    and store :: "string \<Rightarrow> bytes \<Rightarrow> 's \<Rightarrow> err option \<times> 's"
  assumes load_contained: "load h s = Inr x \<Longrightarrow> contains h s = None"
    and store_load: "store h d s = (None, s') \<Longrightarrow> load h s' = Inr x \<Longrightarrow> x = d"
    and store_failed: "store h d s = (Some e, s') \<Longrightarrow> load h s' = Inr x \<Longrightarrow> x = d \<or> load h s = Inr x"
    and store_other: "store h d s = (r, s') \<Longrightarrow> h' \<noteq> h \<Longrightarrow> load h' s' = load h' s"
begin

text \<open>Every content of the store has the hash it is stored under.\<close>

definition intact :: "'s \<Rightarrow> bool" where
  "intact s \<longleftrightarrow> (\<forall>h x. load h s = Inr x \<longrightarrow> computeHash x = h)"

lemma store_intact:
  assumes "intact s" "store (computeHash d) d s = (r, s')"
  shows "intact s'"
  unfolding intact_def
proof (intro allI impI)
  fix h x
  assume x: "load h s' = Inr x"
  show "computeHash x = h"
  proof (cases "h = computeHash d")
    case True
    then show ?thesis
      using x assms store_load store_failed unfolding intact_def by (cases r) metis+
  next
    case False
    then show ?thesis
      using x assms store_other unfolding intact_def by metis
  qed
qed

end

interpretation fs: artifact_store "fsContains env" "fsLoad env" "\<lambda>h d. fsStore env h (Inr d)" for env :: "'a os_env_scheme"
proof
  fix h s x
  assume "fsLoad env h s = Inr x"
  then show "fsContains env h s = None"
    by (auto simp: fsLoad_def split: option.splits)
next
  fix h d s s' x
  assume "fsStore env h (Inr d) s = (None, s')" "fsLoad env h s' = Inr x"
  then show "x = d"
    by (auto simp: fsStore_def AtomicStore_def fsLoad_def split: sum.splits option.splits)
next
  fix h d s e s' x
  assume "fsStore env h (Inr d) s = (Some e, s')" "fsLoad env h s' = Inr x"
  then show "x = d \<or> fsLoad env h s = Inr x"
    by (auto simp: fsStore_def split: sum.splits)
next
  fix h d s r s' h'
  assume "fsStore env h (Inr d) s = (r, s')" "h' \<noteq> h"
  moreover have "h' \<in> fst ` set (mput h y s) \<longleftrightarrow> h' \<in> fst ` set s" if "h' \<noteq> h" for y
    using that by (metis mget_mput map_of_eq_None_iff)
  ultimately show "fsLoad env h' s' = fsLoad env h' s"
    by (auto simp: fsStore_def fsLoad_def fsContains_def split: sum.splits option.splits)
qed

section \<open>The cached store\<close>

text \<open>
  The stores of a \<^verbatim>\<open>cachedStore\<close>: the file system store that caches, and the source, which is that same
  store when the configuration names none (\<open>coLocal\<close>).  A remote source is a parameter: its operations
  are those of \<open>remote_ops\<close>.
\<close>

record 's remote_ops =
  rContains :: "string \<Rightarrow> 's \<Rightarrow> err option"
  rLoad :: "string \<Rightarrow> 's \<Rightarrow> err + bytes"
  rStore :: "string \<Rightarrow> bytes \<Rightarrow> 's \<Rightarrow> err option \<times> 's"

record 's store_pair =
  coLocal :: bool
  coCache :: hash_dir
  coSource :: 's

definition sourceContains :: "'a os_env_scheme \<Rightarrow> 's remote_ops \<Rightarrow> string \<Rightarrow> ('s, 'z) store_pair_scheme \<Rightarrow> err option" where
  "sourceContains env R hash s = (if coLocal s then fsContains env hash (coCache s) else rContains R hash (coSource s))"

definition sourceLoad :: "'a os_env_scheme \<Rightarrow> 's remote_ops \<Rightarrow> string \<Rightarrow> ('s, 'z) store_pair_scheme \<Rightarrow> err + bytes" where
  "sourceLoad env R hash s = (if coLocal s then fsLoad env hash (coCache s) else rLoad R hash (coSource s))"

definition sourceStore ::
    "'a os_env_scheme \<Rightarrow> 's remote_ops \<Rightarrow> string \<Rightarrow> bytes \<Rightarrow> ('s, 'z) store_pair_scheme \<Rightarrow> err option \<times> ('s, 'z) store_pair_scheme" where
  "sourceStore env R hash data s =
     (if coLocal s then (case fsStore env hash (Inr data) (coCache s) of (r, c) \<Rightarrow> (r, s\<lparr>coCache := c\<rparr>))
      else (case rStore R hash data (coSource s) of (r, x) \<Rightarrow> (r, s\<lparr>coSource := x\<rparr>)))"

definition cacheContains :: "'a os_env_scheme \<Rightarrow> 's remote_ops \<Rightarrow> string \<Rightarrow> ('s, 'z) store_pair_scheme \<Rightarrow> err option" where
  "cacheContains env R hash s =
     (case fsContains env hash (coCache s) of
        None \<Rightarrow> None
      | Some e \<Rightarrow> if \<not> IsNotFoundError e then Some e else sourceContains env R hash s)"

definition cacheLoad :: "'a os_env_scheme \<Rightarrow> 's remote_ops \<Rightarrow> string \<Rightarrow> ('s, 'z) store_pair_scheme \<Rightarrow> err + bytes" where
  "cacheLoad env R hash s =
     (case fsLoad env hash (coCache s) of
        Inr rc \<Rightarrow> Inr rc
      | Inl e \<Rightarrow> if \<not> IsNotFoundError e then Inl e else sourceLoad env R hash s)"

text \<open>The method \<^verbatim>\<open>store\<close>: first the source, then the cache.\<close>

definition storeBoth ::
    "'a os_env_scheme \<Rightarrow> 's remote_ops \<Rightarrow> string \<Rightarrow> bytes \<Rightarrow> ('s, 'z) store_pair_scheme \<Rightarrow> err option \<times> ('s, 'z) store_pair_scheme" where
  "storeBoth env R hash data s =
     (case sourceStore env R hash data s of
        (Some e, s1) \<Rightarrow> (Some e, s1)
      | (None, s1) \<Rightarrow> (case fsStore env hash (Inr data) (coCache s1) of (r, c) \<Rightarrow> (r, s1\<lparr>coCache := c\<rparr>)))"

definition cacheStore ::
    "'a os_env_scheme \<Rightarrow> 's remote_ops \<Rightarrow> string \<Rightarrow> err + bytes \<Rightarrow> ('s, 'z) store_pair_scheme \<Rightarrow> err option \<times> ('s, 'z) store_pair_scheme" where
  "cacheStore env R hash r s =
     (case r of Inl e \<Rightarrow> (Some e, s) | Inr data \<Rightarrow> storeBoth env R hash data s)"

text \<open>A source that keeps the contract makes a cached store that keeps it.\<close>

locale cached_source =
  remote: artifact_store "rContains R" "rLoad R" "rStore R" for R :: "'s remote_ops" +
  fixes env :: os_env
begin

lemma cached_load_contained:
  assumes "cacheLoad env R h s = Inr x"
  shows "cacheContains env R h s = None"
proof (cases "fsContains env h (coCache s)")
  case (Some e)
  then have "fsLoad env h (coCache s) = Inl e"
    by (simp add: fsLoad_def)
  with assms have "IsNotFoundError e" "\<not> coLocal s" "rLoad R h (coSource s) = Inr x"
    by (auto simp: cacheLoad_def sourceLoad_def split: if_splits)
  then show ?thesis
    using Some remote.load_contained by (simp add: cacheContains_def sourceContains_def)
qed (simp add: cacheContains_def)

lemma cached_store_load:
  assumes "storeBoth env R h d s = (None, s')" "cacheLoad env R h s' = Inr x"
  shows "x = d"
proof -
  obtain s1 where s1: "sourceStore env R h d s = (None, s1)" "fsStore env h (Inr d) (coCache s1) = (None, coCache s')"
    "coSource s' = coSource s1" "coLocal s' = coLocal s1"
    using assms(1) by (auto simp: storeBoth_def split: prod.splits option.splits)
  have "x = d" if "fsLoad env h (coCache s') = Inr x"
    by (rule fs.store_load [OF s1(2) that])
  moreover have "x = d" if "\<not> coLocal s'" "rLoad R h (coSource s') = Inr x"
  proof (rule remote.store_load [OF _ that(2)])
    show "rStore R h d (coSource s) = (None, coSource s')"
      using s1 that(1) by (auto simp: sourceStore_def split: prod.splits if_splits)
  qed
  ultimately show ?thesis
    using assms(2) by (auto simp: cacheLoad_def sourceLoad_def split: sum.splits if_splits)
qed

lemma cached_store_other:
  assumes "storeBoth env R h d s = (r, s')" "h' \<noteq> h"
  shows "cacheLoad env R h' s' = cacheLoad env R h' s"
proof -
  obtain r1 s1 where s1: "sourceStore env R h d s = (r1, s1)"
    by (cases "sourceStore env R h d s")
  have 1: "fsLoad env h' (coCache s1) = fsLoad env h' (coCache s)" "rLoad R h' (coSource s1) = rLoad R h' (coSource s)"
    "coLocal s1 = coLocal s"
    using s1 fs.store_other [OF _ assms(2), of env d "coCache s"] remote.store_other [OF _ assms(2), of d "coSource s"]
    by (auto simp: sourceStore_def split: prod.splits if_splits)
  have 2: "fsLoad env h' (coCache s') = fsLoad env h' (coCache s1)" "coSource s' = coSource s1" "coLocal s' = coLocal s1"
    using assms(1) s1 fs.store_other [OF _ assms(2), of env d "coCache s1"]
    by (auto simp: storeBoth_def split: prod.splits option.splits)
  then have "sourceLoad env R h' s' = sourceLoad env R h' s"
    using 1 by (simp add: sourceLoad_def)
  with 1 2 show ?thesis
    by (simp add: cacheLoad_def split: sum.split)
qed

lemma cached_store_failed:
  assumes "storeBoth env R h d s = (Some e, s')" "cacheLoad env R h s' = Inr x"
  shows "x = d \<or> cacheLoad env R h s = Inr x"
proof -
  obtain r1 s1 where s1: "sourceStore env R h d s = (r1, s1)"
    by (cases "sourceStore env R h d s")
  have eq: "s' = s1"
    using assms(1) s1 by (auto simp: storeBoth_def fsStore_def split: prod.splits option.splits sum.splits)
  show ?thesis
  proof (cases "coLocal s")
    case True
    then have "fsStore env h (Inr d) (coCache s) = (r1, coCache s1)" "coLocal s1"
      using s1 by (auto simp: sourceStore_def split: prod.splits)
    moreover from this True have "fsLoad env h (coCache s1) = Inr x"
      using assms(2) eq by (auto simp: cacheLoad_def sourceLoad_def split: sum.splits if_splits)
    ultimately have "x = d \<or> fsLoad env h (coCache s) = Inr x"
      using fs.store_load fs.store_failed by (cases r1) blast+
    then show ?thesis
      by (auto simp: cacheLoad_def)
  next
    case False
    then have "rStore R h d (coSource s) = (r1, coSource s1)" "coCache s1 = coCache s" "\<not> coLocal s1"
      using s1 by (auto simp: sourceStore_def split: prod.splits)
    then have "x = d \<or> rLoad R h (coSource s) = Inr x" if "rLoad R h (coSource s1) = Inr x"
      using remote.store_load [OF _ that] remote.store_failed [OF _ that] by (cases r1) blast+
    then show ?thesis
      using assms(2) eq False \<open>coCache s1 = coCache s\<close> \<open>\<not> coLocal s1\<close>
      by (auto simp: cacheLoad_def sourceLoad_def split: sum.splits if_splits)
  qed
qed

end

sublocale cached_source \<subseteq> cached: artifact_store "cacheContains env R" "cacheLoad env R" "storeBoth env R"
  by unfold_locales (fact cached_load_contained cached_store_load cached_store_failed cached_store_other)+

text \<open>A source in another directory of the file system.\<close>

definition fsRemote :: "os_env \<Rightarrow> hash_dir remote_ops" where
  "fsRemote env = \<lparr> rContains = fsContains env, rLoad = fsLoad env, rStore = (\<lambda>h d. fsStore env h (Inr d)) \<rparr>"

lemma fsRemote_contract: "artifact_store (rContains (fsRemote env)) (rLoad (fsRemote env)) (rStore (fsRemote env))"
  by (simp add: fsRemote_def fs.artifact_store_axioms)

interpretation two_dirs: cached_source "fsRemote env'" env for env' env
  by (rule cached_source.intro [OF fsRemote_contract])

text \<open>The cache used when there is no configuration: it holds nothing and keeps the contract by never loading.\<close>

definition noopContains :: "string \<Rightarrow> unit \<Rightarrow> err option" where
  "noopContains hash s = Some (NewArtifactNotFoundHashError hash)"

definition noopLoad :: "string \<Rightarrow> unit \<Rightarrow> err + bytes" where
  "noopLoad hash s = Inl (NewArtifactNotFoundHashError hash)"

definition noopStore :: "string \<Rightarrow> bytes \<Rightarrow> unit \<Rightarrow> err option \<times> unit" where
  "noopStore hash data s = (None, s)"

interpretation noop: artifact_store noopContains noopLoad noopStore
  by unfold_locales (simp_all add: noopContains_def noopLoad_def noopStore_def)

text \<open>
  C32. The cached store is a store: over any source that keeps the contract of the interface, what it loads
  after a successful store is what was stored, other hashes are unaffected, and storing content
  under its own hash never breaks the agreement of hashes and contents, whether or not the store fails halfway.
\<close>

theorem cached_store_keeps_contract:
  fixes env :: os_env
  assumes "artifact_store (rContains R) (rLoad R) (rStore R)" "storeBoth env R (computeHash d) d s = (r, s')"
  shows "(r = None \<longrightarrow> (\<forall>x. cacheLoad env R (computeHash d) s' = Inr x \<longrightarrow> x = d)) \<and>
    (\<forall>h. h \<noteq> computeHash d \<longrightarrow> cacheLoad env R h s' = cacheLoad env R h s) \<and>
    ((\<forall>h x. cacheLoad env R h s = Inr x \<longrightarrow> computeHash x = h) \<longrightarrow>
     (\<forall>h x. cacheLoad env R h s' = Inr x \<longrightarrow> computeHash x = h))"
proof -
  have c: "cached_source R"
    by (rule cached_source.intro [OF assms(1)])
  have a: "artifact_store (cacheContains env R) (cacheLoad env R) (storeBoth env R)"
    by (rule artifact_store.intro) (fact cached_source.cached_load_contained [OF c] cached_source.cached_store_load [OF c]
        cached_source.cached_store_failed [OF c] cached_source.cached_store_other [OF c])+
  have "x = d" if "r = None" "cacheLoad env R (computeHash d) s' = Inr x" for x
    using cached_source.cached_store_load [OF c _ that(2)] assms(2) that(1) by blast
  moreover note cached_source.cached_store_other [OF c assms(2)]
  moreover note artifact_store.store_intact [OF a _ assms(2), unfolded artifact_store.intact_def [OF a]]
  ultimately show ?thesis
    by blast
qed

abbreviation noFaults :: os_env where
  "noFaults \<equiv> \<lparr> fault = (\<lambda>_ _. None) \<rparr>"

abbreviation emptyStores :: "hash_dir store_pair" where
  "emptyStores \<equiv> \<lparr> coLocal = False, coCache = [], coSource = [] \<rparr>"

theorem cached_store_keeps_contract_witness:
  "\<exists>s'. storeBoth noFaults (fsRemote noFaults) (computeHash [1, 2]) [1, 2] emptyStores = (None, s') \<and>
     cacheLoad noFaults (fsRemote noFaults) (computeHash [1, 2]) s' = Inr [1, 2]"
proof -
  let ?s = "emptyStores\<lparr>coSource := [(computeHash [1, 2], [1, 2])], coCache := [(computeHash [1, 2], [1, 2])]\<rparr>"
  have st: "storeBoth noFaults (fsRemote noFaults) (computeHash [1, 2]) [1, 2] emptyStores = (None, ?s)"
    by (simp add: storeBoth_def sourceStore_def fsRemote_def fsStore_def AtomicStore_def)
  have ld: "\<exists>x. cacheLoad noFaults (fsRemote noFaults) (computeHash [1, 2]) ?s = Inr x"
    by (simp add: cacheLoad_def fsLoad_def fsContains_def)
  show ?thesis
    using cached_store_keeps_contract [OF fsRemote_contract st] st ld by blast
qed

end
