(* ===== verification/ArtifactCache.thy ===== *)
theory ArtifactCache
  imports ArtifactStore
begin

text \<open>
  The cache of artifacts (\<^verbatim>\<open>src/artifact/cache.go\<close>, \<^verbatim>\<open>emplaceFile\<close> of \<^verbatim>\<open>src/artifact/file.go\<close>): it keeps a
  user-visible directory, the tree of versioned artifacts and the stores in agreement.  The user-visible
  directory is a tree of files and directories, and paths are lists of names below it; it is taken to be
  disjoint from the files of the stores, and the names in the tree to be single path components.  A
  directory lists its entries in the order of the list.
\<close>

section \<open>The user-visible directory\<close>

datatype fs_node =
    File bytes
  | Dir "(string \<times> fs_node) list"

definition eNotExist :: err where
  "eNotExist = ErrTyped ''fs.PathError'' ''no such file or directory''"

definition eNotDir :: err where
  "eNotDir = ErrTyped ''fs.PathError'' ''not a directory''"

definition eIsDir :: err where
  "eIsDir = ErrTyped ''fs.PathError'' ''is a directory''"

fun fsGet :: "fs_node \<Rightarrow> string list \<Rightarrow> fs_node option" where
  "fsGet n [] = Some n"
| "fsGet (File d) (p # ps) = None"
| "fsGet (Dir es) (p # ps) = (case mget es p of None \<Rightarrow> None | Some n \<Rightarrow> fsGet n ps)"

text \<open>Set the entry of an existing directory.\<close>

fun fsPut :: "string list \<Rightarrow> fs_node \<Rightarrow> fs_node \<Rightarrow> fs_node" where
  "fsPut [] v n = v"
| "fsPut (p # ps) v (File d) = File d"
| "fsPut [p] v (Dir es) = Dir (mput p v es)"
| "fsPut (p # q # ps) v (Dir es) =
     (case mget es p of None \<Rightarrow> Dir es | Some n \<Rightarrow> Dir (mput p (fsPut (q # ps) v n) es))"

text \<open>Remove an entry with all below it.\<close>

fun fsDel :: "string list \<Rightarrow> fs_node \<Rightarrow> fs_node" where
  "fsDel [] n = n"
| "fsDel (p # ps) (File d) = File d"
| "fsDel [p] (Dir es) = Dir (mdel p es)"
| "fsDel (p # q # ps) (Dir es) =
     (case mget es p of None \<Rightarrow> Dir es | Some n \<Rightarrow> Dir (mput p (fsDel (q # ps) n) es))"

fun mkdirAll :: "string list \<Rightarrow> fs_node \<Rightarrow> err + fs_node" where
  "mkdirAll ps (File d) = Inl eNotDir"
| "mkdirAll [] (Dir es) = Inr (Dir es)"
| "mkdirAll (p # ps) (Dir es) =
     (case mkdirAll ps (case mget es p of None \<Rightarrow> Dir [] | Some n \<Rightarrow> n) of
        Inl e \<Rightarrow> Inl e
      | Inr n \<Rightarrow> Inr (Dir (mput p n es)))"

section \<open>State\<close>

record 's cached_store = "'s store_pair" +
  csConfig :: artifact_config
  csRootDir :: string
  csUser :: fs_node
  csTreeFile :: "json option"

text \<open>
  \<^verbatim>\<open>commitFn\<close> of a loaded configuration: open the tree file, truncate it, encode the tree into it.  A
  failure after the truncation leaves a file without a tree (\<^const>\<open>None\<close>).
\<close>

definition commitFn :: "'a os_env_scheme \<Rightarrow> 's cached_store \<Rightarrow> err option \<times> 's cached_store" where
  "commitFn env s =
     (case firstFault env [''OpenFile'', ''Truncate''] TreeFile of
        Some e \<Rightarrow> (Some e, s)
      | None \<Rightarrow>
          (case fault env ''Encode'' TreeFile of
             Some e \<Rightarrow> (Some e, s\<lparr>csTreeFile := None\<rparr>)
           | None \<Rightarrow> (None, s\<lparr>csTreeFile := Some (MarshalJSON (InternalNode (cfgTree (csConfig s))))\<rparr>)))"

section \<open>Ensure\<close>

text \<open>The second half of \<^verbatim>\<open>emplaceFile\<close>: create the parents, copy the cached file beside the target, rename.\<close>

definition emplaceNew :: "'a os_env_scheme \<Rightarrow> string \<Rightarrow> string list \<Rightarrow> 's cached_store \<Rightarrow> err option \<times> 's cached_store" where
  "emplaceNew env hash path s =
     (case fault env ''MkdirAll'' (InUser (butlast path)) of
        Some e \<Rightarrow> (Some e, s)
      | None \<Rightarrow>
          (case mkdirAll (butlast path) (csUser s) of
             Inl e \<Rightarrow> (Some e, s)
           | Inr user \<Rightarrow>
               let s1 = s\<lparr>csUser := user\<rparr> in
               (case fsLoad env hash (coCache s1) of
                  Inl e \<Rightarrow> (Some e, s1)
                | Inr hashFile \<Rightarrow>
                    (case AtomicStore env (InUser path) (Inr hashFile) of
                       Inl e \<Rightarrow> (Some e, s1)
                     | Inr data \<Rightarrow> (None, s1\<lparr>csUser := fsPut path (File data) user\<rparr>)))))"

definition openUser :: "'a os_env_scheme \<Rightarrow> string list \<Rightarrow> fs_node \<Rightarrow> err + fs_node" where
  "openUser env path user =
     (case fault env ''Open'' (InUser path) of
        Some e \<Rightarrow> Inl e
      | None \<Rightarrow> (case fsGet user path of None \<Rightarrow> Inl eNotExist | Some n \<Rightarrow> Inr n))"

definition readUser :: "'a os_env_scheme \<Rightarrow> string list \<Rightarrow> fs_node \<Rightarrow> err + bytes" where
  "readUser env path n =
     (case fault env ''Read'' (InUser path) of
        Some e \<Rightarrow> Inl e
      | None \<Rightarrow> (case n of File d \<Rightarrow> Inr d | Dir _ \<Rightarrow> Inl eIsDir))"

definition emplaceFile :: "'a os_env_scheme \<Rightarrow> string \<Rightarrow> string list \<Rightarrow> 's cached_store \<Rightarrow> err option \<times> 's cached_store" where
  "emplaceFile env hash path s =
     (case fsContains env hash (coCache s) of
        Some e \<Rightarrow> (Some e, s)
      | None \<Rightarrow>
          (case openUser env path (csUser s) of
             Inl _ \<Rightarrow> emplaceNew env hash path s
           | Inr existing \<Rightarrow>
               (case readUser env path existing of
                  Inl e \<Rightarrow> (Some e, s)
                | Inr data \<Rightarrow>
                    (case fault env ''Close'' (InUser path) of
                       Some e \<Rightarrow> (Some e, s)
                     | None \<Rightarrow>
                         if computeHash data = hash then (None, s)
                         else (case fault env ''Remove'' (InUser path) of
                             Some _ \<Rightarrow> (Some (ErrText ''error removing old artifact''), s)
                           | None \<Rightarrow> emplaceNew env hash path (s\<lparr>csUser := fsDel path (csUser s)\<rparr>))))))"

text \<open>An external node.  The empty path, for an artifact too large to pull, is \<^const>\<open>None\<close>.\<close>

definition ensureExternal ::
    "'a os_env_scheme \<Rightarrow> 's remote_ops \<Rightarrow> string \<Rightarrow> int \<Rightarrow> string list \<Rightarrow> bool \<Rightarrow> 's cached_store
      \<Rightarrow> (err + string list option) \<times> 's cached_store" where
  "ensureExternal env R nodeHash nodeSize dstPath ignoreLimit s =
     (case fsContains env nodeHash (coCache s) of
        None \<Rightarrow>
          (case emplaceFile env nodeHash dstPath s of
             (Some e, s1) \<Rightarrow> (Inl (ErrWrap ''error emplacing into file system cache'' e), s1)
           | (None, s1) \<Rightarrow> (Inr (Some dstPath), s1))
      | Some e \<Rightarrow>
          if \<not> IsNotFoundError e then (Inl (ErrWrap ''error checking if hash is in file system cache'' e), s)
          else if \<not> ignoreLimit \<and> cfgSourcePullSizeLimit (csConfig s) \<noteq> 0 \<and> cfgSourcePullSizeLimit (csConfig s) < nodeSize
          then (Inr None, s)
          else
            (case sourceLoad env R nodeHash s of
               Inl e \<Rightarrow> (Inl (ErrWrap ''error loading from source cache'' e), s)
             | Inr rc \<Rightarrow>
                 (case fsStore env nodeHash (Inr rc) (coCache s) of
                    (Some e, c) \<Rightarrow> (Inl (ErrWrap ''error storing into file system cache'' e), s\<lparr>coCache := c\<rparr>)
                  | (None, c) \<Rightarrow>
                      (case emplaceFile env nodeHash dstPath (s\<lparr>coCache := c\<rparr>) of
                         (Some e, s1) \<Rightarrow> (Inl (ErrWrap ''error emplacing into file system cache'' e), s1)
                       | (None, s1) \<Rightarrow> (Inr (Some dstPath), s1)))))"

text \<open>The loop over the children of an internal node; each child comes with its own call.\<close>

fun ensureAll ::
    "(string \<times> (string list \<Rightarrow> 's cached_store \<Rightarrow> (err + string list option) \<times> 's cached_store)) list \<Rightarrow> string list
      \<Rightarrow> 's cached_store \<Rightarrow> (err + string list option) \<times> 's cached_store" where
  "ensureAll [] dstPath s = (Inr (Some dstPath), s)"
| "ensureAll ((name, call) # cs) dstPath s =
     (case call (dstPath @ [name]) s of
        (Inl e, s1) \<Rightarrow> (Inl e, s1)
      | (Inr _, s1) \<Rightarrow> ensureAll cs dstPath s1)"

primrec ensureNode ::
    "tree_node \<Rightarrow> 'a os_env_scheme \<Rightarrow> 's remote_ops \<Rightarrow> bool \<Rightarrow> string list \<Rightarrow> 's cached_store
      \<Rightarrow> (err + string list option) \<times> 's cached_store" where
  "ensureNode (InternalNode t) =
     (\<lambda>env R ignoreLimit dstPath s. ensureAll (map (map_prod id (\<lambda>f. f env R ignoreLimit)) (map (map_prod id ensureNode) t)) dstPath s)"
| "ensureNode (ExternalNode h n) = (\<lambda>env R ignoreLimit dstPath s. ensureExternal env R h n dstPath ignoreLimit s)"

definition newUserPath :: "string \<Rightarrow> string list" where
  "newUserPath path = (if path = ''/'' then [] else splitOn CHR ''/'' path)"

definition Ensure ::
    "'a os_env_scheme \<Rightarrow> 's remote_ops \<Rightarrow> string \<Rightarrow> bool \<Rightarrow> 's cached_store \<Rightarrow> (err + string list option) \<times> 's cached_store" where
  "Ensure env R path ignoreLimit s =
     (case Lookup path (csConfig s) of
        Inl e \<Rightarrow> (Inl e, s)
      | Inr node \<Rightarrow> ensureNode node env R ignoreLimit (newUserPath path) s)"

section \<open>Remove and clean\<close>

definition trimPrefix :: "string \<Rightarrow> string \<Rightarrow> string" where
  "trimPrefix s p = (if prefix p s then drop (length p) s else s)"

text \<open>\<^verbatim>\<open>Remove\<close> takes a path in the tree or below the root directory.\<close>

definition removeArg :: "string \<Rightarrow> string \<Rightarrow> string" where
  "removeArg rootDir path =
     (let path1 = (if prefix rootDir path then trimPrefix path (rootDir @ ''/'') else path)
      in if path1 \<noteq> ''/'' then trimPrefix path1 ''/'' else path1)"

definition Remove :: "'a os_env_scheme \<Rightarrow> string \<Rightarrow> 's cached_store \<Rightarrow> err option \<times> 's cached_store" where
  "Remove env path s = commitFn env (s\<lparr>csConfig := RemovePath (removeArg (csRootDir s) path) (csConfig s)\<rparr>)"

definition readDir :: "'a os_env_scheme \<Rightarrow> string list \<Rightarrow> fs_node \<Rightarrow> err + (string \<times> fs_node) list" where
  "readDir env path user =
     (case fault env ''ReadDir'' (InUser path) of
        Some e \<Rightarrow> Inl e
      | None \<Rightarrow> (case fsGet user path of None \<Rightarrow> Inl eNotExist | Some (File _) \<Rightarrow> Inl eNotDir | Some (Dir es) \<Rightarrow> Inr es))"

text \<open>
  The loop over the local entries: an entry the tree does not know is removed, an internal one is cleaned
  in turn, an external one is left alone.
\<close>

fun cleanEntries ::
    "'a os_env_scheme \<Rightarrow> string list \<Rightarrow> (string, string list \<Rightarrow> fs_node \<Rightarrow> err option \<times> fs_node) gomap \<Rightarrow> string list
      \<Rightarrow> fs_node \<Rightarrow> err option \<times> fs_node" where
  "cleanEntries env [] tree localPath user = (None, user)"
| "cleanEntries env (name # names) tree localPath user =
     (case mget tree name of
        Some call \<Rightarrow>
          (case call (localPath @ [name]) user of
             (Some e, user1) \<Rightarrow> (Some e, user1)
           | (None, user1) \<Rightarrow> cleanEntries env names tree localPath user1)
      | None \<Rightarrow>
          (case fault env ''RemoveAll'' (InUser (localPath @ [name])) of
             Some e \<Rightarrow> (Some e, user)
           | None \<Rightarrow> cleanEntries env names tree localPath (fsDel (localPath @ [name]) user)))"

primrec cleanNode :: "tree_node \<Rightarrow> 'a os_env_scheme \<Rightarrow> string list \<Rightarrow> fs_node \<Rightarrow> err option \<times> fs_node" where
  "cleanNode (InternalNode t) =
     (\<lambda>env localPath user.
        case readDir env localPath user of
          Inl e \<Rightarrow> (Some e, user)
        | Inr es \<Rightarrow>
            cleanEntries env (map fst es) (map (map_prod id (\<lambda>f. f env)) (map (map_prod id cleanNode) t)) localPath user)"
| "cleanNode (ExternalNode h n) = (\<lambda>env localPath user. (None, user))"

definition Clean :: "'a os_env_scheme \<Rightarrow> 's cached_store \<Rightarrow> err option \<times> 's cached_store" where
  "Clean env s =
     (case cleanNode (InternalNode (cfgTree (csConfig s))) env [] (csUser s) of (r, user) \<Rightarrow> (r, s\<lparr>csUser := user\<rparr>))"

section \<open>Walking the user-visible directory\<close>

datatype node_change = Unstored | Modified

record cache_status =
  stModified :: "string list list"
  stUnstored :: "string list list"

text \<open>A walk threads the store and the status being built.\<close>

type_synonym 's walk_state = "'s cached_store \<times> cache_status"

type_synonym 's walk_call = "string list \<Rightarrow> 's walk_state \<Rightarrow> err option \<times> 's walk_state"

type_synonym 's walk_visit =
  "node_change \<Rightarrow> string \<Rightarrow> string list \<Rightarrow> bytes \<Rightarrow> 's walk_state \<Rightarrow> err option \<times> 's walk_state"

text \<open>Replace the node at a path whose parents are internal nodes.\<close>

fun putNode :: "string list \<Rightarrow> tree_node \<Rightarrow> node_tree \<Rightarrow> node_tree" where
  "putNode [] v t = t"
| "putNode [p] v t = mput p v t"
| "putNode (p # q # ps) v t =
     (case mget t p of Some (InternalNode t1) \<Rightarrow> mput p (InternalNode (putNode (q # ps) v t1)) t | _ \<Rightarrow> t)"

definition internalAt :: "string list \<Rightarrow> node_tree \<Rightarrow> bool" where
  "internalAt path t = (case lookup t path of Some node \<Rightarrow> IsInternal node | None \<Rightarrow> False)"

text \<open>Entering a directory: the tree gets an internal node for it when it has none.\<close>

definition enterDir :: "string list \<Rightarrow> node_tree \<Rightarrow> node_tree" where
  "enterDir path t = (if internalAt path t then t else putNode path (InternalNode []) t)"

definition setTree :: "(node_tree \<Rightarrow> node_tree) \<Rightarrow> 's cached_store \<Rightarrow> 's cached_store" where
  "setTree f s = s\<lparr>csConfig := (csConfig s)\<lparr>cfgTree := f (cfgTree (csConfig s))\<rparr>\<rparr>"

definition walkFile :: "'a os_env_scheme \<Rightarrow> 's walk_visit \<Rightarrow> bytes \<Rightarrow> 's walk_call" where
  "walkFile env visit data path x =
     (if last path \<in> set (cfgIgnoreSet (csConfig (fst x))) then (None, x)
      else case fault env ''Stat'' (InUser path) of
        Some e \<Rightarrow> (Some e, x)
      | None \<Rightarrow>
          (case fault env ''Open'' (InUser path) of
             Some e \<Rightarrow> (Some (ErrWrap ''error opening file to write through cache'' e), x)
           | None \<Rightarrow>
               (case fault env ''Read'' (InUser path) of
                  Some e \<Rightarrow> (Some e, x)
                | None \<Rightarrow>
                    let nodeHash = computeHash data in
                    (case lookup (cfgTree (csConfig (fst x))) path of
                       Some (ExternalNode h n) \<Rightarrow>
                         if h = nodeHash then (None, x) else visit Modified nodeHash path data x
                     | Some (InternalNode t) \<Rightarrow> visit Modified nodeHash path data x
                     | None \<Rightarrow> visit Unstored nodeHash path data x))))"

fun walkEntries :: "(string \<times> 's walk_call) list \<Rightarrow> 's walk_call" where
  "walkEntries [] localPath x = (None, x)"
| "walkEntries ((name, call) # cs) localPath x =
     (case call (localPath @ [name]) x of
        (Some e, x1) \<Rightarrow> (Some e, x1)
      | (None, x1) \<Rightarrow> walkEntries cs localPath x1)"

definition walkDir :: "'a os_env_scheme \<Rightarrow> (string \<times> 's walk_call) list \<Rightarrow> 's walk_call" where
  "walkDir env entries localPath x =
     (case fault env ''ReadDir'' (InUser localPath) of
        Some e \<Rightarrow> (Some e, x)
      | None \<Rightarrow> walkEntries entries localPath x)"

primrec walkNode :: "fs_node \<Rightarrow> 'a os_env_scheme \<Rightarrow> 's walk_visit \<Rightarrow> 's walk_call" where
  "walkNode (File d) = (\<lambda>env visit path x. walkFile env visit d path x)"
| "walkNode (Dir es) =
     (\<lambda>env visit path x.
        case fault env ''Stat'' (InUser path) of
          Some e \<Rightarrow> (Some e, x)
        | None \<Rightarrow>
            walkDir env (map (map_prod id (\<lambda>f. f env visit)) (map (map_prod id walkNode) es)) path
              (setTree (enterDir path) (fst x), snd x))"

definition walkUserTreeUncached :: "'a os_env_scheme \<Rightarrow> 's walk_visit \<Rightarrow> 's walk_state \<Rightarrow> err option \<times> 's walk_state" where
  "walkUserTreeUncached env visit x =
     (case csUser (fst x) of
        File _ \<Rightarrow> (Some eNotDir, x)
      | Dir es \<Rightarrow> walkDir env (map (\<lambda>(name, n). (name, walkNode n env visit)) es) [] x)"

definition writeVisit :: "'a os_env_scheme \<Rightarrow> 's remote_ops \<Rightarrow> 's walk_visit" where
  "writeVisit env R changeType nodeHash path data x =
     (case storeBoth env R nodeHash data (fst x) of
        (Some e, s1) \<Rightarrow> (Some e, (s1, snd x))
      | (None, s1) \<Rightarrow> (None, (s1\<lparr>csConfig := StoreHash nodeHash (int (length data)) path (csConfig s1)\<rparr>, snd x)))"

definition statusVisit :: "'s walk_visit" where
  "statusVisit changeType nodeHash path data x =
     (None, (fst x, case changeType of
        Unstored \<Rightarrow> (snd x)\<lparr>stUnstored := stUnstored (snd x) @ [path]\<rparr>
      | Modified \<Rightarrow> (snd x)\<lparr>stModified := stModified (snd x) @ [path]\<rparr>))"

definition noStatus :: cache_status where
  "noStatus = \<lparr> stModified = [], stUnstored = [] \<rparr>"

definition writeThroughUserTree :: "'a os_env_scheme \<Rightarrow> 's remote_ops \<Rightarrow> 's cached_store \<Rightarrow> err option \<times> 's cached_store" where
  "writeThroughUserTree env R s =
     (case walkUserTreeUncached env (writeVisit env R) (s, noStatus) of (r, x) \<Rightarrow> (r, fst x))"

definition WriteThroughUser :: "'a os_env_scheme \<Rightarrow> 's remote_ops \<Rightarrow> 's cached_store \<Rightarrow> err option \<times> 's cached_store" where
  "WriteThroughUser env R s =
     (case writeThroughUserTree env R s of
        (Some e, s1) \<Rightarrow> (Some e, s1)
      | (None, s1) \<Rightarrow> commitFn env s1)"

definition Status :: "'a os_env_scheme \<Rightarrow> 's cached_store \<Rightarrow> (err + cache_status) \<times> 's cached_store" where
  "Status env s =
     (case walkUserTreeUncached env statusVisit (s, noStatus) of
        (Some e, x) \<Rightarrow> (Inl e, fst x)
      | (None, x) \<Rightarrow> (Inr (snd x), fst x))"

end
