(* ===== verification/ArtifactSync.thy ===== *)
theory ArtifactSync
  imports ArtifactCache
begin

text \<open>
  What the walks over the user-visible directory achieve: after writing through, the tree records every
  file and a status finds nothing to do.
\<close>

section \<open>The kind of a tree node\<close>

text \<open>Nothing, a directory, or an artifact with its hash; the root is a directory.\<close>

definition kind :: "node_tree \<Rightarrow> string list \<Rightarrow> string option option" where
  "kind t path =
     (if path = [] then Some None
      else case lookup t path of None \<Rightarrow> None | Some (InternalNode _) \<Rightarrow> Some None | Some (ExternalNode h n) \<Rightarrow> Some (Some h))"

lemma kind_Nil [simp]: "kind t [] = Some None"
  by (simp add: kind_def)

lemma kind_Cons:
  "kind t (p # q) =
     (case mget t p of
        None \<Rightarrow> None
      | Some (ExternalNode h n) \<Rightarrow> if q = [] then Some (Some h) else None
      | Some (InternalNode s) \<Rightarrow> kind s q)"
  by (cases q) (auto simp: kind_def split: option.splits tree_node.splits)

lemma kind_empty: "q \<noteq> [] \<Longrightarrow> kind [] q = None"
  by (cases q) (simp_all add: kind_Cons)

lemma kind_artifacts: "kind t q = Some (Some h) \<Longrightarrow> \<exists>n. artifacts t q = Some (h, n)"
  by (auto simp: kind_def artifacts_def split: if_splits option.splits tree_node.splits)

lemma kind_internalAt: "path \<noteq> [] \<Longrightarrow> internalAt path t \<longleftrightarrow> kind t path = Some None"
  by (auto simp: kind_def internalAt_def split: option.splits tree_node.splits)

lemma kind_storeHash:
  "p \<noteq> [] \<Longrightarrow> kind (storeHash h n p t) q =
     (if q = p then Some (Some h) else if prefix p q then None else if prefix q p then Some None else kind t q)"
proof (induction h n p t arbitrary: q rule: storeHash.induct)
  case (2 h n p t)
  then show ?case
    by (cases q) (auto simp: kind_Cons kind_empty)
next
  case (3 h n p p' path t)
  show ?case
  proof (cases q)
    case (Cons x xs)
    then show ?thesis
      using 3 by (cases "mget t p"; cases xs)
        (auto simp: kind_Cons [of _ p] kind_Cons [of _ x] kind_empty split: tree_node.splits)
  qed simp
qed simp

lemma kind_putNode:
  "p \<noteq> [] \<Longrightarrow> (\<And>q. strict_prefix q p \<Longrightarrow> kind t q = Some None) \<Longrightarrow>
   kind (putNode p (InternalNode []) t) q = (if q = p then Some None else if prefix p q then None else kind t q)"
proof (induction p "InternalNode []" t arbitrary: q rule: putNode.induct)
  case (2 p t)
  then show ?case
    by (cases q) (auto simp: kind_Cons kind_empty)
next
  case (3 p p' path t)
  have "kind t [p] = Some None"
    by (rule "3.prems"(2)) simp
  then obtain s where s: "mget t p = Some (InternalNode s)"
    by (auto simp: kind_Cons split: option.splits tree_node.splits)
  have "kind s r = Some None" if "strict_prefix r (p' # path)" for r
    using "3.prems"(2) [of "p # r"] that s by (simp add: kind_Cons [of _ p])
  then have IH: "kind (putNode (p' # path) (InternalNode []) s) r =
      (if r = p' # path then Some None else if prefix (p' # path) r then None else kind s r)" for r
    using "3.hyps" [OF s] by simp
  show ?case
  proof (cases q)
    case (Cons x xs)
    then show ?thesis
      using IH s by (auto simp: kind_Cons [of _ p] kind_Cons [of _ x])
  qed simp
qed simp

lemma kind_enterDir:
  assumes "p \<noteq> []" "\<And>q. strict_prefix q p \<Longrightarrow> kind t q = Some None"
  shows "kind (enterDir p t) p = Some None" "\<not> prefix p q \<Longrightarrow> kind (enterDir p t) q = kind t q"
  using assms kind_putNode [OF assms] by (auto simp: enterDir_def kind_internalAt)

section \<open>Directories\<close>

primrec wfFs :: "fs_node \<Rightarrow> bool" where
  "wfFs (File d) \<longleftrightarrow> True"
| "wfFs (Dir es) \<longleftrightarrow> wfmap es \<and> list_all snd (map (map_prod id wfFs) es)"

lemma wfFs_Dir: "wfFs (Dir es) \<longleftrightarrow> wfmap es \<and> (\<forall>(k, v) \<in> set es. wfFs v)"
  by (auto simp: list_all_iff)

declare wfFs.simps(2) [simp del]

text \<open>
  The tree and the directory agree at and below a path, and no system call there fails.
\<close>

fun settledAt :: "os_env \<Rightarrow> string set \<Rightarrow> (string list \<Rightarrow> string option option) \<Rightarrow> string list \<Rightarrow> fs_node \<Rightarrow> bool" where
  "settledAt env ig K path (File d) \<longleftrightarrow> last path \<in> ig \<or>
     K path = Some (Some (computeHash d)) \<and> firstFault env [''Stat'', ''Open'', ''Read''] (InUser path) = None"
| "settledAt env ig K path (Dir es) \<longleftrightarrow> K path = Some None \<and> fault env ''ReadDir'' (InUser path) = None \<and>
     (path \<noteq> [] \<longrightarrow> fault env ''Stat'' (InUser path) = None)"

definition settled :: "os_env \<Rightarrow> string set \<Rightarrow> (string list \<Rightarrow> string option option) \<Rightarrow> fs_node \<Rightarrow> string list \<Rightarrow> bool" where
  "settled env ig K n path \<longleftrightarrow> (\<forall>rel m. fsGet n rel = Some m \<longrightarrow> settledAt env ig K (path @ rel) m)"

lemma fsGet_File: "fsGet (File d) rel = Some m \<longleftrightarrow> rel = [] \<and> m = File d"
  by (cases rel) auto

lemma settled_File: "settled env ig K (File d) path \<longleftrightarrow> settledAt env ig K path (File d)"
  by (auto simp: settled_def fsGet_File)

lemma settled_Dir:
  assumes "wfmap es"
  shows "settled env ig K (Dir es) path \<longleftrightarrow>
    settledAt env ig K path (Dir es) \<and> (\<forall>(name, m) \<in> set es. settled env ig K m (path @ [name]))" (is "?L \<longleftrightarrow> ?R")
proof
  assume L: ?L
  have "settledAt env ig K ((path @ [name]) @ rel) m'" if "(name, m) \<in> set es" "fsGet m rel = Some m'" for name m rel m'
    using L that map_of_is_SomeI [OF assms that(1)] unfolding settled_def by (auto dest!: spec [of _ "name # rel"])
  then show ?R
    using L unfolding settled_def by (auto dest: spec [of _ "[]"])
next
  assume R: ?R
  have "settledAt env ig K (path @ rel) m" if get: "fsGet (Dir es) rel = Some m" for rel m
  proof (cases rel)
    case (Cons name rest)
    with get obtain m' where m': "mget es name = Some m'" "fsGet m' rest = Some m"
      by (auto split: option.splits)
    then have "settled env ig K m' (path @ [name])"
      using R by (auto dest: map_of_SomeD)
    then show ?thesis
      using Cons m'(2) unfolding settled_def by fastforce
  qed (use R get in auto)
  then show ?L
    by (simp add: settled_def)
qed

lemma settled_cong: "(\<And>q. prefix path q \<Longrightarrow> K q = K' q) \<Longrightarrow> settled env ig K n path \<longleftrightarrow> settled env ig K' n path"
proof -
  assume eq: "\<And>q. prefix path q \<Longrightarrow> K q = K' q"
  have "settledAt env ig K (path @ rel) m \<longleftrightarrow> settledAt env ig K' (path @ rel) m" for rel m
    using eq [of "path @ rel"] by (cases m) simp_all
  then show ?thesis
    by (simp add: settled_def)
qed

section \<open>Writing through\<close>

abbreviation treeOf :: "'s walk_state \<Rightarrow> node_tree" where
  "treeOf x \<equiv> cfgTree (csConfig (fst x))"

abbreviation ignoreOf :: "'s walk_state \<Rightarrow> string set" where
  "ignoreOf x \<equiv> set (cfgIgnoreSet (csConfig (fst x)))"

text \<open>What a walk of the node at a path leaves behind.\<close>

definition wroteNode :: "os_env \<Rightarrow> fs_node \<Rightarrow> string list \<Rightarrow> 's walk_state \<Rightarrow> 's walk_state \<Rightarrow> bool" where
  "wroteNode env n path x x' \<longleftrightarrow>
     settled env (ignoreOf x) (kind (treeOf x')) n path \<and>
     (\<forall>q. \<not> prefix path q \<longrightarrow> kind (treeOf x') q = kind (treeOf x) q) \<and>
     ignoreOf x' = ignoreOf x \<and> csUser (fst x') = csUser (fst x)"

definition dirsAbove :: "string list \<Rightarrow> 's walk_state \<Rightarrow> bool" where
  "dirsAbove path x \<longleftrightarrow> (\<forall>q. strict_prefix q path \<longrightarrow> kind (treeOf x) q = Some None)"

lemma storeBoth_keeps:
  assumes "storeBoth env R h d s = (r, s')"
  shows "csConfig s' = csConfig s" "csUser s' = csUser s" "csTreeFile s' = csTreeFile s"
  using assms by (auto simp: storeBoth_def sourceStore_def split: prod.splits option.splits if_splits)

lemma walkFile_visits:
  assumes "walkFile env visit d path x = (None, x')" "last path \<notin> ignoreOf x" "path \<noteq> []"
  shows "firstFault env [''Stat'', ''Open'', ''Read''] (InUser path) = None"
    "kind (treeOf x) path = Some (Some (computeHash d)) \<and> x' = x \<or> (\<exists>c. visit c (computeHash d) path d x = (None, x'))"
proof -
  have f: "fault env ''Stat'' (InUser path) = None" "fault env ''Open'' (InUser path) = None" "fault env ''Read'' (InUser path) = None"
    using assms(1,2) by (simp_all add: walkFile_def split: option.splits)
  then show "firstFault env [''Stat'', ''Open'', ''Read''] (InUser path) = None"
    by simp
  have w: "walkFile env visit d path x = (case lookup (treeOf x) path of
      Some (ExternalNode h n) \<Rightarrow> if h = computeHash d then (None, x) else visit Modified (computeHash d) path d x
    | Some (InternalNode t) \<Rightarrow> visit Modified (computeHash d) path d x
    | None \<Rightarrow> visit Unstored (computeHash d) path d x)"
    using f assms(2) by (simp add: walkFile_def Let_def)
  show "kind (treeOf x) path = Some (Some (computeHash d)) \<and> x' = x \<or> (\<exists>c. visit c (computeHash d) path d x = (None, x'))"
    using assms(1,3) unfolding w by (auto simp: kind_def split: option.splits tree_node.splits if_splits)
qed

lemma walkFile_writes:
  assumes "walkFile env (writeVisit env R) d path x = (None, x')" "path \<noteq> []" "dirsAbove path x"
  shows "wroteNode env (File d) path x x'"
proof (cases "last path \<in> ignoreOf x")
  case True
  then have "x' = x"
    using assms(1) by (simp add: walkFile_def)
  with True show ?thesis
    by (simp add: wroteNode_def settled_File)
next
  case False
  note v = walkFile_visits [OF assms(1) False assms(2)]
  from v(2) show ?thesis
  proof
    assume "kind (treeOf x) path = Some (Some (computeHash d)) \<and> x' = x"
    with v(1) show ?thesis
      by (simp add: wroteNode_def settled_File)
  next
    assume "\<exists>c. writeVisit env R c (computeHash d) path d x = (None, x')"
    then obtain s1 where s1: "storeBoth env R (computeHash d) d (fst x) = (None, s1)"
      "x' = (s1\<lparr>csConfig := StoreHash (computeHash d) (int (length d)) path (csConfig s1)\<rparr>, snd x)"
      by (auto simp: writeVisit_def split: prod.splits option.splits)
    note keeps = storeBoth_keeps [OF s1(1)]
    have K: "kind (treeOf x') q = (if q = path then Some (Some (computeHash d)) else if prefix path q then None
        else if prefix q path then Some None else kind (treeOf x) q)" for q
      using s1(2) keeps kind_storeHash [OF assms(2)] by (simp add: StoreHash_def)
    have "kind (treeOf x') q = kind (treeOf x) q" if "\<not> prefix path q" for q
      using that assms(3) unfolding K dirsAbove_def strict_prefix_def by auto
    moreover have "kind (treeOf x') path = Some (Some (computeHash d))"
      by (simp add: K)
    ultimately show ?thesis
      using v(1) s1(2) keeps by (simp add: wroteNode_def settled_File StoreHash_def)
  qed
qed

lemma sibling_prefix: "prefix (path @ [a]) q \<Longrightarrow> prefix (path @ [b]) q \<Longrightarrow> a = b"
  by (auto simp: prefix_def)

lemma above_sibling: "strict_prefix q (path @ [a]) \<longleftrightarrow> q = path \<or> strict_prefix q path"
  by (auto simp: strict_prefix_def prefix_snoc)

lemma walkNode_Dir:
  "walkNode (Dir es) env visit path x =
     (case fault env ''Stat'' (InUser path) of
        Some e \<Rightarrow> (Some e, x)
      | None \<Rightarrow> walkDir env (map (\<lambda>(name, n). (name, walkNode n env visit)) es) path (setTree (enterDir path) (fst x), snd x))"
proof -
  have "map (map_prod id (\<lambda>f. f env visit)) (map (map_prod id walkNode) es) = map (\<lambda>(name, n). (name, walkNode n env visit)) es"
    by auto
  then show ?thesis
    by (simp del: map_map split: option.split)
qed

declare walkNode.simps(2) [simp del]

text \<open>What a walk of the entries of a directory leaves behind.\<close>

definition wroteEntries :: "os_env \<Rightarrow> (string \<times> fs_node) list \<Rightarrow> string list \<Rightarrow> 's walk_state \<Rightarrow> 's walk_state \<Rightarrow> bool" where
  "wroteEntries env es path x x' \<longleftrightarrow>
     (\<forall>(name, m) \<in> set es. settled env (ignoreOf x) (kind (treeOf x')) m (path @ [name])) \<and>
     (\<forall>q. (\<forall>name \<in> fst ` set es. \<not> prefix (path @ [name]) q) \<longrightarrow> kind (treeOf x') q = kind (treeOf x) q) \<and>
     ignoreOf x' = ignoreOf x \<and> csUser (fst x') = csUser (fst x)"

lemma walkEntries_writes:
  fixes x :: "'s walk_state"
  assumes "walkEntries (map (\<lambda>(name, n). (name, walkNode n env (writeVisit env R))) es) path x = (None, x')"
    "wfmap es" "kind (treeOf x) path = Some None" "dirsAbove path x"
    and IH: "\<And>name m y y'. (name, m) \<in> set es \<Longrightarrow> walkNode m env (writeVisit env R) (path @ [name]) y = (None, y') \<Longrightarrow>
      dirsAbove (path @ [name]) y \<Longrightarrow> wroteNode env m (path @ [name]) y y'"
  shows "wroteEntries env es path x x'"
  using assms
proof (induction es arbitrary: x)
  case Nil
  then show ?case
    by (simp add: wroteEntries_def)
next
  case (Cons e es)
  obtain name m where e: "e = (name, m)"
    by (cases e)
  obtain x1 where x1: "walkNode m env (writeVisit env R) (path @ [name]) x = (None, x1)"
    "walkEntries (map (\<lambda>(name, n). (name, walkNode n env (writeVisit env R))) es) path x1 = (None, x')"
    using Cons.prems(1) by (auto simp: e split: prod.splits option.splits)
  have "dirsAbove (path @ [name]) x"
    using Cons.prems(3,4) by (auto simp: dirsAbove_def above_sibling)
  then have w: "wroteNode env m (path @ [name]) x x1"
    using Cons.prems(5) [OF _ x1(1)] e by simp
  have "\<not> prefix (path @ [name]) q" if "q = path \<or> strict_prefix q path" for q
    using that by (auto simp: strict_prefix_def prefix_def)
  then have "kind (treeOf x1) path = Some None" "dirsAbove path x1"
    using w Cons.prems(3,4) by (simp_all add: wroteNode_def dirsAbove_def)
  moreover have "wfmap es" "name \<notin> fst ` set es"
    using Cons.prems(2) by (simp_all add: e)
  ultimately have rest: "wroteEntries env es path x1 x'"
    by (intro Cons.IH [OF x1(2)] Cons.prems(5)) simp_all
  have "\<not> prefix (path @ [nm]) q" if "nm \<in> fst ` set es" "prefix (path @ [name]) q" for nm q
    using that(1) \<open>name \<notin> fst ` set es\<close> sibling_prefix [OF that(2), of nm] by auto
  then have "kind (treeOf x') q = kind (treeOf x1) q" if "prefix (path @ [name]) q" for q
    using rest that unfolding wroteEntries_def by blast
  then have "settled env (ignoreOf x) (kind (treeOf x')) m (path @ [name])"
    using w settled_cong [of "path @ [name]" "kind (treeOf x')" "kind (treeOf x1)"] unfolding wroteNode_def by blast
  moreover have "settled env (ignoreOf x) (kind (treeOf x')) m' (path @ [nm])" if "(nm, m') \<in> set es" for nm m'
    using rest w that unfolding wroteEntries_def wroteNode_def by fastforce
  moreover have "kind (treeOf x') q = kind (treeOf x) q" if "\<forall>nm \<in> fst ` set (e # es). \<not> prefix (path @ [nm]) q" for q
    using rest w that unfolding wroteEntries_def wroteNode_def e by simp
  ultimately show ?case
    using w rest unfolding wroteEntries_def wroteNode_def e by auto
qed

lemma walkNode_writes:
  fixes x :: "'s walk_state"
  assumes "walkNode n env (writeVisit env R) path x = (None, x')" "wfFs n" "path \<noteq> []" "dirsAbove path x"
  shows "wroteNode env n path x x'"
  using assms
proof (induction n arbitrary: path x x')
  case (File d)
  then show ?case
    by (intro walkFile_writes) simp_all
next
  case (Dir es)
  let ?x = "(setTree (enterDir path) (fst x), snd x)"
  have wf: "wfmap es" "\<And>name m. (name, m) \<in> set es \<Longrightarrow> wfFs m"
    using Dir.prems(2) by (auto simp: wfFs_Dir)
  have run: "fault env ''Stat'' (InUser path) = None" "fault env ''ReadDir'' (InUser path) = None"
    "walkEntries (map (\<lambda>(name, n). (name, walkNode n env (writeVisit env R))) es) path ?x = (None, x')"
    using Dir.prems(1) by (simp_all add: walkNode_Dir walkDir_def split: option.splits)
  have K: "kind (treeOf ?x) path = Some None" "\<And>q. \<not> prefix path q \<Longrightarrow> kind (treeOf ?x) q = kind (treeOf x) q"
    using kind_enterDir [OF Dir.prems(3)] Dir.prems(4) by (simp_all add: setTree_def dirsAbove_def)
  have "dirsAbove path ?x"
    using K(2) Dir.prems(4) by (auto simp: dirsAbove_def strict_prefix_def)
  have "wroteEntries env es path ?x x'"
  proof (rule walkEntries_writes [OF run(3) wf(1) K(1) \<open>dirsAbove path ?x\<close>])
    fix name m and y y' :: "'s walk_state"
    assume "(name, m) \<in> set es" "walkNode m env (writeVisit env R) (path @ [name]) y = (None, y')" "dirsAbove (path @ [name]) y"
    then show "wroteNode env m (path @ [name]) y y'"
      using Dir.IH [of "(name, m)" m] wf(2) by simp
  qed
  moreover have "\<not> prefix (path @ [name]) q" if "\<not> prefix path q \<or> q = path" for name q
    using that by (auto simp: prefix_def)
  ultimately show ?case
    using run(1,2) K wf(1) by (auto simp: wroteNode_def wroteEntries_def settled_Dir setTree_def)
qed

section \<open>A settled directory is quiet\<close>

lemma setTree_same: "f (cfgTree (csConfig s)) = cfgTree (csConfig s) \<Longrightarrow> setTree f s = s"
  by (simp add: setTree_def)

lemma walkEntries_quiet:
  "(\<And>name m. (name, m) \<in> set es \<Longrightarrow> walkNode m env visit (path @ [name]) x = (None, x)) \<Longrightarrow>
   walkEntries (map (\<lambda>(name, n). (name, walkNode n env visit)) es) path x = (None, x)"
  by (induction es) auto

lemma walkNode_quiet:
  assumes "settled env (ignoreOf x) (kind (treeOf x)) n path" "wfFs n" "path \<noteq> []"
  shows "walkNode n env visit path x = (None, x)"
  using assms
proof (induction n arbitrary: path)
  case (File d)
  show ?case
  proof (cases "last path \<in> ignoreOf x")
    case False
    with File have "kind (treeOf x) path = Some (Some (computeHash d))"
      "firstFault env [''Stat'', ''Open'', ''Read''] (InUser path) = None"
      by (simp_all add: settled_File)
    moreover from this(1) obtain n where "lookup (treeOf x) path = Some (ExternalNode (computeHash d) n)"
      using File.prems(3) by (auto simp: kind_def split: option.splits tree_node.splits)
    ultimately show ?thesis
      using False by (simp add: walkFile_def split: option.splits)
  qed (simp add: walkFile_def)
next
  case (Dir es)
  have wf: "wfmap es" "\<And>name m. (name, m) \<in> set es \<Longrightarrow> wfFs m"
    using Dir.prems(2) by (auto simp: wfFs_Dir)
  have s: "settledAt env (ignoreOf x) (kind (treeOf x)) path (Dir es)"
    "\<And>name m. (name, m) \<in> set es \<Longrightarrow> settled env (ignoreOf x) (kind (treeOf x)) m (path @ [name])"
    using Dir.prems(1) settled_Dir [OF wf(1)] by fastforce+
  have "walkEntries (map (\<lambda>(name, n). (name, walkNode n env visit)) es) path x = (None, x)"
  proof (rule walkEntries_quiet)
    fix name m
    assume "(name, m) \<in> set es"
    then show "walkNode m env visit (path @ [name]) x = (None, x)"
      using Dir.IH [of "(name, m)" m "path @ [name]"] s(2) wf(2) by simp
  qed
  moreover have "setTree (enterDir path) (fst x) = fst x"
    using s(1) Dir.prems(3) by (intro setTree_same) (simp add: enterDir_def kind_internalAt)
  ultimately show ?case
    using s(1) Dir.prems(3) by (simp add: walkNode_Dir walkDir_def)
qed

lemma commitFn_ok:
  "commitFn env s = (None, s') \<Longrightarrow> s' = s\<lparr>csTreeFile := Some (MarshalJSON (InternalNode (cfgTree (csConfig s))))\<rparr>"
  by (auto simp: commitFn_def split: option.splits)

text \<open>
  C16. Writing through records the user's files.  When \<^verbatim>\<open>WriteThroughUser\<close> succeeds, every file of the
  user-visible directory that is not ignored is in the tree under its path with the hash of its
  content, the directory is untouched, the tree file holds the tree, and \<^verbatim>\<open>Status\<close> then reports
  nothing and changes nothing.
\<close>

theorem write_through_settles:
  fixes env :: os_env and s :: "'s cached_store"
  assumes "WriteThroughUser env R s = (None, s')" "wfFs (csUser s)"
  shows "csUser s' = csUser s \<and> csTreeFile s' = Some (MarshalJSON (InternalNode (cfgTree (csConfig s')))) \<and>
    (\<forall>path d. fsGet (csUser s) path = Some (File d) \<and> last path \<notin> set (cfgIgnoreSet (csConfig s)) \<longrightarrow>
      (\<exists>n. artifacts (cfgTree (csConfig s')) path = Some (computeHash d, n))) \<and>
    Status env s' = (Inr noStatus, s')"
proof -
  obtain x es where es: "csUser s = Dir es" and x: "walkDir env (map (\<lambda>(name, n). (name, walkNode n env (writeVisit env R))) es) [] (s, noStatus) = (None, x)"
    and commit: "commitFn env (fst x) = (None, s')"
    using assms(1) by (auto simp: WriteThroughUser_def writeThroughUserTree_def walkUserTreeUncached_def
        split: fs_node.splits prod.splits option.splits)
  have wf: "wfmap es" "\<And>name m. (name, m) \<in> set es \<Longrightarrow> wfFs m"
    using assms(2) by (auto simp: es wfFs_Dir)
  have run: "fault env ''ReadDir'' (InUser []) = None"
    "walkEntries (map (\<lambda>(name, n). (name, walkNode n env (writeVisit env R))) es) [] (s, noStatus) = (None, x)"
    using x by (auto simp: walkDir_def split: option.splits)
  have w: "wroteEntries env es [] (s, noStatus) x"
    using wf(2) by (intro walkEntries_writes [OF run(2) wf(1)] walkNode_writes) (simp_all add: dirsAbove_def)
  define x' where "x' = (s', noStatus)"
  have s': "csConfig s' = csConfig (fst x)" "csUser s' = csUser s"
    using commitFn_ok [OF commit] w by (simp_all add: wroteEntries_def)
  have st: "settled env (ignoreOf x') (kind (treeOf x')) (csUser s') []"
    using w run(1) s' by (auto simp: settled_Dir [OF wf(1)] es wroteEntries_def x'_def)
  have "\<exists>n. artifacts (treeOf x') path = Some (computeHash d, n)"
    if "fsGet (csUser s) path = Some (File d)" "last path \<notin> ignoreOf (s, noStatus)" for path d
  proof (rule kind_artifacts)
    show "kind (treeOf x') path = Some (Some (computeHash d))"
      using st that s' w unfolding settled_def by (fastforce simp: wroteEntries_def x'_def)
  qed
  moreover have "walkEntries (map (\<lambda>(name, n). (name, walkNode n env statusVisit)) es) [] x' = (None, x')"
  proof (rule walkEntries_quiet)
    fix name m
    assume "(name, m) \<in> set es"
    then show "walkNode m env statusVisit ([] @ [name]) x' = (None, x')"
      using st wf s'(2) by (intro walkNode_quiet) (auto simp: settled_Dir es)
  qed
  then have "Status env s' = (Inr noStatus, s')"
    using run(1) es s'(2) by (simp add: Status_def walkUserTreeUncached_def walkDir_def x'_def)
  ultimately show ?thesis
    using commitFn_ok [OF commit] s' w by (simp add: x'_def)
qed

definition emptyConfig :: artifact_config where
  "emptyConfig = \<lparr> cfgCache = [], cfgRoot = [], cfgSourceStore = None, cfgSourcePullSizeLimit = DefaultSourcePullSizeLimitBytes,
     cfgIgnore = None, cfgIgnoreSet = [], cfgTree = [] \<rparr>"

definition demoCache :: "hash_dir cached_store" where
  "demoCache = \<lparr> coLocal = False, coCache = [], coSource = [], csConfig = emptyConfig, csRootDir = ''/data'',
     csUser = Dir [(''a'', File [1]), (''d'', Dir [(''b'', File [2])])], csTreeFile = None \<rparr>"

theorem write_through_settles_witness:
  "\<exists>s'. WriteThroughUser noFaults (fsRemote noFaults) demoCache = (None, s') \<and>
     (\<exists>n. artifacts (cfgTree (csConfig s')) [''d'', ''b''] = Some (computeHash [2], n)) \<and>
     Status noFaults s' = (Inr noStatus, s')"
proof -
  have get: "fsGet (csUser demoCache) [''d'', ''b''] = Some (File [2])"
    "last [''d'', ''b''] \<notin> set (cfgIgnoreSet (csConfig demoCache))" "wfFs (csUser demoCache)"
    by (simp_all add: demoCache_def emptyConfig_def wfFs_Dir)
  obtain s' where s': "WriteThroughUser noFaults (fsRemote noFaults) demoCache = (None, s')"
    by (simp add: WriteThroughUser_def writeThroughUserTree_def walkUserTreeUncached_def demoCache_def emptyConfig_def walkDir_def
        walkNode_Dir walkFile_def writeVisit_def storeBoth_def sourceStore_def fsRemote_def fsStore_def AtomicStore_def
        setTree_def enterDir_def internalAt_def StoreHash_def commitFn_def Let_def split: prod.splits)
  show ?thesis
    using write_through_settles [OF s' get(3)] get(1,2) s' by blast
qed

text \<open>
  \<^verbatim>\<open>Status\<close> is not only an inspection.  When a directory stands where the tree has an artifact, it reports
  nothing to do and replaces the artifact in the tree by an empty internal node.
\<close>

lemma status_forgets_shadowed_artifact:
  assumes "csUser s = Dir [(name, Dir [])]" "mget (cfgTree (csConfig s)) name = Some (ExternalNode h n)"
    and "\<And>call p. fault env call (InUser p) = None"
  shows "\<exists>s'. Status env s = (Inr noStatus, s') \<and> artifacts (cfgTree (csConfig s)) [name] = Some (h, n) \<and>
    artifacts (cfgTree (csConfig s')) [name] = None"
  using assms
  by (simp add: Status_def walkUserTreeUncached_def walkDir_def walkNode_Dir setTree_def enterDir_def internalAt_def artifacts_Cons)

end
