(* ===== verification/ArtifactEnsure.thy ===== *)
theory ArtifactEnsure
  imports ArtifactSync
begin

text \<open>
  What \<^verbatim>\<open>Ensure\<close> and \<^verbatim>\<open>Clean\<close> achieve in the user-visible directory: the artifacts of the tree are there
  with the right content, and what the tree does not know is gone.
\<close>

section \<open>Files under updates of the directory\<close>

definition fileAt :: "fs_node \<Rightarrow> string list \<Rightarrow> bytes option" where
  "fileAt n q = (case fsGet n q of Some (File d) \<Rightarrow> Some d | _ \<Rightarrow> None)"

lemma fileAt_simps [simp]:
  "fileAt (File d) q = (if q = [] then Some d else None)"
  "fileAt (Dir es) [] = None"
  "fileAt (Dir es) (p # q) = (case mget es p of None \<Rightarrow> None | Some n \<Rightarrow> fileAt n q)"
  by (cases q; simp add: fileAt_def split: option.splits)+

lemma fileAt_fsGet: "fileAt n q = Some d \<longleftrightarrow> fsGet n q = Some (File d)"
  by (auto simp: fileAt_def split: option.splits fs_node.splits)

text \<open>A file that is not at or below the path of an update survives it.\<close>

lemma fileAt_fsPut: "fileAt n q = Some d \<Longrightarrow> \<not> prefix p q \<Longrightarrow> fileAt (fsPut p v n) q = Some d"
proof (induction p v n arbitrary: q rule: fsPut.induct)
  case (3 p v es)
  then show ?case
    by (cases q) auto
next
  case (4 p p' ps v es)
  then show ?case
    by (cases q) (auto split: option.splits if_splits)
qed auto

lemma fileAt_fsDel: "fileAt n q = Some d \<Longrightarrow> \<not> prefix p q \<Longrightarrow> fileAt (fsDel p n) q = Some d"
proof (induction p n arbitrary: q rule: fsDel.induct)
  case (3 p es)
  then show ?case
    by (cases q) auto
next
  case (4 p p' ps es)
  then show ?case
    by (cases q) (auto split: option.splits if_splits)
qed auto

lemma fileAt_mkdirAll: "mkdirAll p n = Inr n' \<Longrightarrow> fileAt n q = Some d \<Longrightarrow> fileAt n' q = Some d"
proof (induction p n arbitrary: q n' rule: mkdirAll.induct)
  case (3 p ps es)
  then show ?case
    by (cases q) (auto split: sum.splits option.splits)
qed auto

lemma mkdirAll_dir: "mkdirAll p n = Inr n' \<Longrightarrow> \<exists>es. fsGet n' p = Some (Dir es)"
  by (induction p n arbitrary: n' rule: mkdirAll.induct) (auto split: sum.splits)

lemma fileAt_fsPut_same: "fsGet n (butlast p) = Some (Dir es) \<Longrightarrow> p \<noteq> [] \<Longrightarrow> fileAt (fsPut p (File d) n) p = Some d"
proof (induction p "File d" n rule: fsPut.induct)
  case (4 p p' ps v)
  then show ?case
    by (auto split: option.splits)
qed (auto simp: fsGet_File)

section \<open>Ensure\<close>

text \<open>Contents agree with the hashes they are stored under, in the cache and in the source.\<close>

definition intactStores :: "os_env \<Rightarrow> 's remote_ops \<Rightarrow> 's cached_store \<Rightarrow> bool" where
  "intactStores env R s \<longleftrightarrow>
     (\<forall>h d. mget (coCache s) h = Some d \<longrightarrow> computeHash d = h) \<and>
     (\<forall>h d. sourceLoad env R h s = Inr d \<longrightarrow> computeHash d = h)"

text \<open>A call that placed what it should at a path and spared every file elsewhere.\<close>

definition placed :: "string list \<Rightarrow> 's cached_store \<Rightarrow> 's cached_store \<Rightarrow> bool" where
  "placed path s s' \<longleftrightarrow> (\<forall>q d. \<not> prefix path q \<longrightarrow> fileAt (csUser s) q = Some d \<longrightarrow> fileAt (csUser s') q = Some d)"

lemma fsLoad_mget: "fsLoad env h c = Inr d \<Longrightarrow> mget c h = Some d"
  by (auto simp: fsLoad_def fsContains_def split: option.splits if_splits dest: weak_map_of_SomeI)

lemma emplaceNew_ok:
  assumes "emplaceNew env h path s = (None, s')" "path \<noteq> []" "\<forall>h d. mget (coCache s) h = Some d \<longrightarrow> computeHash d = h"
  shows "\<exists>d. fileAt (csUser s') path = Some d \<and> computeHash d = h" "placed path s s'"
    "s' = s\<lparr>csUser := csUser s'\<rparr>"
proof -
  obtain user d where ok: "mkdirAll (butlast path) (csUser s) = Inr user" "fsLoad env h (coCache s) = Inr d"
    "s' = s\<lparr>csUser := fsPut path (File d) user\<rparr>"
    using assms(1) by (auto simp: emplaceNew_def AtomicStore_def Let_def split: option.splits sum.splits)
  have "computeHash d = h"
    using fsLoad_mget [OF ok(2)] assms(3) by blast
  then show "\<exists>d. fileAt (csUser s') path = Some d \<and> computeHash d = h"
    using mkdirAll_dir [OF ok(1)] fileAt_fsPut_same [of user path _ d] assms(2) ok(3) by auto
  show "placed path s s'"
    using ok fileAt_mkdirAll [OF ok(1)] fileAt_fsPut by (auto simp: placed_def)
  show "s' = s\<lparr>csUser := csUser s'\<rparr>"
    using ok(3) by simp
qed

lemma emplaceFile_ok:
  assumes "emplaceFile env h path s = (None, s')" "path \<noteq> []" "\<forall>h d. mget (coCache s) h = Some d \<longrightarrow> computeHash d = h"
  shows "\<exists>d. fileAt (csUser s') path = Some d \<and> computeHash d = h" "placed path s s'"
    "s' = s\<lparr>csUser := csUser s'\<rparr>"
proof -
  have c: "fsContains env h (coCache s) = None"
    using assms(1) by (simp add: emplaceFile_def split: option.splits)
  consider "emplaceNew env h path s = (None, s')"
    | d where "fsGet (csUser s) path = Some (File d)" "computeHash d = h" "s' = s"
    | "emplaceNew env h path (s\<lparr>csUser := fsDel path (csUser s)\<rparr>) = (None, s')"
  proof (cases "openUser env path (csUser s)")
    case (Inl e)
    then show ?thesis
      using assms(1) c that(1) by (simp add: emplaceFile_def)
  next
    case (Inr n)
    then have n: "fsGet (csUser s) path = Some n"
      by (auto simp: openUser_def split: option.splits)
    obtain d where d: "readUser env path n = Inr d"
      using assms(1) c Inr by (cases "readUser env path n") (simp_all add: emplaceFile_def)
    then have "n = File d"
      by (auto simp: readUser_def split: option.splits fs_node.splits)
    moreover have "computeHash d = h \<and> s' = s \<or> emplaceNew env h path (s\<lparr>csUser := fsDel path (csUser s)\<rparr>) = (None, s')"
      using assms(1) c Inr d by (simp add: emplaceFile_def split: option.splits if_splits)
    ultimately show ?thesis
      using that(2) [of d] that(3) n by blast
  qed
  then have "(\<exists>d. fileAt (csUser s') path = Some d \<and> computeHash d = h) \<and> placed path s s' \<and> s' = s\<lparr>csUser := csUser s'\<rparr>"
  proof cases
    case 1
    then show ?thesis
      using emplaceNew_ok [OF 1 assms(2,3)] by blast
  next
    case 2
    then show ?thesis
      by (auto simp: placed_def fileAt_fsGet)
  next
    case 3
    note ok = emplaceNew_ok [OF 3 assms(2)]
    have "placed path s s'"
      using ok(2) assms(3) fileAt_fsDel by (auto simp: placed_def)
    moreover have "s' = (s\<lparr>csUser := fsDel path (csUser s)\<rparr>)\<lparr>csUser := csUser s'\<rparr>"
      using assms(3) by (intro ok(3)) simp
    then have "s' = s\<lparr>csUser := csUser s'\<rparr>"
      by simp
    ultimately show ?thesis
      using ok(1) assms(3) by simp
  qed
  then show "\<exists>d. fileAt (csUser s') path = Some d \<and> computeHash d = h" "placed path s s'" "s' = s\<lparr>csUser := csUser s'\<rparr>"
    by blast+
qed

lemma intactStores_user: "intactStores env R (s\<lparr>csUser := u\<rparr>) = intactStores env R s"
  by (simp add: intactStores_def sourceLoad_def)

lemma intactStores_cache:
  assumes "intactStores env R s" "computeHash d = h"
  shows "intactStores env R (s\<lparr>coCache := mput h d (coCache s)\<rparr>)"
  using assms by (auto simp: intactStores_def sourceLoad_def dest: fsLoad_mget split: if_splits)

definition nodeArtifacts :: "tree_node \<Rightarrow> string list \<Rightarrow> (string \<times> int) option" where
  "nodeArtifacts node rel =
     (case node of ExternalNode h n \<Rightarrow> if rel = [] then Some (h, n) else None | InternalNode t \<Rightarrow> artifacts t rel)"

text \<open>The artifacts of a node are in place below a path.\<close>

definition inPlace :: "tree_node \<Rightarrow> string list \<Rightarrow> fs_node \<Rightarrow> bool" where
  "inPlace node path user \<longleftrightarrow>
     (\<forall>rel h n. nodeArtifacts node rel = Some (h, n) \<longrightarrow> (\<exists>d. fileAt user (path @ rel) = Some d \<and> computeHash d = h))"

definition ensured :: "os_env \<Rightarrow> 's remote_ops \<Rightarrow> tree_node \<Rightarrow> string list \<Rightarrow> 's cached_store \<Rightarrow> 's cached_store \<Rightarrow> bool" where
  "ensured env R node path s s' \<longleftrightarrow> inPlace node path (csUser s') \<and> placed path s s' \<and> intactStores env R s'"

lemma ensureExternal_ok:
  assumes "ensureExternal env R h n path True s = (Inr r, s')" "path \<noteq> []" "intactStores env R s"
  shows "ensured env R (ExternalNode h n) path s s'"
proof -
  have emplace: "ensured env R (ExternalNode h n) path s s'"
    if "emplaceFile env h path (s\<lparr>coCache := c\<rparr>) = (None, s')" "intactStores env R (s\<lparr>coCache := c\<rparr>)" for c
  proof -
    have "\<forall>h d. mget (coCache (s\<lparr>coCache := c\<rparr>)) h = Some d \<longrightarrow> computeHash d = h"
      using that(2) by (simp add: intactStores_def)
    note ok = emplaceFile_ok [OF that(1) assms(2) this]
    have "intactStores env R s'"
      by (subst ok(3)) (simp only: intactStores_user that(2))
    then show ?thesis
      using ok(1,2) by (auto simp: ensured_def inPlace_def nodeArtifacts_def placed_def)
  qed
  show ?thesis
  proof (cases "fsContains env h (coCache s)")
    case None
    then have "emplaceFile env h path s = (None, s')"
      using assms(1) by (auto simp: ensureExternal_def split: prod.splits option.splits)
    then show ?thesis
      using emplace [of "coCache s"] assms(3) by simp
  next
    case (Some e)
    obtain d c where d: "sourceLoad env R h s = Inr d" "fsStore env h (Inr d) (coCache s) = (None, c)"
      "emplaceFile env h path (s\<lparr>coCache := c\<rparr>) = (None, s')"
      using assms(1) Some by (auto simp: ensureExternal_def split: if_splits sum.splits prod.splits option.splits)
    have "computeHash d = h"
      using d(1) assms(3) by (simp add: intactStores_def)
    moreover have "c = mput h d (coCache s)"
      using d(2) by (auto simp: fsStore_def AtomicStore_def split: sum.splits option.splits)
    ultimately show ?thesis
      using emplace [OF d(3)] intactStores_cache [OF assms(3)] by simp
  qed
qed

lemma inPlace_mono:
  assumes "inPlace node path u" "\<And>q d. prefix path q \<Longrightarrow> fileAt u q = Some d \<Longrightarrow> fileAt u' q = Some d"
  shows "inPlace node path u'"
  using assms unfolding inPlace_def by (meson prefixI)

lemma ensureAll_ok:
  assumes "ensureAll (map (\<lambda>(name, m). (name, ensureNode m env R True)) t) path s = (Inr r, s')" "wfmap t" "intactStores env R s"
    and IH: "\<And>name m s s' r. (name, m) \<in> set t \<Longrightarrow> ensureNode m env R True (path @ [name]) s = (Inr r, s') \<Longrightarrow>
      intactStores env R s \<Longrightarrow> ensured env R m (path @ [name]) s s'"
  shows "(\<forall>(name, m) \<in> set t. inPlace m (path @ [name]) (csUser s')) \<and> intactStores env R s' \<and>
    (\<forall>q d. (\<forall>name \<in> fst ` set t. \<not> prefix (path @ [name]) q) \<longrightarrow> fileAt (csUser s) q = Some d \<longrightarrow> fileAt (csUser s') q = Some d)"
  using assms
proof (induction t arbitrary: s)
  case (Cons e t)
  obtain name m where e: "e = (name, m)"
    by (cases e)
  obtain r1 s1 where s1: "ensureNode m env R True (path @ [name]) s = (Inr r1, s1)"
    "ensureAll (map (\<lambda>(name, m). (name, ensureNode m env R True)) t) path s1 = (Inr r, s')"
    using Cons.prems(1) by (auto simp: e split: prod.splits sum.splits)
  have w: "ensured env R m (path @ [name]) s s1"
    by (rule Cons.prems(4) [OF _ s1(1) Cons.prems(3)]) (simp add: e)
  have n: "wfmap t" "name \<notin> fst ` set t"
    using Cons.prems(2) by (simp_all add: e)
  have rest: "(\<forall>(name, m) \<in> set t. inPlace m (path @ [name]) (csUser s'))" "intactStores env R s'"
    "\<And>q d. (\<forall>name \<in> fst ` set t. \<not> prefix (path @ [name]) q) \<Longrightarrow> fileAt (csUser s1) q = Some d \<Longrightarrow> fileAt (csUser s') q = Some d"
    using Cons.IH [OF s1(2) n(1) _ Cons.prems(4)] w by (simp_all add: ensured_def)
  have "inPlace m (path @ [name]) (csUser s')"
  proof (rule inPlace_mono)
    show "inPlace m (path @ [name]) (csUser s1)"
      using w by (simp add: ensured_def)
    show "fileAt (csUser s') q = Some d" if "prefix (path @ [name]) q" "fileAt (csUser s1) q = Some d" for q d
      using rest(3) [OF _ that(2)] n(2) sibling_prefix [OF that(1)] by blast
  qed
  moreover have "fileAt (csUser s') q = Some d" if "\<forall>nm \<in> fst ` set (e # t). \<not> prefix (path @ [nm]) q" "fileAt (csUser s) q = Some d" for q d
    using that w rest(3) by (simp add: e ensured_def placed_def)
  ultimately show ?case
    using rest(1,2) by (simp add: e)
qed simp

lemma ensureNode_Internal:
  "ensureNode (InternalNode t) env R ig path s = ensureAll (map (\<lambda>(name, m). (name, ensureNode m env R ig)) t) path s"
proof -
  have "map (map_prod id (\<lambda>f. f env R ig)) (map (map_prod id ensureNode) t) = map (\<lambda>(name, m). (name, ensureNode m env R ig)) t"
    by auto
  then show ?thesis
    by (simp del: map_map)
qed

declare ensureNode.simps(1) [simp del]

lemma nodeArtifacts_Internal:
  "nodeArtifacts (InternalNode t) rel =
     (case rel of [] \<Rightarrow> None | name # rest \<Rightarrow> (case mget t name of None \<Rightarrow> None | Some m \<Rightarrow> nodeArtifacts m rest))"
  by (cases rel) (auto simp: nodeArtifacts_def artifacts_Cons split: option.splits tree_node.splits)

lemma inPlace_Internal:
  assumes "\<And>name m. mget t name = Some m \<Longrightarrow> inPlace m (path @ [name]) u"
  shows "inPlace (InternalNode t) path u"
  unfolding inPlace_def
proof (intro allI impI)
  fix rel h n
  assume "nodeArtifacts (InternalNode t) rel = Some (h, n)"
  then obtain name rest m where "rel = name # rest" "mget t name = Some m" "nodeArtifacts m rest = Some (h, n)"
    by (auto simp: nodeArtifacts_Internal split: list.splits option.splits)
  then show "\<exists>d. fileAt u (path @ rel) = Some d \<and> computeHash d = h"
    using assms [of name m] by (auto simp: inPlace_def)
qed

lemma ensureNode_ok:
  assumes "ensureNode node env R True path s = (Inr r, s')" "wfNode node" "path \<noteq> [] \<or> IsInternal node" "intactStores env R s"
  shows "ensured env R node path s s'"
  using assms
proof (induction node arbitrary: path s s' r)
  case (InternalNode t)
  have wf: "wfmap t" "\<And>name m. (name, m) \<in> set t \<Longrightarrow> wfNode m"
    using InternalNode.prems(2) by (auto simp: wfNode_Internal)
  have all: "(\<forall>(name, m) \<in> set t. inPlace m (path @ [name]) (csUser s'))" "intactStores env R s'"
    "\<And>q d. (\<forall>name \<in> fst ` set t. \<not> prefix (path @ [name]) q) \<Longrightarrow> fileAt (csUser s) q = Some d \<Longrightarrow> fileAt (csUser s') q = Some d"
    using ensureAll_ok [OF InternalNode.prems(1) [unfolded ensureNode_Internal] wf(1) InternalNode.prems(4)]
      InternalNode.IH [OF _ snds.intros] wf(2) by force+
  have "\<not> prefix (path @ [name]) q" if "\<not> prefix path q" for name q
    using that by (auto simp: prefix_def)
  then show ?case
    using all by (auto simp: ensured_def placed_def intro!: inPlace_Internal dest: map_of_SomeD)
next
  case (ExternalNode h n)
  then show ?case
    by (intro ensureExternal_ok) simp_all
qed

lemma ensureNode_result: "ensureNode node env R True path s = (Inr r, s') \<Longrightarrow> r = Some path"
proof (cases node)
  case (InternalNode t)
  have "ensureAll cs path s = (Inr r, s') \<Longrightarrow> r = Some path" for cs s
    by (induction cs path s rule: ensureAll.induct) (auto split: prod.splits sum.splits)
  then show "ensureNode node env R True path s = (Inr r, s') \<Longrightarrow> ?thesis"
    by (simp add: InternalNode ensureNode_Internal)
qed (auto simp: ensureExternal_def split: option.splits sum.splits prod.splits if_splits)

lemma lookup_artifacts: "lookup t p = Some node \<Longrightarrow> artifacts t (p @ rel) = nodeArtifacts node rel"
proof (induction t p rule: lookup.induct)
  case (2 t p path)
  then show ?case
    by (cases "path = []") (auto simp: artifacts_Cons nodeArtifacts_def split: option.splits tree_node.splits)
qed simp

lemma lookup_wf: "lookup t p = Some node \<Longrightarrow> wfNode (InternalNode t) \<Longrightarrow> wfNode node"
proof (induction t p rule: lookup.induct)
  case (2 t p path)
  then show ?case
    using wfNode_child [OF "2.prems"(2), of p] by (auto split: option.splits tree_node.splits if_splits)
qed simp


definition pulledCache :: "hash_dir cached_store" where
  "pulledCache = demoCache\<lparr>coSource := [(computeHash [7], [7])], csUser := Dir [(''w'', File [3])],
     csConfig := emptyConfig\<lparr>cfgTree := [(''x'', InternalNode [(''y'', ExternalNode (computeHash [7]) 1)])]\<rparr>\<rparr>"


section \<open>Clean\<close>

text \<open>The paths the tree knows: its nodes, and everything below an external node.\<close>

fun known :: "node_tree \<Rightarrow> string list \<Rightarrow> bool" where
  "known t [] = False"
| "known t (name # rest) =
     (case mget t name of
        None \<Rightarrow> False
      | Some (ExternalNode h n) \<Rightarrow> True
      | Some (InternalNode t1) \<Rightarrow> rest = [] \<or> known t1 rest)"

definition nodeKnown :: "tree_node \<Rightarrow> string list \<Rightarrow> bool" where
  "nodeKnown node rel = (case node of ExternalNode h n \<Rightarrow> True | InternalNode t \<Rightarrow> rel = [] \<or> known t rel)"

lemma known_Cons: "known t (name # rest) \<longleftrightarrow> (case mget t name of None \<Rightarrow> False | Some m \<Rightarrow> nodeKnown m rest)"
  by (simp add: nodeKnown_def split: option.splits tree_node.splits)

lemma fileAt_fsDel_eq: "p \<noteq> [] \<Longrightarrow> fileAt (fsDel p n) q = (if prefix p q then None else fileAt n q)"
proof (induction p n arbitrary: q rule: fsDel.induct)
  case (2 p ps d)
  then show ?case
    by auto
next
  case (3 p es)
  then show ?case
    by (cases q) auto
next
  case (4 p p' ps es)
  then show ?case
    by (cases q) (auto split: option.splits)
qed simp

text \<open>The files a cleaning of a node at a path leaves.\<close>

definition cleaned :: "(string list \<Rightarrow> bool) \<Rightarrow> string list \<Rightarrow> fs_node \<Rightarrow> fs_node \<Rightarrow> bool" where
  "cleaned kn path u u' \<longleftrightarrow> (\<forall>q. fileAt u' q = (if \<exists>rel. q = path @ rel \<and> \<not> kn rel then None else fileAt u q))"

lemma cleanEntries_ok:
  assumes "cleanEntries env names (map (\<lambda>(name, m). (name, cleanNode m env)) t) path u = (None, u')"
    and IH: "\<And>name m v v'. (name, m) \<in> set t \<Longrightarrow> cleanNode m env (path @ [name]) v = (None, v') \<Longrightarrow>
      cleaned (nodeKnown m) (path @ [name]) v v'"
  shows "cleaned (\<lambda>rel. rel = [] \<or> hd rel \<notin> set names \<or> known t rel) path u u'"
  using assms(1)
proof (induction names arbitrary: u)
  case Nil
  then show ?case
    by (simp add: cleaned_def)
next
  case (Cons name names)
  have calls: "mget (map (\<lambda>(name, m). (name, cleanNode m env)) t) name = map_option (\<lambda>m. cleanNode m env) (mget t name)"
    by (simp add: map_of_map)
  obtain v where v: "cleaned (\<lambda>rel. rel = [] \<or> hd rel \<noteq> name \<or> known t rel) path u v"
    "cleanEntries env names (map (\<lambda>(name, m). (name, cleanNode m env)) t) path v = (None, u')"
  proof (cases "mget t name")
    case None
    then have "cleanEntries env names (map (\<lambda>(name, m). (name, cleanNode m env)) t) path (fsDel (path @ [name]) u) = (None, u')"
      using Cons.prems by (simp add: calls split: option.splits)
    moreover have "cleaned (\<lambda>rel. rel = [] \<or> hd rel \<noteq> name \<or> known t rel) path u (fsDel (path @ [name]) u)"
      using None by (auto simp: cleaned_def fileAt_fsDel_eq prefix_def neq_Nil_conv known_Cons)
    ultimately show ?thesis
      using that by blast
  next
    case (Some m)
    then obtain v where v: "cleanNode m env (path @ [name]) u = (None, v)"
      "cleanEntries env names (map (\<lambda>(name, m). (name, cleanNode m env)) t) path v = (None, u')"
      using Cons.prems by (auto simp: calls split: prod.splits option.splits)
    have "cleaned (nodeKnown m) (path @ [name]) u v"
      using Some by (intro IH [OF _ v(1)]) (auto dest: map_of_SomeD)
    moreover have "(\<exists>rel. q = (path @ [name]) @ rel \<and> \<not> nodeKnown m rel) \<longleftrightarrow>
        (\<exists>rel. q = path @ rel \<and> \<not> (rel = [] \<or> hd rel \<noteq> name \<or> known t rel))" for q
    proof
      assume "\<exists>rel. q = (path @ [name]) @ rel \<and> \<not> nodeKnown m rel"
      then obtain rel where "q = path @ name # rel" "\<not> nodeKnown m rel"
        by auto
      then show "\<exists>rel. q = path @ rel \<and> \<not> (rel = [] \<or> hd rel \<noteq> name \<or> known t rel)"
        using Some by (intro exI [of _ "name # rel"]) (simp add: known_Cons del: known.simps)
    next
      assume "\<exists>rel. q = path @ rel \<and> \<not> (rel = [] \<or> hd rel \<noteq> name \<or> known t rel)"
      then show "\<exists>rel. q = (path @ [name]) @ rel \<and> \<not> nodeKnown m rel"
        using Some by (auto simp: neq_Nil_conv known_Cons simp del: known.simps)
    qed
    ultimately have "cleaned (\<lambda>rel. rel = [] \<or> hd rel \<noteq> name \<or> known t rel) path u v"
      by (simp add: cleaned_def)
    then show ?thesis
      using that v(2) by blast
  qed
  have "cleaned (\<lambda>rel. rel = [] \<or> hd rel \<notin> set names \<or> known t rel) path v u'"
    by (rule Cons.IH [OF v(2)])
  then show ?case
    using v(1) by (auto simp: cleaned_def)
qed

lemma cleanNode_Internal:
  "cleanNode (InternalNode t) env path u =
     (case readDir env path u of
        Inl e \<Rightarrow> (Some e, u)
      | Inr es \<Rightarrow> cleanEntries env (map fst es) (map (\<lambda>(name, m). (name, cleanNode m env)) t) path u)"
proof -
  have "map (map_prod id (\<lambda>f. f env)) (map (map_prod id cleanNode) t) = map (\<lambda>(name, m). (name, cleanNode m env)) t"
    by auto
  then show ?thesis
    by (simp del: map_map split: sum.split)
qed

declare cleanNode.simps(1) [simp del]

lemma fileAt_in_dir: "fsGet u p = Some (Dir es) \<Longrightarrow> name \<notin> fst ` set es \<Longrightarrow> fileAt u (p @ name # rest) = None"
proof (induction u p rule: fsGet.induct)
  case (1 u)
  then show ?case
    by (auto simp: map_of_eq_None_iff [THEN iffD2] split: option.splits)
qed (auto split: option.splits)

lemma cleanNode_ok: "cleanNode node env path u = (None, u') \<Longrightarrow> cleaned (nodeKnown node) path u u'"
proof (induction node arbitrary: path u u')
  case (InternalNode t)
  obtain es where es: "fsGet u path = Some (Dir es)"
    "cleanEntries env (map fst es) (map (\<lambda>(name, m). (name, cleanNode m env)) t) path u = (None, u')"
    using InternalNode.prems by (auto simp: cleanNode_Internal readDir_def split: sum.splits option.splits fs_node.splits)
  have c: "cleaned (\<lambda>rel. rel = [] \<or> hd rel \<notin> set (map fst es) \<or> known t rel) path u u'"
    by (rule cleanEntries_ok [OF es(2)]) (rule InternalNode.IH, auto simp: snds.simps)
  have none: "fileAt u (path @ rel) = None" if "rel \<noteq> []" "hd rel \<notin> set (map fst es)" for rel
    using that fileAt_in_dir [OF es(1)] by (auto simp: neq_Nil_conv)
  show ?case
    unfolding cleaned_def
  proof
    fix q
    show "fileAt u' q = (if \<exists>rel. q = path @ rel \<and> \<not> nodeKnown (InternalNode t) rel then None else fileAt u q)"
    proof (cases "\<exists>rel. q = path @ rel \<and> \<not> nodeKnown (InternalNode t) rel")
      case True
      then obtain rel where "q = path @ rel" "rel \<noteq> []" "\<not> known t rel"
        by (auto simp: nodeKnown_def)
      then show ?thesis
        using c none [of rel] True by (auto simp: cleaned_def)
    next
      case False
      then show ?thesis
        using c by (auto simp: cleaned_def nodeKnown_def)
    qed
  qed
qed (simp add: cleaned_def nodeKnown_def)



end
