(* ===== verification/GoDuration.thy ===== *)
theory GoDuration
  imports GoPrelude
begin

text \<open>
  \<^verbatim>\<open>time.Duration\<close>: a signed number of nanoseconds, how \<^verbatim>\<open>Duration.String\<close> prints it and how
  \<^verbatim>\<open>time.ParseDuration\<close> reads it back.  A duration is an \<^typ>\<open>int\<close> in the range of an
  \<^verbatim>\<open>int64\<close>; the parser's accumulator is a \<^verbatim>\<open>uint64\<close>, whose addition wraps.

  The parser converts a decimal fraction with one multiplication of \<^verbatim>\<open>float64\<close> values.  It is the
  parameter \<open>fl\<close>, and what the round trip needs of it is \<open>exact_float\<close>: the product is exact
  when the scale divides the unit and the result is below \<open>2 ^ 53\<close>.
\<close>

section \<open>Printing\<close>

definition digitChar :: "nat \<Rightarrow> char" where
  "digitChar n = ''0123456789'' ! n"

fun fmtFracLoop :: "nat \<Rightarrow> bool \<Rightarrow> nat \<Rightarrow> string \<Rightarrow> bool \<times> nat \<times> string" where
  "fmtFracLoop 0 pr v buf = (pr, v, buf)"
| "fmtFracLoop (Suc n) pr v buf =
     (let digit = v mod 10; pr' = (pr \<or> digit \<noteq> 0)
      in fmtFracLoop n pr' (v div 10) (if pr' then digitChar digit # buf else buf))"

definition fmtFrac :: "nat \<Rightarrow> nat \<Rightarrow> string \<Rightarrow> string \<times> nat" where
  "fmtFrac prec v buf =
     (case fmtFracLoop prec False v buf of (pr, v', buf') \<Rightarrow> (if pr then CHR ''.'' # buf' else buf', v'))"

definition microSign :: string where
  "microSign = [CHR 0xC2, CHR 0xB5]"

definition formatDuration :: "nat \<Rightarrow> string" where
  "formatDuration u =
     (if u < 1000000000 then
        (if u = 0 then ''0s''
         else let (prec, buf) =
                 (if u < 1000 then (0, ''ns'')
                  else if u < 1000000 then (3, microSign @ ''s'')
                  else (6, ''ms''));
               (buf, u) = fmtFrac prec u buf
           in decimal u @ buf)
      else
        let (buf, u) = fmtFrac 9 u ''s'';
            buf = decimal (u mod 60) @ buf;
            u = u div 60
        in if u = 0 then buf
           else let buf = decimal (u mod 60) @ CHR ''m'' # buf;
                    u = u div 60
                in if u = 0 then buf else decimal u @ CHR ''h'' # buf)"

definition durationString :: "int \<Rightarrow> string" where
  "durationString d = (if d < 0 then CHR ''-'' # formatDuration (nat (- d)) else formatDuration (nat d))"

section \<open>Parsing\<close>

definition isDig :: "char \<Rightarrow> bool" where
  "isDig c \<longleftrightarrow> c \<in> set ''0123456789''"

definition digitVal :: "char \<Rightarrow> nat" where
  "digitVal c = (of_char c :: nat) - 48"

fun leadingInt :: "nat \<Rightarrow> string \<Rightarrow> nat option" where
  "leadingInt x [] = Some x"
| "leadingInt x (c # s) =
     (if x > 2 ^ 63 div 10 then None
      else let x' = x * 10 + digitVal c in if x' > 2 ^ 63 then None else leadingInt x' s)"

fun leadingFraction :: "nat \<Rightarrow> nat \<Rightarrow> string \<Rightarrow> nat \<times> nat" where
  "leadingFraction x scale [] = (x, scale)"
| "leadingFraction x scale (c # s) =
     (if x > (2 ^ 63 - 1) div 10 then (x, scale)
      else let y = x * 10 + digitVal c
           in if y > 2 ^ 63 then (x, scale) else leadingFraction y (scale * 10) s)"

definition unitMap :: "(string, nat) gomap" where
  "unitMap =
     [(''ns'', 1), (''us'', 1000), (microSign @ ''s'', 1000),
      ([CHR 0xCE, CHR 0xBC] @ ''s'', 1000),
      (''ms'', 1000000), (''s'', 1000000000), (''m'', 60000000000), (''h'', 3600000000000)]"

definition isUnitChar :: "char \<Rightarrow> bool" where
  "isUnitChar c \<longleftrightarrow> c \<noteq> CHR ''.'' \<and> \<not> isDig c"

definition invalidDuration :: err where
  "invalidDuration = ErrText ''time: invalid duration''"

text \<open>An optional fraction: its digits as a number, the scale, whether there was a digit, the rest.\<close>

definition parseFraction :: "string \<Rightarrow> nat \<times> nat \<times> bool \<times> string" where
  "parseFraction s =
     (case s of
        [] \<Rightarrow> (0, 1, False, s)
      | c # t \<Rightarrow>
          if c = CHR ''.'' then
            (case leadingFraction 0 1 (takeWhile isDig t) of
               (f, scale) \<Rightarrow> (f, scale, takeWhile isDig t \<noteq> [], dropWhile isDig t))
          else (0, 1, False, s))"

function parseLoop :: "(nat \<Rightarrow> nat \<Rightarrow> nat \<Rightarrow> nat) \<Rightarrow> nat \<Rightarrow> string \<Rightarrow> err + nat" where
  "parseLoop fl d s =
     (if s = [] then Inr d
      else if hd s \<noteq> CHR ''.'' \<and> \<not> isDig (hd s) then Inl invalidDuration
      else case leadingInt 0 (takeWhile isDig s) of
        None \<Rightarrow> Inl invalidDuration
      | Some v \<Rightarrow>
          (case parseFraction (dropWhile isDig s) of (f, scale, post, s2) \<Rightarrow>
             if takeWhile isDig s = [] \<and> \<not> post then Inl invalidDuration
             else if takeWhile isUnitChar s2 = [] then Inl (ErrText ''time: missing unit in duration'')
             else case mget unitMap (takeWhile isUnitChar s2) of
               None \<Rightarrow> Inl (ErrText ''time: unknown unit in duration'')
             | Some unit \<Rightarrow>
                 if v > 2 ^ 63 div unit then Inl invalidDuration
                 else let v' = v * unit + (if f > 0 then fl f unit scale else 0);
                          d' = (d + v') mod 2 ^ 64
                      in if f > 0 \<and> v' > 2 ^ 63 then Inl invalidDuration
                         else if d' > 2 ^ 63 then Inl invalidDuration
                         else parseLoop fl d' (dropWhile isUnitChar s2)))"
  by pat_completeness auto

lemma length_dropWhile_less:
  "takeWhile P s \<noteq> [] \<Longrightarrow> length (dropWhile P s) < length s"
  by (metis append_self_conv2 length_append length_greater_0_conv less_add_same_cancel2 takeWhile_dropWhile_id)

lemma parseFraction_length: "parseFraction s = (f, scale, post, s2) \<Longrightarrow> length s2 \<le> length s"
  by (auto simp: parseFraction_def split: list.splits if_splits prod.splits
      intro: le_trans [OF length_dropWhile_le])

lemma component_shorter:
  assumes "parseFraction (dropWhile isDig s) = (f, scale, post, s2)" "takeWhile isUnitChar s2 \<noteq> []"
  shows "length (dropWhile isUnitChar s2) < length s"
  using parseFraction_length [OF assms(1)] length_dropWhile_less [OF assms(2)] length_dropWhile_le [of isDig s]
  by linarith

termination parseLoop
  by (relation "measure (\<lambda>(fl, d, s). length s)")
    (auto simp del: length_greater_0_conv dest: component_shorter [OF sym])

declare parseLoop.simps [simp del]

definition ParseDuration :: "(nat \<Rightarrow> nat \<Rightarrow> nat \<Rightarrow> nat) \<Rightarrow> string \<Rightarrow> err + int" where
  "ParseDuration fl s =
     (let (neg, s) =
        (case s of
           [] \<Rightarrow> (False, s)
         | c # t \<Rightarrow> if c = CHR ''-'' \<or> c = CHR ''+'' then (c = CHR ''-'', t) else (False, s))
      in if s = ''0'' then Inr 0
         else if s = [] then Inl invalidDuration
         else case parseLoop fl 0 s of
             Inl e \<Rightarrow> Inl e
           | Inr d \<Rightarrow>
               if neg then Inr (- int d)
               else if d > 2 ^ 63 - 1 then Inl invalidDuration
               else Inr (int d))"

definition exact_float :: "(nat \<Rightarrow> nat \<Rightarrow> nat \<Rightarrow> nat) \<Rightarrow> bool" where
  "exact_float fl \<longleftrightarrow>
     (\<forall>f unit scale. 0 < unit \<and> unit < 2 ^ 53 \<and> scale dvd unit \<and> f * (unit div scale) < 2 ^ 53 \<longrightarrow>
        fl f unit scale = f * (unit div scale))"

lemma exact_floatD:
  assumes "exact_float fl" "0 < unit" "unit < 2 ^ 53" "scale dvd unit" "f * (unit div scale) < 2 ^ 53"
  shows "fl f unit scale = f * (unit div scale)"
  using assms unfolding exact_float_def by blast

section \<open>Digits\<close>

lemma digit_cases: "n < 10 \<Longrightarrow> n \<in> {0, 1, 2, 3, 4, 5, 6, 7, 8, 9 :: nat}"
  by auto

lemma digitChar_props:
  assumes "n < 10"
  shows "isDig (digitChar n)" "digitVal (digitChar n) = n"
  using digit_cases [OF assms] by (auto simp: digitChar_def isDig_def digitVal_def)

lemma decimal_digits: "c \<in> set (decimal n) \<Longrightarrow> isDig c"
proof (induction n rule: decimal.induct)
  case (1 n)
  then show ?case
    using digitChar_props(1) [of "n mod 10"] by (subst (asm) (2) decimal.simps) (auto simp: digitChar_def split: if_splits)
qed

lemma decimal_ne [simp]: "decimal n \<noteq> []"
  by (subst decimal.simps) simp

definition stopsDigits :: "string \<Rightarrow> bool" where
  "stopsDigits s \<longleftrightarrow> s = [] \<or> \<not> isDig (hd s)"

lemma takeWhile_stops:
  assumes "\<And>c. c \<in> set a \<Longrightarrow> P c" "s = [] \<or> \<not> P (hd s)"
  shows "takeWhile P (a @ s) = a" "dropWhile P (a @ s) = s"
  using assms by (cases s; simp add: takeWhile_append2 dropWhile_append2)+

lemma leadingInt_append:
  "leadingInt x (a @ b) = (case leadingInt x a of None \<Rightarrow> None | Some y \<Rightarrow> leadingInt y b)"
  by (induction a arbitrary: x) (auto simp: Let_def)

lemma leadingInt_decimal: "n \<le> 2 ^ 63 \<Longrightarrow> leadingInt 0 (decimal n) = Some n"
proof (induction n rule: decimal.induct)
  case (1 n)
  have last: "leadingInt (n div 10) [digitChar (n mod 10)] = Some n"
    using 1(2) digitChar_props(2) [of "n mod 10"] by (auto simp: Let_def)
  show ?case
  proof (cases "n < 10")
    case True
    then show ?thesis
      using last by (subst decimal.simps) (simp add: digitChar_def)
  next
    case False
    then have "leadingInt 0 (decimal (n div 10)) = Some (n div 10)"
      using 1 by simp
    then show ?thesis
      using False last by (subst decimal.simps) (simp add: leadingInt_append digitChar_def del: leadingInt.simps)
  qed
qed

section \<open>Fractions\<close>

fun pad :: "nat \<Rightarrow> nat \<Rightarrow> string" where
  "pad 0 v = []"
| "pad (Suc n) v = pad n (v div 10) @ [digitChar (v mod 10)]"

lemma length_pad [simp]: "length (pad n v) = n"
  by (induction n arbitrary: v) auto

lemma pad_digits: "c \<in> set (pad n v) \<Longrightarrow> isDig c"
  by (induction n arbitrary: v) (auto simp: digitChar_props)

lemma fmtFracLoop_True: "fmtFracLoop n True v buf = (True, v div 10 ^ n, pad n v @ buf)"
  by (induction n arbitrary: v buf) (auto simp: Let_def div_mult2_eq)

lemma mod_10_Suc: "(v :: nat) mod 10 ^ Suc n = 10 * (v div 10 mod 10 ^ n) + v mod 10"
  by (simp add: mod_mult2_eq)

lemma ten_inject:
  fixes x y a b :: nat
  assumes "10 * x + a = 10 * y + b" "a < 10" "b < 10"
  shows "a = b \<and> x = y"
proof -
  have "(10 * x + a) mod 10 = (10 * y + b) mod 10"
    using assms(1) by simp
  then have "a = b"
    using assms(2,3) by simp
  then show ?thesis
    using assms(1) by simp
qed

text \<open>The digits that are printed are the padded fraction without its trailing zeros.\<close>

lemma fmtFracLoop_False:
  "(v mod 10 ^ n = 0 \<and> fmtFracLoop n False v buf = (False, v div 10 ^ n, buf)) \<or>
   (\<exists>k < n. v mod 10 ^ k = 0 \<and> v mod 10 ^ n \<noteq> 0 \<and>
      fmtFracLoop n False v buf = (True, v div 10 ^ n, pad (n - k) (v div 10 ^ k) @ buf))"
proof (induction n arbitrary: v)
  case (Suc n)
  show ?case
  proof (cases "v mod 10 = 0")
    case False
    then have "fmtFracLoop (Suc n) False v buf = (True, v div 10 ^ Suc n, pad (Suc n) v @ buf)"
      by (simp add: Let_def fmtFracLoop_True div_mult2_eq)
    then show ?thesis
      using False by (intro disjI2 exI [of _ 0]) (simp add: mod_10_Suc del: power_Suc)
  next
    case True
    then have eq: "fmtFracLoop (Suc n) False v buf = fmtFracLoop n False (v div 10) buf"
      by (simp add: Let_def)
    from Suc.IH [of "v div 10"] consider
        "v div 10 mod 10 ^ n = 0" "fmtFracLoop n False (v div 10) buf = (False, v div 10 div 10 ^ n, buf)"
      | k where "k < n" "v div 10 mod 10 ^ k = 0" "v div 10 mod 10 ^ n \<noteq> 0"
          "fmtFracLoop n False (v div 10) buf =
             (True, v div 10 div 10 ^ n, pad (n - k) (v div 10 div 10 ^ k) @ buf)"
      by metis
    then show ?thesis
    proof cases
      case 1
      then show ?thesis
        using True eq by (intro disjI1) (simp add: mod_10_Suc del: power_Suc, simp add: div_mult2_eq)
    next
      case 2
      then show ?thesis
        using True eq
        by (intro disjI2 exI [of _ "Suc k"])
          (simp add: mod_10_Suc del: power_Suc, simp add: div_mult2_eq)
    qed
  qed
qed simp

definition horner :: "string \<Rightarrow> nat \<Rightarrow> nat" where
  "horner s x = fold (\<lambda>c x. x * 10 + digitVal c) s x"

lemma horner_pad: "horner (pad n v) x = x * 10 ^ n + v mod 10 ^ n"
  by (induction n arbitrary: v)
    (simp_all add: horner_def digitChar_props mod_10_Suc algebra_simps del: power_Suc, simp add: algebra_simps)

lemma leadingFraction_digits:
  assumes "\<And>c. c \<in> set s \<Longrightarrow> digitVal c \<le> 9" "(x + 1) * 10 ^ length s \<le> 10 ^ 18"
  shows "leadingFraction x scale s = (horner s x, scale * 10 ^ length s)"
  using assms
proof (induction s arbitrary: x scale)
  case (Cons c s)
  let ?y = "x * 10 + digitVal c"
  have d: "digitVal c \<le> 9"
    using Cons.prems(1) by simp
  have "(?y + 1) * 10 ^ length s \<le> (x * 10 + 10) * 10 ^ length s"
    using d by (intro mult_right_mono) auto
  also have "\<dots> = (x + 1) * 10 ^ length (c # s)"
    by (simp add: algebra_simps)
  also have "\<dots> \<le> 10 ^ 18"
    by (rule Cons.prems(2))
  finally have b: "(?y + 1) * 10 ^ length s \<le> 10 ^ 18" .
  have "(?y + 1) * 1 \<le> (?y + 1) * 10 ^ length s"
    by (intro mult_left_mono) auto
  then have "?y + 1 \<le> 10 ^ 18"
    using b unfolding mult_1_right by (rule le_trans)
  then have "leadingFraction x scale (c # s) = leadingFraction ?y (scale * 10) s"
    by (auto simp: Let_def)
  moreover have "leadingFraction ?y (scale * 10) s = (horner s ?y, scale * 10 * 10 ^ length s)"
    by (rule Cons.IH [OF _ b]) (simp add: Cons.prems(1))
  ultimately show ?case
    by (simp only: horner_def list.size power_Suc fold_simps add_Suc_right add_0_right mult.assoc)
qed (simp add: horner_def)

lemma digitVal_pad: "c \<in> set (pad n v) \<Longrightarrow> digitVal c \<le> 9"
  by (induction n arbitrary: v) (auto simp: digitChar_props)

text \<open>Reading a printed fraction: its value in units of the last printed place.\<close>

lemma parse_fmtFrac:
  assumes p: "p \<le> 9" and tail: "tail \<noteq> []" "hd tail \<noteq> CHR ''.''" "\<not> isDig (hd tail)"
  shows "\<exists>fr f k post. fmtFrac p v tail = (fr @ tail, v div 10 ^ p) \<and> k \<le> p \<and>
    parseFraction (fr @ tail) = (f, 10 ^ k, post, tail) \<and> f * 10 ^ (p - k) = v mod 10 ^ p \<and>
    stopsDigits (fr @ tail)"
proof -
  consider "v mod 10 ^ p = 0" "fmtFracLoop p False v tail = (False, v div 10 ^ p, tail)"
    | k where "k < p" "v mod 10 ^ k = 0"
        "fmtFracLoop p False v tail = (True, v div 10 ^ p, pad (p - k) (v div 10 ^ k) @ tail)"
    using fmtFracLoop_False [of v p tail] by metis
  then show ?thesis
  proof cases
    case 1
    obtain c t where "tail = c # t"
      using tail(1) by (cases tail) auto
    then have "fmtFrac p v tail = ([] @ tail, v div 10 ^ p) \<and> 0 \<le> p \<and>
      parseFraction ([] @ tail) = (0, 10 ^ 0, False, tail) \<and> 0 * 10 ^ (p - 0) = v mod 10 ^ p \<and>
      stopsDigits ([] @ tail)"
      using 1 tail(2,3) by (simp add: fmtFrac_def parseFraction_def stopsDigits_def)
    then show ?thesis
      by (intro exI)
  next
    case (2 k)
    let ?fs = "pad (p - k) (v div 10 ^ k)"
    have tw: "takeWhile isDig (?fs @ tail) = ?fs" "dropWhile isDig (?fs @ tail) = tail"
      using tail(3) by (auto intro!: takeWhile_stops dest: pad_digits)
    have "(10 :: nat) ^ (p - k) \<le> 10 ^ 18"
      using p by (intro power_increasing) auto
    then have lf: "leadingFraction 0 1 ?fs = (v div 10 ^ k mod 10 ^ (p - k), 10 ^ (p - k))"
      by (subst leadingFraction_digits) (auto simp: horner_pad dest: digitVal_pad)
    have "v mod 10 ^ p = 10 ^ k * (v div 10 ^ k mod 10 ^ (p - k)) + v mod 10 ^ k"
      using \<open>k < p\<close> by (subst mod_mult2_eq [symmetric]) (simp add: power_add [symmetric])
    then have "fmtFrac p v tail = ((CHR ''.'' # ?fs) @ tail, v div 10 ^ p) \<and> p - k \<le> p \<and>
      parseFraction ((CHR ''.'' # ?fs) @ tail) = (v div 10 ^ k mod 10 ^ (p - k), 10 ^ (p - k), ?fs \<noteq> [], tail) \<and>
      v div 10 ^ k mod 10 ^ (p - k) * 10 ^ (p - (p - k)) = v mod 10 ^ p \<and>
      stopsDigits ((CHR ''.'' # ?fs) @ tail)"
      using 2 tw lf by (simp add: fmtFrac_def parseFraction_def stopsDigits_def isDig_def)
    then show ?thesis
      by (intro exI)
  qed
qed

section \<open>The round trip\<close>

definition unitTail :: "string \<Rightarrow> nat \<Rightarrow> string \<Rightarrow> bool" where
  "unitTail U unit rest \<longleftrightarrow>
     U \<noteq> [] \<and> (\<forall>c \<in> set U. isUnitChar c) \<and> mget unitMap U = Some unit \<and> 0 < unit \<and>
     (rest = [] \<or> isDig (hd rest))"

lemma unitTail_hd:
  assumes "unitTail U unit rest"
  shows "U @ rest \<noteq> []" "hd (U @ rest) \<noteq> CHR ''.''" "\<not> isDig (hd (U @ rest))"
  using assms by (auto simp: unitTail_def isUnitChar_def neq_Nil_conv)

lemma unitTail_split:
  assumes "unitTail U unit rest"
  shows "takeWhile isUnitChar (U @ rest) = U" "dropWhile isUnitChar (U @ rest) = rest"
proof -
  have ok: "\<And>c. c \<in> set U \<Longrightarrow> isUnitChar c" "rest = [] \<or> \<not> isUnitChar (hd rest)"
    using assms by (auto simp: unitTail_def isUnitChar_def)
  show "takeWhile isUnitChar (U @ rest) = U"
    by (rule takeWhile_stops(1) [where P = isUnitChar, OF ok])
  show "dropWhile isUnitChar (U @ rest) = rest"
    by (rule takeWhile_stops(2) [where P = isUnitChar, OF ok])
qed

lemma parse_component:
  assumes U: "unitTail U unit rest"
    and fr: "parseFraction (fr @ U @ rest) = (f, scale, post, U @ rest)" "stopsDigits (fr @ U @ rest)"
    and v: "v = a * unit + (if f > 0 then fl f unit scale else 0)"
    and bound: "d + v \<le> 2 ^ 63"
  shows "parseLoop fl d (decimal a @ fr @ U @ rest) = parseLoop fl (d + v) rest"
proof -
  let ?s = "decimal a @ fr @ U @ rest"
  have unit: "mget unitMap U = Some unit" "0 < unit" "U \<noteq> []"
    using U by (auto simp: unitTail_def)
  have tw: "takeWhile isDig ?s = decimal a" "dropWhile isDig ?s = fr @ U @ rest"
    using fr(2) by (auto intro!: takeWhile_stops dest: decimal_digits simp: stopsDigits_def)
  have au: "a * unit \<le> 2 ^ 63"
    using bound v by simp
  then have a: "a \<le> 2 ^ 63 div unit"
    using unit(2) by (simp add: less_eq_div_iff_mult_less_eq)
  have "a \<le> a * unit"
    using unit(2) by simp
  then have li: "leadingInt 0 (decimal a) = Some a"
    using au by (intro leadingInt_decimal) linarith
  have hd: "isDig (hd ?s)" "?s \<noteq> []"
    using decimal_digits [of "hd (decimal a)" a] by (simp_all add: hd_append)
  have v63: "v \<le> 2 ^ 63" and m: "(d + v) mod 2 ^ 64 = d + v"
    using bound by simp_all
  show ?thesis
    by (subst parseLoop.simps)
      (use hd a v63 m bound in \<open>simp add: tw li fr(1) unitTail_split [OF U] unit v [symmetric] Let_def del: append_is_Nil_conv\<close>)
qed

lemma parse_decimal_component:
  assumes "unitTail U (10 ^ p) rest" "p \<le> 9" "exact_float fl" "d + v \<le> 2 ^ 63"
  shows "parseLoop fl d (decimal (snd (fmtFrac p v (U @ rest))) @ fst (fmtFrac p v (U @ rest))) =
    parseLoop fl (d + v) rest"
proof -
  obtain fr f k post where fr: "fmtFrac p v (U @ rest) = (fr @ U @ rest, v div 10 ^ p)" "k \<le> p"
    "parseFraction (fr @ U @ rest) = (f, 10 ^ k, post, U @ rest)" "f * 10 ^ (p - k) = v mod 10 ^ p"
    "stopsDigits (fr @ U @ rest)"
    using parse_fmtFrac [OF assms(2) unitTail_hd [OF assms(1)], of v] by auto
  have div: "(10 :: nat) ^ p div 10 ^ k = 10 ^ (p - k)"
    using fr(2) by (simp add: power_diff)
  have p9: "(10 :: nat) ^ p \<le> 10 ^ 9"
    using assms(2) by (intro power_increasing) auto
  have "v mod 10 ^ p < 10 ^ p"
    by simp
  then have "v mod 10 ^ p < 10 ^ 9"
    using p9 by (rule less_le_trans)
  with p9 have "fl f (10 ^ p) (10 ^ k) = f * (10 ^ p div 10 ^ k)"
    using fr(2,4) div by (intro exact_floatD [OF assms(3)]) (simp_all add: le_imp_power_dvd)
  then have "v = v div 10 ^ p * 10 ^ p + (if f > 0 then fl f (10 ^ p) (10 ^ k) else 0)"
    using fr(4) div by (cases "f = 0") (auto simp: div_mult_mod_eq)
  then show ?thesis
    using parse_component [OF assms(1) fr(3,5) _ assms(4)] fr(1) by simp
qed

lemma parse_whole_component:
  assumes "unitTail U unit rest" "d + a * unit \<le> 2 ^ 63"
  shows "parseLoop fl d (decimal a @ U @ rest) = parseLoop fl (d + a * unit) rest"
proof -
  have "parseFraction ([] @ U @ rest) = (0, 1, False, U @ rest)" "stopsDigits ([] @ U @ rest)"
    using unitTail_hd [OF assms(1)] by (cases "U @ rest"; simp add: parseFraction_def stopsDigits_def)+
  from parse_component [OF assms(1) this _ assms(2), of a fl] show ?thesis
    by simp
qed

lemma parseLoop_Nil [simp]: "parseLoop fl d [] = Inr d"
  by (simp add: parseLoop.simps)

lemma unitTail_units:
  "unitTail ''ns'' (10 ^ 0) []" "unitTail (microSign @ ''s'') (10 ^ 3) []" "unitTail ''ms'' (10 ^ 6) []"
  "unitTail ''s'' (10 ^ 9) []"
  "rest = [] \<or> isDig (hd rest) \<Longrightarrow> unitTail ''m'' 60000000000 rest"
  "rest = [] \<or> isDig (hd rest) \<Longrightarrow> unitTail ''h'' 3600000000000 rest"
  by (auto simp: unitTail_def isUnitChar_def isDig_def unitMap_def microSign_def)

lemma fmtFrac_snd: "snd (fmtFrac p v buf) = v div 10 ^ p"
  using fmtFracLoop_False [of v p buf] by (auto simp: fmtFrac_def)

text \<open>
  From a second on: hours, minutes and seconds with a fraction.  The seconds are what is left of the
  nanoseconds when the whole minutes are taken away.
\<close>

definition secondsPart :: "nat \<Rightarrow> string" where
  "secondsPart u = decimal (u div 10 ^ 9 mod 60) @ fst (fmtFrac 9 u ''s'')"

lemma fmtFrac_mod:
  assumes "u mod 10 ^ p = w mod 10 ^ p"
  shows "fst (fmtFrac p u buf) = fst (fmtFrac p w buf)"
proof -
  have "fst (fmtFracLoop p pr u buf) = fst (fmtFracLoop p pr w buf) \<and>
      snd (snd (fmtFracLoop p pr u buf)) = snd (snd (fmtFracLoop p pr w buf))" for pr
    using assms
  proof (induction p arbitrary: u w pr buf)
    case (Suc p)
    have "u mod 10 = w mod 10" "u div 10 mod 10 ^ p = w div 10 mod 10 ^ p"
      using ten_inject [OF Suc.prems [unfolded mod_10_Suc]] by simp_all
    then show ?case
      by (simp only: fmtFracLoop.simps Let_def Suc.IH [of "u div 10" "w div 10"] simp_thms)
  qed simp
  from this [of False] show ?thesis
    by (auto simp: fmtFrac_def split_beta)
qed

lemma parse_secondsPart:
  assumes "exact_float fl" "d + u mod 60000000000 \<le> 2 ^ 63"
  shows "parseLoop fl d (secondsPart u) = Inr (d + u mod 60000000000)"
proof -
  let ?w = "u mod 60000000000"
  have "?w div 10 ^ 9 = u div 10 ^ 9 mod 60"
    using mod_mult2_eq [of u "10 ^ 9" 60] by simp
  moreover have "fst (fmtFrac 9 u ''s'') = fst (fmtFrac 9 ?w ''s'')"
    by (rule fmtFrac_mod) (simp add: mod_mod_cancel)
  ultimately show ?thesis
    using parse_decimal_component [OF unitTail_units(4) _ assms(1), of d ?w] assms(2)
    by (simp add: secondsPart_def fmtFrac_snd)
qed

lemma isDig_decimal: "isDig (hd (decimal a @ s))"
  using decimal_digits [of "hd (decimal a)" a] by (simp add: hd_append)

lemma formatDuration_long:
  assumes "1000000000 \<le> u"
  shows "formatDuration u =
    (let m = u div 60000000000; h = m div 60
     in if m = 0 then secondsPart u
        else (if h = 0 then [] else decimal h @ ''h'') @ decimal (m mod 60) @ ''m'' @ secondsPart u)"
proof -
  obtain buf where "fmtFrac 9 u ''s'' = (buf, u div 10 ^ 9)"
    using fmtFrac_snd [of 9 u "''s''"] by (metis prod.collapse)
  moreover have "u div 10 ^ 9 div 60 = u div 60000000000"
    by (simp add: div_mult2_eq [symmetric])
  ultimately show ?thesis
    using assms unfolding formatDuration_def secondsPart_def by (simp add: Let_def split_beta)
qed

lemma parse_long_duration:
  assumes "exact_float fl" "u \<le> 2 ^ 63" "1000000000 \<le> u"
  shows "parseLoop fl 0 (formatDuration u) = Inr u"
proof -
  define m h where "m = u div 60000000000" and "h = m div 60"
  have u: "u = h * 3600000000000 + m mod 60 * 60000000000 + u mod 60000000000"
  proof -
    have "u = m * 60000000000 + u mod 60000000000"
      unfolding m_def by (rule div_mult_mod_eq [symmetric])
    moreover have "m = h * 60 + m mod 60"
      unfolding h_def by (rule div_mult_mod_eq [symmetric])
    then have "m * 60000000000 = h * 3600000000000 + m mod 60 * 60000000000"
      by linarith
    ultimately show ?thesis
      by linarith
  qed
  have sec: "parseLoop fl d (secondsPart u) = Inr (d + u mod 60000000000)" if "d + u mod 60000000000 \<le> 2 ^ 63" for d
    using parse_secondsPart assms(1) that .
  have sdig: "isDig (hd (secondsPart u))"
    unfolding secondsPart_def by (rule isDig_decimal)
  have min: "parseLoop fl d (decimal (m mod 60) @ ''m'' @ secondsPart u) =
      Inr (d + m mod 60 * 60000000000 + u mod 60000000000)"
    if "d + m mod 60 * 60000000000 + u mod 60000000000 \<le> 2 ^ 63" for d
    using parse_whole_component [OF unitTail_units(5), of "secondsPart u" d "m mod 60" fl] sdig sec that by simp
  have hour: "parseLoop fl 0 (decimal h @ ''h'' @ decimal (m mod 60) @ ''m'' @ secondsPart u) = Inr u"
    using parse_whole_component [OF unitTail_units(6), of "decimal (m mod 60) @ ''m'' @ secondsPart u" 0 h fl]
      isDig_decimal min [of "h * 3600000000000"] u assms(2) by simp
  show ?thesis
    unfolding formatDuration_long [OF assms(3)]
    using sec [of 0] min [of 0] hour u assms(2) by (auto simp: m_def h_def Let_def)
qed

lemma parse_formatDuration:
  assumes "exact_float fl" "u \<le> 2 ^ 63"
  shows "parseLoop fl 0 (formatDuration u) = Inr u"
proof -
  note dc = parse_decimal_component [OF _ _ assms(1), of _ _ "[]", unfolded append_Nil2]
  consider "u = 0" | "0 < u" "u < 1000" | "1000 \<le> u" "u < 1000000" | "1000000 \<le> u" "u < 1000000000"
    | "1000000000 \<le> u"
    by linarith
  then show ?thesis
  proof cases
    case 1
    then show ?thesis
      using parse_whole_component [OF unitTail_units(4), of 0 0 fl] by (simp add: formatDuration_def decimal.simps)
  next
    case 2
    then show ?thesis
      using dc [OF unitTail_units(1), of 0 u] assms(2) by (simp add: formatDuration_def split_beta Let_def)
  next
    case 3
    then show ?thesis
      using dc [OF unitTail_units(2), of 0 u] assms(2) by (simp add: formatDuration_def split_beta Let_def)
  next
    case 4
    then show ?thesis
      using dc [OF unitTail_units(3), of 0 u] assms(2) by (simp add: formatDuration_def split_beta Let_def)
  next
    case 5
    then show ?thesis
      using assms by (simp add: parse_long_duration)
  qed
qed

lemma decimal_head:
  assumes "s \<noteq> []"
  shows "\<exists>c t. decimal a @ s = c # t \<and> isDig c \<and> t \<noteq> []"
  using assms decimal_digits [of _ a] by (cases "decimal a") auto

lemma fmtFrac_ne: "buf \<noteq> [] \<Longrightarrow> fst (fmtFrac p v buf) \<noteq> []"
  using fmtFracLoop_False [of v p buf] by (auto simp: fmtFrac_def)

lemma formatDuration_shape: "\<exists>c t. formatDuration u = c # t \<and> isDig c \<and> t \<noteq> []"
proof -
  have "isDig (CHR ''0'')"
    by (simp add: isDig_def)
  then show ?thesis
    by (auto simp: formatDuration_def Let_def split_beta intro!: decimal_head fmtFrac_ne)
qed

theorem ParseDuration_String:
  assumes "exact_float fl" "- (2 ^ 63) \<le> d" "d < 2 ^ 63"
  shows "ParseDuration fl (durationString d) = Inr d"
proof -
  have u: "nat \<bar>d\<bar> \<le> 2 ^ 63"
    using assms(2,3) by auto
  obtain c t where f: "formatDuration (nat \<bar>d\<bar>) = c # t" "isDig c" "t \<noteq> []"
    using formatDuration_shape [of "nat \<bar>d\<bar>"] by blast
  have "c \<noteq> CHR ''-''" "c \<noteq> CHR ''+''"
    using f(2) by (auto simp: isDig_def)
  then show ?thesis
    using parse_formatDuration [OF assms(1) u] f assms(2,3)
    by (auto simp: ParseDuration_def durationString_def)
qed

end
