(* ===== verification/ProcessConfig.thy ===== *)
theory ProcessConfig
  imports GoJson GoDuration "HOL-Library.List_Lexorder" "HOL-Library.Char_ord"
begin

text \<open>
  The configuration of a managed process, \<^verbatim>\<open>src/pexec/process.go\<close>, with the signal names of
  \<^verbatim>\<open>src/pexec/managed_process_unix.go\<close>: validation, the JSON form of a configuration and
  equality.

  A writer and a callback cannot be written to JSON.  A writer is a value of the type parameter
  \<open>'w\<close>; \<open>weq\<close> is what \<^verbatim>\<open>reflect.DeepEqual\<close> says of two writers.  Strings are the byte strings
  of the program; \<^verbatim>\<open>encoding/json\<close> keeps them when they are valid UTF-8.
\<close>

section \<open>Signals\<close>

text \<open>The numbers of the signals on Linux.\<close>

abbreviation SIGHUP :: int where "SIGHUP \<equiv> 1"
abbreviation SIGINT :: int where "SIGINT \<equiv> 2"
abbreviation SIGQUIT :: int where "SIGQUIT \<equiv> 3"
abbreviation SIGABRT :: int where "SIGABRT \<equiv> 6"
abbreviation SIGKILL :: int where "SIGKILL \<equiv> 9"
abbreviation SIGUSR1 :: int where "SIGUSR1 \<equiv> 10"
abbreviation SIGUSR2 :: int where "SIGUSR2 \<equiv> 12"
abbreviation SIGTERM :: int where "SIGTERM \<equiv> 15"

definition sigStr :: "int \<Rightarrow> string" where
  "sigStr sig =
     (if sig = SIGHUP then ''SIGHUP''
      else if sig = SIGINT then ''SIGINT''
      else if sig = SIGQUIT then ''SIGQUIT''
      else if sig = SIGABRT then ''SIGABRT''
      else if sig = SIGUSR1 then ''SIGUSR1''
      else if sig = SIGUSR2 then ''SIGUSR2''
      else if sig = SIGTERM then ''SIGTERM''
      else ''<UNKNOWN>'')"

definition knownSignals :: "int list" where
  "knownSignals = [SIGHUP, SIGINT, SIGQUIT, SIGABRT, SIGUSR1, SIGUSR2, SIGTERM]"

definition parseSignal :: "string \<Rightarrow> string \<Rightarrow> err + int" where
  "parseSignal s name =
     (if s = [] then Inr 0
      else if s \<in> set [''HUP'', ''SIGHUP'', ''hangup'', ''1''] then Inr SIGHUP
      else if s \<in> set [''INT'', ''SIGINT'', ''interrupt'', ''2''] then Inr SIGINT
      else if s \<in> set [''QUIT'', ''SIGQUIT'', ''quit'', ''3''] then Inr SIGQUIT
      else if s \<in> set [''ABRT'', ''SIGABRT'', ''aborted'', ''abort'', ''6''] then Inr SIGABRT
      else if s \<in> set [''KILL'', ''SIGKILL'', ''killed'', ''kill'', ''9''] then Inr SIGKILL
      else if s \<in> set [''TERM'', ''SIGTERM'', ''terminated'', ''terminate'', ''15''] then Inr SIGTERM
      else Inl (ErrText (''unknown '' @ goQuote s @ '' name'')))"

text \<open>\<^verbatim>\<open>syscall.Signal.String\<close> of the standard library on Linux.\<close>

definition signalNames :: "string list" where
  "signalNames =
     [[], ''hangup'', ''interrupt'', ''quit'', ''illegal instruction'', ''trace/breakpoint trap'', ''aborted'',
      ''bus error'', ''floating point exception'', ''killed'', ''user defined signal 1'', ''segmentation fault'',
      ''user defined signal 2'', ''broken pipe'', ''alarm clock'', ''terminated'']"

definition signalString :: "int \<Rightarrow> string" where
  "signalString s =
     (if 0 < s \<and> nat s < length signalNames then signalNames ! nat s else ''signal '' @ showInt s)"

section \<open>Configurations\<close>

record 'w process_config =
  cfgID :: string
  cfgName :: string
  cfgArgs :: "string list option"
  cfgCWD :: string
  cfgOneShot :: bool
  cfgUsername :: string
  cfgEnvironment :: "(string, string) gomap option"
  cfgLog :: bool
  cfgLogWriter :: "'w option"
  cfgStopSignal :: int
  cfgStopTimeout :: int
  cfgOnUnexpectedExit :: "(int \<Rightarrow> bool) option"
  cfgAlreadyValidated :: bool
  cfgCachedErr :: "err option"

text \<open>\<^verbatim>\<open>defaultStopTimeout\<close>: ten seconds.\<close>

definition defaultStopTimeout :: int where
  "defaultStopTimeout = 10 * 1000000000"

definition NewConfigValidationError :: "string \<Rightarrow> err \<Rightarrow> err" where
  "NewConfigValidationError path e = ErrWrap (''error validating '' @ goQuote path) e"

definition NewConfigValidationFieldRequiredError :: "string \<Rightarrow> string \<Rightarrow> err" where
  "NewConfigValidationFieldRequiredError path field =
     NewConfigValidationError path (ErrText (goQuote field @ '' is required''))"

definition validateConfig :: "'w process_config \<Rightarrow> string \<Rightarrow> err option" where
  "validateConfig config path =
     (if cfgID config = [] then Some (NewConfigValidationFieldRequiredError path ''id'')
      else if cfgName config = [] then Some (NewConfigValidationFieldRequiredError path ''name'')
      else if cfgStopTimeout config < 100 * 1000000 \<and> cfgStopTimeout config \<noteq> 0 then
        Some (NewConfigValidationError path (ErrText ''stop_timeout should not be less than 100ms''))
      else None)"

definition Validate :: "'w process_config \<Rightarrow> string \<Rightarrow> 'w process_config \<times> err option" where
  "Validate config path =
     (if cfgAlreadyValidated config then (config, cfgCachedErr config)
      else
        let config = config\<lparr>cfgCachedErr := validateConfig config path\<rparr>;
            config = config\<lparr>cfgAlreadyValidated := True\<rparr>
        in (config, cfgCachedErr config))"

section \<open>JSON\<close>

text \<open>The document a \<^verbatim>\<open>configData\<close> is written to; \<^verbatim>\<open>encoding/json\<close> sorts the keys of a map.\<close>

definition strListJson :: "string list option \<Rightarrow> json" where
  "strListJson xs = (case xs of None \<Rightarrow> JNull | Some ys \<Rightarrow> JArr (map JStr ys))"

definition strMapJson :: "(string, string) gomap option \<Rightarrow> json" where
  "strMapJson m = (case m of None \<Rightarrow> JNull | Some ms \<Rightarrow> JObj (map (map_prod id JStr) (sort_key fst ms)))"

definition omitEmpty :: "string \<Rightarrow> string \<Rightarrow> (string \<times> json) list" where
  "omitEmpty name s = (if s = [] then [] else [(name, JStr s)])"

definition marshalProcessConfig :: "'w process_config \<Rightarrow> json" where
  "marshalProcessConfig config =
     (let stopSig = (if cfgStopSignal config \<noteq> 0 then signalString (cfgStopSignal config) else [])
      in JObj
        ([(''id'', JStr (cfgID config)),
          (''name'', JStr (cfgName config)),
          (''args'', strListJson (cfgArgs config)),
          (''cwd'', JStr (cfgCWD config)),
          (''one_shot'', JBool (cfgOneShot config)),
          (''username'', JStr (cfgUsername config)),
          (''env'', strMapJson (cfgEnvironment config)),
          (''log'', JBool (cfgLog config))] @
         omitEmpty ''stop_signal'' stopSig @
         omitEmpty ''stop_timeout'' (durationString (cfgStopTimeout config))))"

text \<open>Decoding into a \<^verbatim>\<open>configData\<close>: the first field of a wrong type is the error.\<close>

record config_data =
  dID :: string
  dName :: string
  dArgs :: "string list option"
  dCWD :: string
  dOneShot :: bool
  dUsername :: string
  dEnvironment :: "(string, string) gomap option"
  dLog :: bool
  dStopSignal :: string
  dStopTimeout :: string

definition bindE :: "err + 'a \<Rightarrow> ('a \<Rightarrow> err + 'b) \<Rightarrow> err + 'b" where
  "bindE x f = (case x of Inl e \<Rightarrow> Inl e | Inr a \<Rightarrow> f a)"

lemma bindE_simps [simp]: "bindE (Inl e) f = Inl e" "bindE (Inr a) f = f a"
  by (simp_all add: bindE_def)

definition decodeConfigData :: "json \<Rightarrow> err + config_data" where
  "decodeConfigData doc =
     bindE (structMembers doc) (\<lambda>fs.
     bindE (strField ''id'' fs) (\<lambda>i.
     bindE (strField ''name'' fs) (\<lambda>n.
     bindE (strListField ''args'' fs) (\<lambda>a.
     bindE (strField ''cwd'' fs) (\<lambda>c.
     bindE (boolField ''one_shot'' fs) (\<lambda>sh.
     bindE (strField ''username'' fs) (\<lambda>u.
     bindE (strMapField ''env'' fs) (\<lambda>env.
     bindE (boolField ''log'' fs) (\<lambda>l.
     bindE (strField ''stop_signal'' fs) (\<lambda>sig.
     bindE (strField ''stop_timeout'' fs) (\<lambda>t.
       Inr \<lparr>dID = i, dName = n, dArgs = a, dCWD = c, dOneShot = sh, dUsername = u, dEnvironment = env,
         dLog = l, dStopSignal = sig, dStopTimeout = t\<rparr>)))))))))))"

text \<open>
  The method has a pointer receiver: the configuration after the call and the error.  A failure to
  read the timeout or the signal leaves the other fields set.
\<close>

definition unmarshalProcessConfig ::
  "(nat \<Rightarrow> nat \<Rightarrow> nat \<Rightarrow> nat) \<Rightarrow> 'w process_config \<Rightarrow> json \<Rightarrow> 'w process_config \<times> err option" where
  "unmarshalProcessConfig fl config doc =
     (case decodeConfigData doc of
        Inl e \<Rightarrow> (config, Some e)
      | Inr temp \<Rightarrow>
          let config = \<lparr>cfgID = dID temp, cfgName = dName temp, cfgArgs = dArgs temp, cfgCWD = dCWD temp,
                cfgOneShot = dOneShot temp, cfgUsername = dUsername temp, cfgEnvironment = dEnvironment temp,
                cfgLog = dLog temp, cfgLogWriter = None, cfgStopSignal = 0, cfgStopTimeout = 0,
                cfgOnUnexpectedExit = None, cfgAlreadyValidated = False, cfgCachedErr = None\<rparr>
          in case (if dStopTimeout temp \<noteq> [] then ParseDuration fl (dStopTimeout temp) else Inr 0) of
               Inl e \<Rightarrow> (config, Some e)
             | Inr dur \<Rightarrow>
                 let config = config\<lparr>cfgStopTimeout := dur\<rparr>
                 in (case parseSignal (dStopSignal temp) ''stop_signal'' of
                       Inl e \<Rightarrow> (config, Some e)
                     | Inr stopSig \<Rightarrow> (config\<lparr>cfgStopSignal := stopSig\<rparr>, None)))"

section \<open>Equality\<close>

text \<open>
  \<^verbatim>\<open>reflect.DeepEqual\<close> on the fields: maps are equal as maps, a nil map is not an empty one, and two
  functions are equal only when both are nil.
\<close>

definition deepEqMap :: "('k, 'v) gomap option \<Rightarrow> ('k, 'v) gomap option \<Rightarrow> bool" where
  "deepEqMap a b \<longleftrightarrow>
     (case (a, b) of
        (None, None) \<Rightarrow> True
      | (Some x, Some y) \<Rightarrow>
          length x = length y \<and> list_all (\<lambda>(k, v). mget y k = Some v) x
      | _ \<Rightarrow> False)"

definition deepEqWriter :: "('w \<Rightarrow> 'w \<Rightarrow> bool) \<Rightarrow> 'w option \<Rightarrow> 'w option \<Rightarrow> bool" where
  "deepEqWriter weq a b \<longleftrightarrow>
     (case (a, b) of (None, None) \<Rightarrow> True | (Some x, Some y) \<Rightarrow> weq x y | _ \<Rightarrow> False)"

definition Equals :: "('w \<Rightarrow> 'w \<Rightarrow> bool) \<Rightarrow> 'w process_config \<Rightarrow> 'w process_config \<Rightarrow> bool" where
  "Equals weq config other \<longleftrightarrow>
     (let config = config\<lparr>cfgAlreadyValidated := False, cfgCachedErr := None\<rparr>;
          other = other\<lparr>cfgAlreadyValidated := False, cfgCachedErr := None\<rparr>
      in cfgID config = cfgID other \<and> cfgName config = cfgName other \<and> cfgArgs config = cfgArgs other \<and>
         cfgCWD config = cfgCWD other \<and> cfgOneShot config = cfgOneShot other \<and>
         cfgUsername config = cfgUsername other \<and> deepEqMap (cfgEnvironment config) (cfgEnvironment other) \<and>
         cfgLog config = cfgLog other \<and> deepEqWriter weq (cfgLogWriter config) (cfgLogWriter other) \<and>
         cfgStopSignal config = cfgStopSignal other \<and> cfgStopTimeout config = cfgStopTimeout other \<and>
         cfgOnUnexpectedExit config = None \<and> cfgOnUnexpectedExit other = None \<and>
         cfgAlreadyValidated config = cfgAlreadyValidated other \<and> cfgCachedErr config = cfgCachedErr other)"

section \<open>What decoding makes of an encoded configuration\<close>

lemma fold_keys:
  "map foldChar ''id'' = ''id''" "map foldChar ''name'' = ''name''" "map foldChar ''args'' = ''args''"
  "map foldChar ''cwd'' = ''cwd''" "map foldChar ''one_shot'' = ''one_shot''"
  "map foldChar ''username'' = ''username''" "map foldChar ''env'' = ''env''" "map foldChar ''log'' = ''log''"
  "map foldChar ''stop_signal'' = ''stop_signal''" "map foldChar ''stop_timeout'' = ''stop_timeout''"
  by code_simp+

lemma fieldVals_append [simp]: "fieldVals name (xs @ ys) = fieldVals name xs @ fieldVals name ys"
  by (simp add: fieldVals_def)

lemma fieldVals_omitEmpty:
  "fieldVals name (omitEmpty key s) = (if map foldChar key = map foldChar name \<and> s \<noteq> [] then [JStr s] else [])"
  by (simp add: omitEmpty_def)

lemma isStrList_strListJson [simp]: "isStrList (strListJson xs)" "strListOf (strListJson xs) = xs"
  by (auto simp: strListJson_def list_all_iff comp_def split: option.splits)

lemma map_of_sort_key:
  assumes "wfmap m"
  shows "map_of (sort_key fst m) = map_of m"
  using assms by (intro map_of_inject_set [THEN iffD2]) (simp_all add: distinct_map)

lemma wfmap_sort_key: "wfmap m \<Longrightarrow> wfmap (sort_key fst m)"
  by (simp add: distinct_map)

lemma isStrMap_strMapJson [simp]: "isStrMap (strMapJson m)"
  by (auto simp: strMapJson_def list_all_iff split: option.splits)

lemma addStrMap_strMapJson:
  assumes "\<And>ms. m = Some ms \<Longrightarrow> wfmap ms"
  shows "addStrMap (strMapJson m) None = map_option (sort_key fst) m"
  using assms by (cases m) (auto simp: strMapJson_def comp_def map_prod_def case_prod_beta wfmap_sort_key)

definition parsesBack :: "int \<Rightarrow> bool" where
  "parsesBack s \<longleftrightarrow>
     (case parseSignal (signalString s) ''stop_signal'' of
        Inl e \<Rightarrow> s \<notin> set [SIGHUP, SIGINT, SIGQUIT, SIGABRT, SIGKILL, SIGTERM]
      | Inr v \<Rightarrow> s \<in> set [SIGHUP, SIGINT, SIGQUIT, SIGABRT, SIGKILL, SIGTERM] \<and> v = s)"

lemma parsesBack_named: "list_all parsesBack [1, 2, 3, 4, 5, 6, 7, 8, 9, 10, 11, 12, 13, 14, 15]"
  by code_simp

lemma parsesBack:
  assumes "s \<noteq> 0"
  shows "parsesBack s"
proof (cases "0 < s \<and> s \<le> 15")
  case True
  then have "s \<in> set [1, 2, 3, 4, 5, 6, 7, 8, 9, 10, 11, 12, 13, 14, 15]"
    by (simp only: list.set insert_iff empty_iff) presburger
  then show ?thesis
    using parsesBack_named unfolding list_all_iff by blast
next
  case False
  then have "signalString s = ''signal '' @ showInt s"
    using assms by (auto simp: signalString_def signalNames_def)
  then show ?thesis
    using False by (auto simp: parsesBack_def parseSignal_def)
qed

lemma durationString_ne [simp]: "durationString d \<noteq> []"
  using formatDuration_shape by (metis durationString_def list.distinct(1))

definition wfConfig :: "'w process_config \<Rightarrow> bool" where
  "wfConfig c \<longleftrightarrow>
     (case cfgEnvironment c of None \<Rightarrow> True | Some m \<Rightarrow> wfmap m) \<and>
     - (2 ^ 63) \<le> cfgStopTimeout c \<and> cfgStopTimeout c < 2 ^ 63"

lemma decode_marshal:
  assumes "wfConfig c"
  shows "decodeConfigData (marshalProcessConfig c) =
    Inr \<lparr>dID = cfgID c, dName = cfgName c, dArgs = cfgArgs c, dCWD = cfgCWD c, dOneShot = cfgOneShot c,
      dUsername = cfgUsername c, dEnvironment = map_option (sort_key fst) (cfgEnvironment c), dLog = cfgLog c,
      dStopSignal = (if cfgStopSignal c \<noteq> 0 then signalString (cfgStopSignal c) else []),
      dStopTimeout = durationString (cfgStopTimeout c)\<rparr>"
proof -
  have env: "addStrMap (strMapJson (cfgEnvironment c)) None = map_option (sort_key fst) (cfgEnvironment c)"
    using assms by (intro addStrMap_strMapJson) (simp add: wfConfig_def)
  show ?thesis
    by (simp add: decodeConfigData_def marshalProcessConfig_def strField_def boolField_def strListField_def strMapField_def
        fieldVals_omitEmpty fold_keys Let_def env del: list.map)
qed

lemma deepEqMap_sort_key:
  assumes "case m of None \<Rightarrow> True | Some ms \<Rightarrow> wfmap ms"
  shows "deepEqMap (map_option (sort_key fst) m) m"
  using assms by (cases m) (auto simp: deepEqMap_def list_all_iff)

text \<open>
  C26.  A configuration written to JSON and read back is equal to the original, as the program's own
  \<open>Equals\<close> sees it, when it holds nothing that JSON cannot hold (a writer or a callback) and its stop
  signal is unset or one of the six that \<open>parseSignal\<close> knows by the name the signal prints as; with
  any other signal reading it back is an error.
\<close>

theorem config_json_round_trip:
  assumes "exact_float fl" "wfConfig c" "cfgLogWriter c = None" "cfgOnUnexpectedExit c = None"
  shows "(snd (unmarshalProcessConfig fl old (marshalProcessConfig c)) = None \<longleftrightarrow>
      cfgStopSignal c \<in> {0, SIGHUP, SIGINT, SIGQUIT, SIGABRT, SIGKILL, SIGTERM}) \<and>
    (snd (unmarshalProcessConfig fl old (marshalProcessConfig c)) = None \<longrightarrow>
      Equals weq (fst (unmarshalProcessConfig fl old (marshalProcessConfig c))) c)"
proof -
  have dur: "ParseDuration fl (durationString (cfgStopTimeout c)) = Inr (cfgStopTimeout c)"
    using assms(1,2) by (intro ParseDuration_String) (simp_all add: wfConfig_def)
  have env: "deepEqMap (map_option (sort_key fst) (cfgEnvironment c)) (cfgEnvironment c)"
    using assms(2) by (intro deepEqMap_sort_key) (simp add: wfConfig_def)
  show ?thesis
  proof (cases "cfgStopSignal c = 0")
    case True
    then show ?thesis
      using assms(3,4) dur env
      by (simp add: unmarshalProcessConfig_def decode_marshal [OF assms(2)] parseSignal_def Equals_def deepEqWriter_def)
  next
    case False
    then show ?thesis
      using assms(3,4) dur env parsesBack [OF False] unfolding parsesBack_def
      by (cases "parseSignal (signalString (cfgStopSignal c)) ''stop_signal''")
        (auto simp: unmarshalProcessConfig_def decode_marshal [OF assms(2)] Equals_def deepEqWriter_def)
  qed
qed

definition demoConfig :: "nat process_config" where
  "demoConfig =
     \<lparr>cfgID = ''p1'', cfgName = ''bash'', cfgArgs = Some [''-c'', ''true''], cfgCWD = [], cfgOneShot = False,
      cfgUsername = [], cfgEnvironment = Some [(''B'', ''2''), (''A'', ''1'')], cfgLog = True, cfgLogWriter = None,
      cfgStopSignal = SIGINT, cfgStopTimeout = 1500000000, cfgOnUnexpectedExit = None,
      cfgAlreadyValidated = True, cfgCachedErr = None\<rparr>"

definition demoFloat :: "nat \<Rightarrow> nat \<Rightarrow> nat \<Rightarrow> nat" where
  "demoFloat f unit scale = f * unit div scale"

lemma demoFloat_exact: "exact_float demoFloat"
  by (auto simp: exact_float_def demoFloat_def div_mult_swap)

theorem config_json_round_trip_witness:
  "snd (unmarshalProcessConfig demoFloat demoConfig (marshalProcessConfig demoConfig)) = None \<and>
   Equals (=) (fst (unmarshalProcessConfig demoFloat demoConfig (marshalProcessConfig demoConfig))) demoConfig \<and>
   snd (unmarshalProcessConfig demoFloat demoConfig (marshalProcessConfig (demoConfig\<lparr>cfgStopSignal := SIGUSR1\<rparr>))) \<noteq> None"
  using config_json_round_trip [OF demoFloat_exact, of demoConfig demoConfig "(=)"]
    config_json_round_trip [OF demoFloat_exact, of "demoConfig\<lparr>cfgStopSignal := SIGUSR1\<rparr>" demoConfig "(=)"]
  by (simp add: wfConfig_def demoConfig_def)

text \<open>
  The answer of the first \<open>Validate\<close> is the answer of every later one, whatever path is given and
  whatever the configuration has become meanwhile, and it is nil just for a named process with an
  identifier whose stop timeout is unset or at least 100ms; \<open>Equals\<close> does not see whether a
  configuration was validated.
\<close>

lemma validate_once:
  assumes "\<not> cfgAlreadyValidated c" "Validate c path = (c', e)"
  shows "(e = None \<longleftrightarrow> cfgID c \<noteq> [] \<and> cfgName c \<noteq> [] \<and> (cfgStopTimeout c = 0 \<or> 100000000 \<le> cfgStopTimeout c)) \<and>
    snd (Validate (c'\<lparr>cfgID := i, cfgName := n, cfgStopTimeout := t\<rparr>) path') = e \<and>
    Equals weq c' d = Equals weq c d"
proof -
  have c': "c' = c\<lparr>cfgCachedErr := e, cfgAlreadyValidated := True\<rparr>" "e = validateConfig c path"
    using assms by (auto simp: Validate_def Let_def)
  have "e = None \<longleftrightarrow> cfgID c \<noteq> [] \<and> cfgName c \<noteq> [] \<and> (cfgStopTimeout c = 0 \<or> 100000000 \<le> cfgStopTimeout c)"
    unfolding c'(2) by (auto simp: validateConfig_def)
  then show ?thesis
    by (simp add: c'(1) Validate_def Equals_def)
qed

text \<open>A configuration with an exit callback is not even equal to itself.\<close>

lemma Equals_callback: "cfgOnUnexpectedExit c \<noteq> None \<Longrightarrow> \<not> Equals weq c c"
  by (auto simp: Equals_def)

end
