(* ===== verification/ManagedProcess.thy ===== *)
theory ManagedProcess
  imports ProcessConfig
begin

text \<open>
  A managed process: \<^verbatim>\<open>src/pexec/managed_process.go\<close> and \<^verbatim>\<open>src/pexec/managed_process_unix.go\<close>.

  The operations are functions on a \<open>world\<close>: the \<^verbatim>\<open>managedProcess\<close> value, the children the
  operating system has started for it, the goroutines that manage it and the position of the caller
  of \<^verbatim>\<open>Stop\<close>.  The operating system is the record \<open>os_proc\<close>; a fresh one answers each call.  The
  relation \<open>mp_step\<close> interleaves the callers, the goroutines and the deaths of children; a step is a
  piece of code between two points where it can block.  \<^verbatim>\<open>Start\<close> holds the mutex from its first
  statement to its last and is one step, and so is the locked part of \<^verbatim>\<open>Stop\<close>.

  The text an error prints as is the parameter \<open>errText\<close>; \<^verbatim>\<open>Stop\<close> compares it with the texts of three
  exit states.
\<close>

section \<open>The operating system\<close>

record command =
  cmdName :: string
  cmdArgs :: "string list"
  cmdEnv :: "string list"
  cmdDir :: string
  cmdCredential :: "(nat \<times> nat) option"

record os_proc =
  osLstat :: "string \<Rightarrow> err option"
  osGetwd :: "err + string"
  osUserLookup :: "string \<Rightarrow> err + string \<times> string"
  osStdoutPipe :: "err option"
  osStderrPipe :: "err option"
  osStart :: "command \<Rightarrow> err option"
  osRun :: "command \<Rightarrow> err option"

definition errAlreadyStopped :: err where
  "errAlreadyStopped = ErrText ''already stopped''"

definition ErrProcessDone :: err where
  "ErrProcessDone = ErrText ''os: process already finished''"

text \<open>\<^verbatim>\<open>strconv.ParseUint\<close> in base 10 with 32 bits.\<close>

definition parseUint32 :: "string \<Rightarrow> err + nat" where
  "parseUint32 s =
     (if s = [] \<or> \<not> list_all isDig s then Inl (ErrTyped ''strconv.NumError'' ''invalid syntax'')
      else if horner s 0 \<ge> 2 ^ 32 then Inl (ErrTyped ''strconv.NumError'' ''value out of range'')
      else Inr (horner s 0))"

section \<open>The process and its world\<close>

record 'w managed_process =
  mpID :: string
  mpName :: string
  mpArgs :: "string list"
  mpCWD :: string
  mpOneShot :: bool
  mpUsername :: string
  mpEnv :: "string list"
  mpShouldLog :: bool
  mpCmd :: "nat option"
  mpStopped :: bool
  mpOnUnexpectedExit :: "(int \<Rightarrow> bool) option"
  mpManagingCh :: bool
  mpKillCh :: bool
  mpStopSig :: int
  mpStopWaitInterval :: int
  mpLastWaitErr :: "err option"
  mpLogWriter :: "'w option"

text \<open>A duration divided by three, truncated towards zero.\<close>

definition third :: "int \<Rightarrow> int" where
  "third d = (if d < 0 then - ((- d) div 3) else d div 3)"

definition NewManagedProcess :: "string list \<Rightarrow> 'w process_config \<Rightarrow> 'w managed_process" where
  "NewManagedProcess environ config =
     (let config = (if cfgStopSignal config = 0 then config\<lparr>cfgStopSignal := SIGTERM\<rparr> else config);
          config = (if cfgStopTimeout config = 0 then config\<lparr>cfgStopTimeout := defaultStopTimeout\<rparr> else config);
          env = fold (\<lambda>(key, val) env. env @ [key @ ''='' @ val])
            (case cfgEnvironment config of None \<Rightarrow> [] | Some m \<Rightarrow> m) environ
      in \<lparr>mpID = cfgID config, mpName = cfgName config,
          mpArgs = (case cfgArgs config of None \<Rightarrow> [] | Some xs \<Rightarrow> xs), mpCWD = cfgCWD config,
          mpOneShot = cfgOneShot config, mpUsername = cfgUsername config, mpEnv = env,
          mpShouldLog = cfgLog config, mpCmd = None, mpStopped = False,
          mpOnUnexpectedExit = cfgOnUnexpectedExit config, mpManagingCh = False, mpKillCh = False,
          mpStopSig = cfgStopSignal config, mpStopWaitInterval = third (cfgStopTimeout config),
          mpLastWaitErr = None, mpLogWriter = cfgLogWriter config\<rparr>)"

text \<open>
  A child is alive, has ended with what \<^verbatim>\<open>Wait\<close> will return and its exit code, or was waited for (its
  \<^verbatim>\<open>ProcessState\<close> is set).  \<open>man_pc\<close> is where a managing goroutine is: before it reads \<^verbatim>\<open>p.cmd\<close>, in the
  \<^verbatim>\<open>Wait\<close> of the command it read, after it, at the ticker, at the restart.  \<open>stop_pc\<close> is where the
  first caller of \<^verbatim>\<open>Stop\<close> is: before it, at each of the three stages of \<^verbatim>\<open>kill\<close>, waiting for the end
  of management, or returned, having waited or not.
\<close>

datatype child = Alive | Dead "err option" int | Reaped int

datatype man_pc = MEnter | MWait nat | MDecide | MTicker | MRestart

datatype stop_pc = SIdle | SSignal | SGroup | SForce | SWait bool | SDone bool "err option"

record 'w world =
  wProc :: "'w managed_process"
  wTable :: "child list"
  wMan :: "man_pc list"
  wStop :: stop_pc
  wStarts :: nat
  wPanic :: bool

definition newWorld :: "'w managed_process \<Rightarrow> 'w world" where
  "newWorld p = \<lparr>wProc = p, wTable = [], wMan = [], wStop = SIdle, wStarts = 0, wPanic = False\<rparr>"

definition cmdChild :: "'w world \<Rightarrow> child option" where
  "cmdChild w =
     (case mpCmd (wProc w) of
        None \<Rightarrow> None
      | Some i \<Rightarrow> if i < length (wTable w) then Some (wTable w ! i) else None)"

section \<open>Starting\<close>

definition validateCWD :: "os_proc \<Rightarrow> 'w managed_process \<Rightarrow> err option" where
  "validateCWD E p =
     (if mpCWD p = [] then None
      else case osLstat E (mpCWD p) of
        None \<Rightarrow> None
      | Some lstaterr \<Rightarrow>
          (case osGetwd E of
             Inl cwdErr \<Rightarrow>
               Some (ErrWrap (''error setting process working directory to '' @ goQuote (mpCWD p)) lstaterr)
           | Inr cwd \<Rightarrow>
               Some (ErrWrap (''error setting process working directory to '' @ goQuote (mpCWD p) @
                 '' from current working directory '' @ goQuote cwd) lstaterr)))"

definition sysProcAttr :: "os_proc \<Rightarrow> 'w managed_process \<Rightarrow> err + (nat \<times> nat) option" where
  "sysProcAttr E p =
     (if mpUsername p = [] then Inr None
      else
        bindE (osUserLookup E (mpUsername p)) (\<lambda>(uid, gid).
        bindE (parseUint32 uid) (\<lambda>u.
        bindE (parseUint32 gid) (\<lambda>g. Inr (Some (u, g))))))"

definition makeCommand :: "'w managed_process \<Rightarrow> (nat \<times> nat) option \<Rightarrow> command" where
  "makeCommand p cred =
     \<lparr>cmdName = mpName p, cmdArgs = mpArgs p, cmdEnv = mpEnv p, cmdDir = mpCWD p, cmdCredential = cred\<rparr>"

text \<open>
  A one shot process runs to its end under the lock.  The output it logs does not change what is
  returned.
\<close>

definition runOneShot :: "os_proc \<Rightarrow> 'w managed_process \<Rightarrow> err option" where
  "runOneShot E p =
     (case sysProcAttr E p of
        Inl e \<Rightarrow> Some e
      | Inr cred \<Rightarrow>
          (case osRun E (makeCommand p cred) of
             None \<Rightarrow> None
           | Some runErr \<Rightarrow> Some (ErrWrap (''error running process '' @ goQuote (mpName p)) runErr)))"

definition Start :: "os_proc \<Rightarrow> 'w world \<Rightarrow> 'w world \<times> err option" where
  "Start E w =
     (let p = wProc w in
      if mpKillCh p then (w, Some errAlreadyStopped)
      else case validateCWD E p of
        Some e \<Rightarrow> (w, Some e)
      | None \<Rightarrow>
          if mpOneShot p then (w, runOneShot E p)
          else case sysProcAttr E p of
            Inl e \<Rightarrow> (w, Some e)
          | Inr cred \<Rightarrow>
              let cmd = makeCommand p cred;
                  pipeErr = (if mpShouldLog p \<or> mpLogWriter p \<noteq> None then
                      (case osStdoutPipe E of Some e \<Rightarrow> Some e | None \<Rightarrow> osStderrPipe E)
                    else None)
              in case pipeErr of
                   Some e \<Rightarrow> (w, Some e)
                 | None \<Rightarrow>
                     (case osStart E cmd of
                        Some e \<Rightarrow> (w, Some e)
                      | None \<Rightarrow>
                          (w\<lparr>wProc := p\<lparr>mpCmd := Some (length (wTable w))\<rparr>,
                             wTable := wTable w @ [Alive],
                             wMan := wMan w @ [MEnter]\<rparr>, None)))"

section \<open>Managing\<close>

text \<open>What the goroutines that copy a child's output do with one reading after the other.\<close>

datatype log_out = LoggedError string | LoggedInfo string | Wrote string | ReadFailed err

definition ErrClosed :: err where
  "ErrClosed = ErrText ''file already closed''"

fun logPipe ::
  "bool \<Rightarrow> bool \<Rightarrow> bool \<Rightarrow> bool \<Rightarrow> (bool \<times> (err + string) \<times> err option \<times> err option) list \<Rightarrow> log_out list" where
  "logPipe shouldLog hasWriter isErr logWriterError [] = []"
| "logPipe shouldLog hasWriter isErr logWriterError ((stopLogging, reading, write1, write2) # rest) =
     (if stopLogging then []
      else case reading of
        Inl e \<Rightarrow> if \<not> errorsIs e EOF \<and> \<not> errorsIs e ErrClosed then [ReadFailed e] else []
      | Inr line \<Rightarrow>
          (if shouldLog then
             [if isErr then LoggedError ([CHR 0x0A, CHR 0x5C] @ ''_ '' @ line)
              else LoggedInfo ([CHR 0x0A, CHR 0x5C] @ ''_ '' @ line)]
           else []) @
          (if hasWriter \<and> \<not> logWriterError then
             (case write1 of
                None \<Rightarrow>
                  [Wrote line] @
                  (case write2 of
                     None \<Rightarrow> Wrote [CHR 0x0A] # logPipe shouldLog hasWriter isErr logWriterError rest
                   | Some e \<Rightarrow> if \<not> shouldLog then [] else logPipe shouldLog hasWriter isErr True rest)
              | Some e \<Rightarrow> if \<not> shouldLog then [] else logPipe shouldLog hasWriter isErr True rest)
           else logPipe shouldLog hasWriter isErr logWriterError rest))"

text \<open>The deferred function of a goroutine that has not restarted the process: \<^verbatim>\<open>close(p.managingCh)\<close>.\<close>

definition closeManaging :: "nat \<Rightarrow> 'w world \<Rightarrow> 'w world" where
  "closeManaging i w =
     (let w = w\<lparr>wMan := take i (wMan w) @ drop (Suc i) (wMan w)\<rparr>
      in if mpManagingCh (wProc w) then w\<lparr>wPanic := True\<rparr>
         else w\<lparr>wProc := (wProc w)\<lparr>mpManagingCh := True\<rparr>\<rparr>)"

definition manageEnter :: "nat \<Rightarrow> 'w world \<Rightarrow> 'w world option" where
  "manageEnter i w =
     (case mpCmd (wProc w) of None \<Rightarrow> None | Some j \<Rightarrow> Some (w\<lparr>wMan := (wMan w)[i := MWait j]\<rparr>))"

text \<open>
  \<^verbatim>\<open>Wait\<close> returns when the child is dead; a second \<^verbatim>\<open>Wait\<close> for the same command is an error.  The loggers
  are joined before the goroutine goes on.
\<close>

definition manageWait :: "nat \<Rightarrow> nat \<Rightarrow> 'w world \<Rightarrow> 'w world option" where
  "manageWait i j w =
     (if j < length (wTable w) then
        (case wTable w ! j of
           Alive \<Rightarrow> None
         | Dead e code \<Rightarrow>
             Some (w\<lparr>wProc := (wProc w)\<lparr>mpLastWaitErr := e\<rparr>, wTable := (wTable w)[j := Reaped code],
               wMan := (wMan w)[i := MDecide]\<rparr>)
         | Reaped code \<Rightarrow>
             Some (w\<lparr>wProc := (wProc w)\<lparr>mpLastWaitErr := Some (ErrText ''exec: Wait was already called'')\<rparr>,
               wMan := (wMan w)[i := MDecide]\<rparr>))
      else None)"

text \<open>\<^verbatim>\<open>p.cmd.ProcessState.ExitCode()\<close>: minus one while there is no state.\<close>

definition exitCode :: "'w world \<Rightarrow> int" where
  "exitCode w = (case cmdChild w of Some (Reaped code) \<Rightarrow> code | _ \<Rightarrow> -1)"

text \<open>
  After the callback the goroutine logs \<^verbatim>\<open>p.cmd.ProcessState.Exited()\<close>, which panics while the state is
  nil.
\<close>

definition toTicker :: "nat \<Rightarrow> 'w world \<Rightarrow> 'w world" where
  "toTicker i w =
     (case cmdChild w of
        Some (Reaped code) \<Rightarrow> w\<lparr>wMan := (wMan w)[i := MTicker]\<rparr>
      | _ \<Rightarrow> (closeManaging i w)\<lparr>wPanic := True\<rparr>)"

definition manageDecide :: "nat \<Rightarrow> 'w world \<Rightarrow> 'w world" where
  "manageDecide i w =
     (if mpKillCh (wProc w) then closeManaging i w
      else case mpOnUnexpectedExit (wProc w) of
        None \<Rightarrow> toTicker i w
      | Some f \<Rightarrow> if \<not> f (exitCode w) then closeManaging i w else toTicker i w)"

definition manageTick :: "nat \<Rightarrow> nat \<Rightarrow> 'w world \<Rightarrow> 'w world option" where
  "manageTick pick i w =
     goSelect pick
       [Some (w\<lparr>wMan := (wMan w)[i := MRestart]\<rparr>),
        if mpKillCh (wProc w) then Some (closeManaging i w) else None]"

definition manageRestart :: "os_proc \<Rightarrow> nat \<Rightarrow> 'w world \<Rightarrow> 'w world" where
  "manageRestart E i w =
     (case Start E w of
        (w', Some e) \<Rightarrow> closeManaging i w'
      | (w', None) \<Rightarrow> w'\<lparr>wMan := take i (wMan w') @ drop (Suc i) (wMan w')\<rparr>)"

section \<open>Stopping\<close>

definition stopBegin :: "'w world \<Rightarrow> 'w world" where
  "stopBegin w =
     (let p = wProc w in
      if mpStopped p then w
      else let p = p\<lparr>mpKillCh := True, mpStopped := True\<rparr> in
        (case mpCmd p of
           None \<Rightarrow> w\<lparr>wProc := p, wStop := SDone False None\<rparr>
         | Some i \<Rightarrow> w\<lparr>wProc := p, wStop := SSignal\<rparr>))"

definition signalFailed :: "err option \<Rightarrow> bool" where
  "signalFailed e \<longleftrightarrow> e \<noteq> None \<and> \<not> errIs e ErrProcessDone"

definition killSignal :: "err option \<Rightarrow> 'w world \<Rightarrow> 'w world" where
  "killSignal e w =
     (if signalFailed e then w\<lparr>wStop := SDone False (wrapErr e ''error signaling process'')\<rparr>
      else w\<lparr>wStop := SGroup\<rparr>)"

definition killGroup :: "nat \<Rightarrow> err option \<Rightarrow> 'w world \<Rightarrow> 'w world option" where
  "killGroup pick e w =
     goSelect pick
       [Some (if signalFailed e then w\<lparr>wStop := SDone False (wrapErr e ''error signaling process group'')\<rparr>
              else w\<lparr>wStop := SForce\<rparr>),
        if mpManagingCh (wProc w) then Some (w\<lparr>wStop := SForce\<rparr>) else None]"

definition killForce :: "nat \<Rightarrow> err option \<Rightarrow> 'w world \<Rightarrow> 'w world option" where
  "killForce pick e w =
     goSelect pick
       [Some (if signalFailed e then w\<lparr>wStop := SDone False (wrapErr e ''error killing process group'')\<rparr>
              else w\<lparr>wStop := SWait True\<rparr>),
        if mpManagingCh (wProc w) then Some (w\<lparr>wStop := SWait False\<rparr>) else None]"

text \<open>\<^verbatim>\<open>errors.As\<close> for \<^verbatim>\<open>syscall.Errno\<close>: the first one in the chain.\<close>

fun errnoOf :: "err \<Rightarrow> string option" where
  "errnoOf (ErrTyped ty name) = (if ty = ''syscall.Errno'' then Some name else None)"
| "errnoOf (ErrWrap m e) = errnoOf e"
| "errnoOf e = None"

definition isWaitErrUnknown :: "string \<Rightarrow> bool \<Rightarrow> bool" where
  "isWaitErrUnknown e forceKilled \<longleftrightarrow>
     e \<in> set [''signal: interrupt'', ''signal: terminated'', ''signal: killed'']"

definition stopResult :: "(err \<Rightarrow> string) \<Rightarrow> bool \<Rightarrow> 'w world \<Rightarrow> err option" where
  "stopResult errText forceKilled w =
     (case mpLastWaitErr (wProc w) of
        None \<Rightarrow>
          if exitCode w = 0 then None
          else Some (ErrText (''non-successful exit code: '' @ showInt (exitCode w)))
      | Some e \<Rightarrow>
          let unknownStatus = (errnoOf e = Some ''ECHILD'');
              unknownStatus = (unknownStatus \<or> isWaitErrUnknown (errText e) forceKilled)
          in if unknownStatus then None else Some e)"

definition stopWait :: "(err \<Rightarrow> string) \<Rightarrow> bool \<Rightarrow> 'w world \<Rightarrow> 'w world option" where
  "stopWait errText forceKilled w =
     (if mpManagingCh (wProc w) then Some (w\<lparr>wStop := SDone True (stopResult errText forceKilled w)\<rparr>)
      else None)"

text \<open>\<^verbatim>\<open>Status\<close> reads \<^verbatim>\<open>p.cmd.Process\<close>: before a successful start \<^verbatim>\<open>p.cmd\<close> is nil and the read panics (\<^const>\<open>None\<close>).\<close>

definition processStatus :: "(nat \<Rightarrow> err option) \<Rightarrow> 'w world \<Rightarrow> err option option" where
  "processStatus signal0 w = map_option signal0 (mpCmd (wProc w))"

section \<open>Steps\<close>

text \<open>
  \<open>mp_own\<close> holds the steps of the program's own goroutines and of the caller inside \<^verbatim>\<open>Stop\<close>;
  \<open>mp_step\<close> adds new calls and the ends of children.  A client starts the process at most \<open>limit\<close>
  times.
\<close>

inductive mp_own :: "(err \<Rightarrow> string) \<Rightarrow> 'w world \<Rightarrow> 'w world \<Rightarrow> bool" for errText :: "err \<Rightarrow> string" where
  own_enter: "i < length (wMan w) \<Longrightarrow> wMan w ! i = MEnter \<Longrightarrow> manageEnter i w = Some w' \<Longrightarrow> mp_own errText w w'"
| own_wait: "i < length (wMan w) \<Longrightarrow> wMan w ! i = MWait j \<Longrightarrow> manageWait i j w = Some w' \<Longrightarrow> mp_own errText w w'"
| own_decide: "i < length (wMan w) \<Longrightarrow> wMan w ! i = MDecide \<Longrightarrow> mp_own errText w (manageDecide i w)"
| own_tick: "i < length (wMan w) \<Longrightarrow> wMan w ! i = MTicker \<Longrightarrow> manageTick pick i w = Some w' \<Longrightarrow> mp_own errText w w'"
| own_restart: "i < length (wMan w) \<Longrightarrow> wMan w ! i = MRestart \<Longrightarrow> mp_own errText w (manageRestart E i w)"
| own_signal: "wStop w = SSignal \<Longrightarrow> mp_own errText w (killSignal e w)"
| own_group: "wStop w = SGroup \<Longrightarrow> killGroup pick e w = Some w' \<Longrightarrow> mp_own errText w w'"
| own_force: "wStop w = SForce \<Longrightarrow> killForce pick e w = Some w' \<Longrightarrow> mp_own errText w w'"
| own_stopped: "wStop w = SWait fk \<Longrightarrow> stopWait errText fk w = Some w' \<Longrightarrow> mp_own errText w w'"

inductive mp_step :: "(err \<Rightarrow> string) \<Rightarrow> nat \<Rightarrow> 'w world \<Rightarrow> 'w world \<Rightarrow> bool"
  for errText :: "err \<Rightarrow> string" and limit :: nat where
  step_own: "mp_own errText w w' \<Longrightarrow> mp_step errText limit w w'"
| step_start: "wStarts w < limit \<Longrightarrow> Start E (w\<lparr>wStarts := Suc (wStarts w)\<rparr>) = (w', e) \<Longrightarrow> mp_step errText limit w w'"
| step_stop: "mp_step errText limit w (stopBegin w)"
| step_exit: "i < length (wTable w) \<Longrightarrow> wTable w ! i = Alive \<Longrightarrow>
    mp_step errText limit w (w\<lparr>wTable := (wTable w)[i := Dead e code]\<rparr>)"

section \<open>One goroutine, one child\<close>

text \<open>
  The children before the last were waited for, the last one belongs to \<^verbatim>\<open>p.cmd\<close> and was waited for
  once its goroutine is past \<^verbatim>\<open>Wait\<close>; management has ended just when its goroutine is gone.
\<close>

fun reaped :: "child \<Rightarrow> bool" where
  "reaped (Reaped code) = True"
| "reaped c = False"

fun atWait :: "man_pc \<Rightarrow> bool" where
  "atWait MEnter = True"
| "atWait (MWait j) = True"
| "atWait pc = False"

definition oneChild :: "'w world \<Rightarrow> man_pc \<Rightarrow> child list \<Rightarrow> child \<Rightarrow> bool" where
  "oneChild w pc ds c \<longleftrightarrow>
     mpCmd (wProc w) = Some (length ds) \<and> wMan w = [pc] \<and> \<not> mpManagingCh (wProc w) \<and> wTable w = ds @ [c] \<and>
     list_all reaped ds \<and> (\<forall>j. pc = MWait j \<longrightarrow> j = length ds) \<and> (reaped c \<longleftrightarrow> \<not> atWait pc)"

definition childInv :: "'w world \<Rightarrow> bool" where
  "childInv w \<longleftrightarrow>
     (case mpCmd (wProc w) of
        None \<Rightarrow> wMan w = [] \<and> wTable w = [] \<and> \<not> mpManagingCh (wProc w)
      | Some i \<Rightarrow>
          if mpManagingCh (wProc w) then wMan w = [] \<and> list_all reaped (wTable w)
          else \<exists>pc ds c. oneChild w pc ds c)"

fun inKill :: "stop_pc \<Rightarrow> bool" where
  "inKill SIdle = False"
| "inKill (SDone b e) = False"
| "inKill pc = True"

fun waited :: "stop_pc \<Rightarrow> bool" where
  "waited (SDone b e) = b"
| "waited pc = False"

definition stopInv :: "'w world \<Rightarrow> bool" where
  "stopInv w \<longleftrightarrow>
     mpKillCh (wProc w) = mpStopped (wProc w) \<and>
     (wStop w = SIdle \<longleftrightarrow> \<not> mpStopped (wProc w)) \<and>
     (inKill (wStop w) \<longrightarrow> mpCmd (wProc w) \<noteq> None) \<and>
     (waited (wStop w) \<longrightarrow> mpManagingCh (wProc w))"

definition mpInv :: "'w world \<Rightarrow> bool" where
  "mpInv w \<longleftrightarrow>
     \<not> wPanic w \<and> wStarts w \<le> 1 \<and>
     (wStarts w = 0 \<or> mpOneShot (wProc w) \<longrightarrow> mpCmd (wProc w) = None) \<and> childInv w \<and> stopInv w"

lemma oneChild_frame [simp]:
  "oneChild (w\<lparr>wStop := x\<rparr>) = oneChild w"
  "oneChild (w\<lparr>wProc := (wProc w)\<lparr>mpKillCh := k, mpStopped := b\<rparr>\<rparr>) = oneChild w"
  by (intro ext, simp add: oneChild_def)+

lemma childInvI: "oneChild w pc ds c \<Longrightarrow> childInv w"
  by (auto simp: childInv_def split: option.splits) (auto simp: oneChild_def)

lemma Start_cases:
  assumes "Start E w = (w', e)"
  obtains "w' = w" "e \<noteq> None \<or> mpOneShot (wProc w)"
  | "\<not> mpKillCh (wProc w)" "\<not> mpOneShot (wProc w)"
    "w' = w\<lparr>wProc := (wProc w)\<lparr>mpCmd := Some (length (wTable w))\<rparr>, wTable := wTable w @ [Alive],
       wMan := wMan w @ [MEnter]\<rparr>" "e = None"
proof -
  have "(w' = w \<and> (e \<noteq> None \<or> mpOneShot (wProc w))) \<or>
    (\<not> mpKillCh (wProc w) \<and> \<not> mpOneShot (wProc w) \<and>
     w' = w\<lparr>wProc := (wProc w)\<lparr>mpCmd := Some (length (wTable w))\<rparr>, wTable := wTable w @ [Alive],
       wMan := wMan w @ [MEnter]\<rparr> \<and> e = None)"
    using assms by (auto simp: Start_def Let_def split: if_splits option.splits sum.splits dest: sym)
  then show thesis
    using that by blast
qed

lemma mpInv_man:
  assumes "mpInv w" "i < length (wMan w)"
  obtains pc ds c where "oneChild w pc ds c" "i = 0" "wMan w ! i = pc"
proof -
  have "childInv w"
    using assms(1) by (simp add: mpInv_def)
  then obtain pc ds c where "oneChild w pc ds c"
    using assms(2) by (auto simp: childInv_def split: option.splits if_splits)
  then show thesis
    using assms(2) that by (auto simp: oneChild_def)
qed

lemma mpInv_oneChild:
  assumes "mpInv w" "oneChild w pc ds c" "oneChild w' pc' ds' c'" "wPanic w' = wPanic w" "wStarts w' = wStarts w"
    "mpOneShot (wProc w') = mpOneShot (wProc w)" "mpKillCh (wProc w') = mpKillCh (wProc w)"
    "mpStopped (wProc w') = mpStopped (wProc w)" "wStop w' = wStop w"
  shows "mpInv w'"
proof -
  have "childInv w'"
    by (rule childInvI [OF assms(3)])
  then show ?thesis
    using assms by (auto simp: mpInv_def stopInv_def oneChild_def)
qed

lemma mpInv_closeManaging:
  assumes "mpInv w" "i < length (wMan w)" "\<not> atWait (wMan w ! i)"
  shows "mpInv (closeManaging i w)"
proof (rule mpInv_man [OF assms(1,2)])
  fix pc ds c
  assume "oneChild w pc ds c" "i = 0" "wMan w ! i = pc"
  then show ?thesis
    using assms(1,3) by (auto simp: oneChild_def mpInv_def closeManaging_def stopInv_def childInv_def Let_def)
qed

lemma mpInv_pc:
  assumes "mpInv w" "i < length (wMan w)" "\<not> atWait (wMan w ! i)" "\<not> atWait pc"
  shows "mpInv (w\<lparr>wMan := (wMan w)[i := pc]\<rparr>)"
proof (rule mpInv_man [OF assms(1,2)])
  fix pc' ds c
  assume one: "oneChild w pc' ds c" "i = 0" "wMan w ! i = pc'"
  then have "oneChild (w\<lparr>wMan := (wMan w)[i := pc]\<rparr>) pc ds c"
    using assms(3,4) by (auto simp: oneChild_def)
  then show ?thesis
    by (rule mpInv_oneChild [OF assms(1) one(1)]) simp_all
qed

lemma mpInv_manageEnter:
  assumes "mpInv w" "i < length (wMan w)" "wMan w ! i = MEnter" "manageEnter i w = Some w'"
  shows "mpInv w'"
proof (rule mpInv_man [OF assms(1,2)])
  fix pc ds c
  assume one: "oneChild w pc ds c" "i = 0" "wMan w ! i = pc"
  then have w': "w' = w\<lparr>wMan := [MWait (length ds)]\<rparr>"
    using assms(4) by (auto simp: oneChild_def manageEnter_def)
  then have "oneChild w' (MWait (length ds)) ds c"
    using one assms(3) by (auto simp: oneChild_def)
  then show ?thesis
    by (rule mpInv_oneChild [OF assms(1) one(1)]) (simp_all add: w')
qed

lemma mpInv_manageWait:
  assumes "mpInv w" "i < length (wMan w)" "wMan w ! i = MWait j" "manageWait i j w = Some w'"
  shows "mpInv w'"
proof (rule mpInv_man [OF assms(1,2)])
  fix pc ds c
  assume one: "oneChild w pc ds c" "i = 0" "wMan w ! i = pc"
  then have "j = length ds" "wTable w = ds @ [c]" "\<not> reaped c"
    using assms(3) by (auto simp: oneChild_def)
  then obtain e code where w': "w' = w\<lparr>wProc := (wProc w)\<lparr>mpLastWaitErr := e\<rparr>, wTable := ds @ [Reaped code],
      wMan := [MDecide]\<rparr>"
    using assms(4) one by (auto simp: manageWait_def oneChild_def split: child.splits)
  then have "oneChild w' MDecide ds (Reaped code)"
    using one by (auto simp: oneChild_def)
  then show ?thesis
    by (rule mpInv_oneChild [OF assms(1) one(1)]) (simp_all add: w')
qed

lemma mpInv_toTicker:
  assumes "mpInv w" "i < length (wMan w)" "\<not> atWait (wMan w ! i)"
  shows "mpInv (toTicker i w)"
proof (rule mpInv_man [OF assms(1,2)])
  fix pc ds c
  assume "oneChild w pc ds c" "i = 0" "wMan w ! i = pc"
  then have "cmdChild w = Some c" "reaped c"
    using assms(3) by (auto simp: oneChild_def cmdChild_def)
  then have "toTicker i w = w\<lparr>wMan := (wMan w)[i := MTicker]\<rparr>"
    by (cases c) (simp_all add: toTicker_def)
  then show ?thesis
    using mpInv_pc [OF assms] by simp
qed

lemma mpInv_manageDecide:
  assumes "mpInv w" "i < length (wMan w)" "wMan w ! i = MDecide"
  shows "mpInv (manageDecide i w)"
  using assms by (auto simp: manageDecide_def intro!: mpInv_closeManaging mpInv_toTicker split: option.splits)

lemma mpInv_manageTick:
  assumes "mpInv w" "i < length (wMan w)" "wMan w ! i = MTicker" "manageTick pick i w = Some w'"
  shows "mpInv w'"
  using goSelect_enabled [OF assms(4) [unfolded manageTick_def]] assms(1-3)
  by (auto intro!: mpInv_closeManaging mpInv_pc split: if_splits)

lemma mpInv_manageRestart:
  assumes "mpInv w" "i < length (wMan w)" "wMan w ! i = MRestart"
  shows "mpInv (manageRestart E i w)"
proof -
  obtain w' e where S: "Start E w = (w', e)"
    by (cases "Start E w")
  show ?thesis
  proof (cases e)
    case (Some x)
    have "w' = w"
      by (rule Start_cases [OF S]) (use Some in auto)
    then show ?thesis
      using S Some assms by (simp add: manageRestart_def mpInv_closeManaging)
  next
    case None
    show ?thesis
    proof (rule mpInv_man [OF assms(1,2)])
      fix pc ds c
      assume one: "oneChild w pc ds c" "i = 0" "wMan w ! i = pc"
      then have noshot: "\<not> mpOneShot (wProc w)"
        using assms(1) by (auto simp: mpInv_def oneChild_def)
      have w': "w' = w\<lparr>wProc := (wProc w)\<lparr>mpCmd := Some (length (wTable w))\<rparr>, wTable := wTable w @ [Alive],
           wMan := wMan w @ [MEnter]\<rparr>"
        by (rule Start_cases [OF S]) (use None noshot in simp_all)
      have "oneChild (manageRestart E i w) MEnter (ds @ [c]) Alive"
        using S None w' one assms(3) by (auto simp: oneChild_def manageRestart_def)
      then show ?thesis
        by (rule mpInv_oneChild [OF assms(1) one(1)]) (simp_all add: manageRestart_def S None w')
    qed
  qed
qed

lemma mpInv_stopBegin: "mpInv w \<Longrightarrow> mpInv (stopBegin w)"
  by (auto simp: mpInv_def stopInv_def childInv_def stopBegin_def Let_def split: option.splits if_splits)

lemma childInv_wStop [simp]: "childInv (w\<lparr>wStop := pc\<rparr>) = childInv w"
  by (cases "mpCmd (wProc w)") (simp_all add: childInv_def)

lemma mpInv_stop_pc:
  assumes "mpInv w" "inKill (wStop w)" "pc \<noteq> SIdle" "waited pc \<longrightarrow> mpManagingCh (wProc w)"
  shows "mpInv (w\<lparr>wStop := pc\<rparr>)"
proof -
  have "wStop w \<noteq> SIdle"
    using assms(2) by auto
  then show ?thesis
    using assms by (simp add: mpInv_def stopInv_def)
qed

lemma mpInv_kill:
  assumes "mpInv w"
  shows "wStop w = SSignal \<Longrightarrow> mpInv (killSignal e w)"
    and "wStop w = SGroup \<Longrightarrow> killGroup pick e w = Some w' \<Longrightarrow> mpInv w'"
    and "wStop w = SForce \<Longrightarrow> killForce pick e w = Some w' \<Longrightarrow> mpInv w'"
    and "wStop w = SWait fk \<Longrightarrow> stopWait errText fk w = Some w' \<Longrightarrow> mpInv w'"
proof -
  show "wStop w = SSignal \<Longrightarrow> mpInv (killSignal e w)"
    using assms by (auto simp: killSignal_def intro!: mpInv_stop_pc)
  show "wStop w = SGroup \<Longrightarrow> killGroup pick e w = Some w' \<Longrightarrow> mpInv w'"
    using assms by (auto simp: killGroup_def dest!: goSelect_enabled intro!: mpInv_stop_pc split: if_splits)
  show "wStop w = SForce \<Longrightarrow> killForce pick e w = Some w' \<Longrightarrow> mpInv w'"
    using assms by (auto simp: killForce_def dest!: goSelect_enabled intro!: mpInv_stop_pc split: if_splits)
  show "wStop w = SWait fk \<Longrightarrow> stopWait errText fk w = Some w' \<Longrightarrow> mpInv w'"
    using assms by (auto simp: stopWait_def intro!: mpInv_stop_pc split: if_splits)
qed

lemma mpInv_own:
  assumes "mp_own errText w w'" "mpInv w"
  shows "mpInv w'"
  using assms
  by cases (auto intro: mpInv_manageEnter mpInv_manageWait mpInv_manageDecide mpInv_manageTick mpInv_manageRestart mpInv_kill)

lemma mpInv_start:
  assumes "mpInv w" "wStarts w < 1" "Start E (w\<lparr>wStarts := Suc (wStarts w)\<rparr>) = (w', e)"
  shows "mpInv w'"
proof (rule Start_cases [OF assms(3)])
  assume "w' = w\<lparr>wStarts := Suc (wStarts w)\<rparr>"
  then show ?thesis
    using assms(1,2) by (auto simp: mpInv_def stopInv_def childInv_def)
next
  let ?w = "w\<lparr>wStarts := Suc (wStarts w)\<rparr>"
  assume new: "\<not> mpKillCh (wProc ?w)" "\<not> mpOneShot (wProc ?w)"
    "w' = ?w\<lparr>wProc := (wProc ?w)\<lparr>mpCmd := Some (length (wTable ?w))\<rparr>, wTable := wTable ?w @ [Alive],
       wMan := wMan ?w @ [MEnter]\<rparr>"
  have "mpCmd (wProc w) = None" "wMan w = []" "wTable w = []" "\<not> mpManagingCh (wProc w)"
    using assms(1,2) by (auto simp: mpInv_def childInv_def)
  then have "oneChild w' MEnter [] Alive"
    using new by (simp add: oneChild_def)
  then show ?thesis
    using new assms(1,2) by (auto simp: mpInv_def stopInv_def intro: childInvI)
qed

lemma mpInv_exit:
  assumes "mpInv w" "i < length (wTable w)" "wTable w ! i = Alive"
  shows "mpInv (w\<lparr>wTable := (wTable w)[i := Dead e x]\<rparr>)"
proof -
  have "\<not> list_all reaped (wTable w)" "wTable w \<noteq> []"
    using assms(2,3) by (auto simp: list_all_length)
  then obtain pc ds c where one: "oneChild w pc ds c"
    using assms(1) by (auto simp: mpInv_def childInv_def split: option.splits if_splits)
  then have "i = length ds"
    using assms(2,3) by (cases "i < length ds") (auto simp: oneChild_def list_all_length nth_append)
  then have "oneChild (w\<lparr>wTable := (wTable w)[i := Dead e x]\<rparr>) pc ds (Dead e x)"
    using one assms(3) by (auto simp: oneChild_def)
  then show ?thesis
    by (rule mpInv_oneChild [OF assms(1) one]) simp_all
qed

lemma mpInv_step:
  assumes "mpInv w" "mp_step errText 1 w w'"
  shows "mpInv w'"
  using assms(2,1)
  by cases (auto intro: mpInv_own mpInv_start mpInv_stopBegin mpInv_exit)

definition freshProcess :: "'w world \<Rightarrow> bool" where
  "freshProcess w \<longleftrightarrow> (\<exists>environ config. w = newWorld (NewManagedProcess environ config))"

lemma NewManagedProcess_fields [simp]:
  "mpCmd (NewManagedProcess environ config) = None"
  "mpStopped (NewManagedProcess environ config) = False"
  "mpManagingCh (NewManagedProcess environ config) = False"
  "mpKillCh (NewManagedProcess environ config) = False"
  by (simp_all add: NewManagedProcess_def Let_def)

lemma mpInv_fresh: "freshProcess w \<Longrightarrow> mpInv w"
  by (auto simp: freshProcess_def newWorld_def mpInv_def childInv_def stopInv_def)

interpretation managed: inductive_invariant freshProcess "mp_step errText 1" mpInv for errText
  by unfold_locales (auto intro: mpInv_fresh mpInv_step)

text \<open>After \<^verbatim>\<open>Stop\<close> has closed the kill channel nothing starts a child.\<close>

lemma Start_killed [simp]: "mpKillCh (wProc w) \<Longrightarrow> Start E w = (w, Some errAlreadyStopped)"
  by (simp add: Start_def)

lemma closeManaging_fields [simp]:
  "wTable (closeManaging i w) = wTable w"
  "wStop (closeManaging i w) = wStop w"
  "mpKillCh (wProc (closeManaging i w)) = mpKillCh (wProc w)"
  "wMan (closeManaging i w) = take i (wMan w) @ drop (Suc i) (wMan w)"
  by (simp_all add: closeManaging_def Let_def)

definition manRank :: "man_pc \<Rightarrow> nat" where
  "manRank pc = (case pc of MEnter \<Rightarrow> 5 | MWait j \<Rightarrow> 4 | MDecide \<Rightarrow> 3 | MTicker \<Rightarrow> 2 | MRestart \<Rightarrow> 1)"

definition stopRank :: "stop_pc \<Rightarrow> nat" where
  "stopRank pc =
     (case pc of SIdle \<Rightarrow> 5 | SSignal \<Rightarrow> 4 | SGroup \<Rightarrow> 3 | SForce \<Rightarrow> 2 | SWait b \<Rightarrow> 1 | SDone b e \<Rightarrow> 0)"

definition mpRank :: "'w world \<Rightarrow> nat" where
  "mpRank w = sum_list (map manRank (wMan w)) + stopRank (wStop w)"

lemma sum_list_update_less:
  fixes f :: "'a \<Rightarrow> nat"
  assumes "i < length xs" "f y < f (xs ! i)"
  shows "sum_list (map f (xs[i := y])) < sum_list (map f xs)"
  using assms by (induction xs arbitrary: i) (auto split: nat.splits)

lemma sum_list_remove_less:
  fixes f :: "'a \<Rightarrow> nat"
  assumes "i < length xs" "0 < f (xs ! i)"
  shows "sum_list (map f (take i xs @ drop (Suc i) xs)) < sum_list (map f xs)"
  using assms by (subst (2) id_take_nth_drop [OF assms(1)]) simp

lemma Alive_update: "Alive \<notin> set xs \<Longrightarrow> c \<noteq> Alive \<Longrightarrow> Alive \<notin> set (xs[j := c])"
  using set_update_subset_insert [of xs j c] by auto

lemma own_killed:
  assumes "mp_own errText w w'" "mpKillCh (wProc w)"
  shows "mpKillCh (wProc w') \<and> length (wTable w') = length (wTable w) \<and>
    (Alive \<notin> set (wTable w) \<longrightarrow> Alive \<notin> set (wTable w')) \<and> mpRank w' < mpRank w"
  using assms
proof cases
  case (own_enter i)
  then obtain j where "w' = w\<lparr>wMan := (wMan w)[i := MWait j]\<rparr>"
    by (auto simp: manageEnter_def split: option.splits)
  then show ?thesis
    using sum_list_update_less [of i "wMan w" manRank "MWait j"] assms(2) own_enter
    by (auto simp: mpRank_def manRank_def)
next
  case (own_wait i j)
  then show ?thesis
    using sum_list_update_less [of i "wMan w" manRank MDecide] assms(2)
    by (auto simp: manageWait_def mpRank_def manRank_def Alive_update split: if_splits child.splits)
next
  case (own_decide i)
  then show ?thesis
    using sum_list_remove_less [of i "wMan w" manRank] assms(2)
    by (auto simp: manageDecide_def mpRank_def manRank_def)
next
  case (own_tick i pick)
  then show ?thesis
    using sum_list_remove_less [of i "wMan w" manRank] sum_list_update_less [of i "wMan w" manRank MRestart] assms(2)
    by (auto simp: manageTick_def mpRank_def manRank_def dest!: goSelect_enabled)
next
  case (own_restart i E)
  then show ?thesis
    using sum_list_remove_less [of i "wMan w" manRank] assms(2)
    by (auto simp: manageRestart_def mpRank_def manRank_def)
qed (use assms(2) in \<open>auto simp: killSignal_def killGroup_def killForce_def stopWait_def mpRank_def stopRank_def
    dest!: goSelect_enabled split: if_splits\<close>)

lemma own_run_killed:
  assumes "(mp_own errText ^^ n) w w'" "mpKillCh (wProc w)"
  shows "mpKillCh (wProc w') \<and> (Alive \<notin> set (wTable w) \<longrightarrow> Alive \<notin> set (wTable w')) \<and> n + mpRank w' \<le> mpRank w"
  using assms
proof (induction n arbitrary: w')
  case (Suc n)
  then obtain v where "(mp_own errText ^^ n) w v" "mp_own errText v w'"
    by auto
  then show ?case
    using Suc.IH [of v] Suc.prems(2) own_killed [of errText v w'] by auto
qed simp

lemma mpInv_own_run: "(mp_own errText ^^ n) w w' \<Longrightarrow> mpInv w \<Longrightarrow> mpInv w'"
  by (induction n arbitrary: w') (auto intro: mpInv_own)

text \<open>A caller inside \<^verbatim>\<open>Stop\<close> is never stuck once the child is dead.\<close>

lemma stop_not_stuck:
  assumes "mpInv w" "inKill (wStop w)" "Alive \<notin> set (wTable w)"
  shows "\<exists>w'. mp_own errText w w'"
proof (cases "wStop w")
  case SSignal
  then show ?thesis
    by (blast intro: own_signal)
next
  case SGroup
  then have "killGroup 0 None w \<noteq> None"
    by (simp add: killGroup_def)
  then show ?thesis
    using SGroup by (blast intro: own_group)
next
  case SForce
  then have "killForce 0 None w \<noteq> None"
    by (simp add: killForce_def)
  then show ?thesis
    using SForce by (blast intro: own_force)
next
  case (SWait fk)
  show ?thesis
  proof (cases "mpManagingCh (wProc w)")
    case True
    then show ?thesis
      using own_stopped [OF SWait] by (auto simp: stopWait_def)
  next
    case False
    have "mpCmd (wProc w) \<noteq> None"
      using assms(1,2) by (simp add: mpInv_def stopInv_def)
    with False assms(1) obtain pc ds c where one: "oneChild w pc ds c"
      by (auto simp: mpInv_def childInv_def)
    have c: "c \<noteq> Alive"
      using assms(3) one by (auto simp: oneChild_def)
    show ?thesis
    proof (cases pc)
      case MEnter
      have "manageEnter 0 w \<noteq> None"
        using one by (auto simp: manageEnter_def oneChild_def)
      then show ?thesis
        using own_enter [of 0 w] one MEnter by (auto simp: oneChild_def)
    next
      case (MWait j)
      have "manageWait 0 j w \<noteq> None"
        using one MWait c by (auto simp: manageWait_def oneChild_def split: child.splits)
      then show ?thesis
        using own_wait [of 0 w j] one MWait by (auto simp: oneChild_def)
    next
      case MDecide
      then show ?thesis
        using own_decide [of 0 w] one by (auto simp: oneChild_def)
    next
      case MTicker
      have "manageTick 0 0 w \<noteq> None"
        by (simp add: manageTick_def)
      then show ?thesis
        using own_tick [of 0 w] one MTicker by (auto simp: oneChild_def)
    next
      case MRestart
      then show ?thesis
        using own_restart [of 0 w] one by (auto simp: oneChild_def)
    qed
  qed
qed (use assms(2) in auto)

section \<open>Properties\<close>

definition demoOS :: os_proc where
  "demoOS =
     \<lparr>osLstat = (\<lambda>_. None), osGetwd = Inr ''/'', osUserLookup = (\<lambda>_. Inr (''0'', ''0'')), osStdoutPipe = None,
      osStderrPipe = None, osStart = (\<lambda>_. None), osRun = (\<lambda>_. None)\<rparr>"

definition demoWorld :: "nat world" where
  "demoWorld = newWorld (NewManagedProcess [] demoConfig)"

definition demoStarted :: "nat world" where
  "demoStarted = fst (Start demoOS (demoWorld\<lparr>wStarts := 1\<rparr>))"

lemma demoWorld_fresh: "freshProcess demoWorld"
  by (auto simp: freshProcess_def demoWorld_def)

lemmas demo_defs =
  demoStarted_def demoWorld_def newWorld_def NewManagedProcess_def demoConfig_def demoOS_def Start_def
  validateCWD_def sysProcAttr_def

lemma demoStarted_fields:
  "wMan demoStarted = [MEnter]" "wTable demoStarted = [Alive]" "mpCmd (wProc demoStarted) = Some 0"
  "wStarts demoStarted = 1" "wStop demoStarted = SIdle" "mpStopped (wProc demoStarted) = False"
  "mpKillCh (wProc demoStarted) = False" "mpManagingCh (wProc demoStarted) = False"
  by (simp_all add: demo_defs Let_def)

lemma demoStarted_step: "mp_step errText 1 demoWorld demoStarted"
proof (rule step_start)
  show "wStarts demoWorld < 1"
    by (simp add: demo_defs Let_def)
  show "Start demoOS (demoWorld\<lparr>wStarts := Suc (wStarts demoWorld)\<rparr>) = (demoStarted, None)"
    by (simp add: demo_defs Let_def)
qed

lemma demoStarted_reach: "reach freshProcess (mp_step errText 1) demoStarted"
  by (rule reach_step [where step = "mp_step errText 1", OF reach_start demoStarted_step])
    (rule demoWorld_fresh)

text \<open>
  C20.  However calls of \<^verbatim>\<open>Stop\<close>, one \<^verbatim>\<open>Start\<close>, exits of the child, restarts and the stages of
  killing interleave, the managing channel is closed at most once (closing it again would panic), at
  most one goroutine manages the process and at most one child is alive.  When \<^verbatim>\<open>Stop\<close> has returned
  after its wait, nobody manages the process and no child is alive, and from the moment \<^verbatim>\<open>Stop\<close> has
  begun no step starts another child.
\<close>

theorem managed_process_safe:
  assumes "reach freshProcess (mp_step errText 1) w"
  shows "\<not> wPanic w \<and> length (wMan w) \<le> 1 \<and> length (filter (\<lambda>c. c = Alive) (wTable w)) \<le> 1 \<and>
    (waited (wStop w) \<longrightarrow> wMan w = [] \<and> Alive \<notin> set (wTable w)) \<and>
    (mpStopped (wProc w) \<and> mp_step errText 1 w w' \<longrightarrow> length (wTable w') = length (wTable w))"
proof -
  have inv: "mpInv w"
    using assms by (rule managed.reach_inv)
  have man: "length (wMan w) \<le> 1"
    using inv by (auto simp: mpInv_def childInv_def oneChild_def split: option.splits if_splits)
  have dead: "Alive \<notin> set xs" if "list_all reaped xs" for xs
    using that by (auto simp: list_all_iff)
  then have fin: "waited (wStop w) \<Longrightarrow> wMan w = [] \<and> Alive \<notin> set (wTable w)"
    using inv by (auto simp: mpInv_def childInv_def stopInv_def split: option.splits if_splits)
  have alive: "length (filter (\<lambda>c. c = Alive) (wTable w)) \<le> 1"
  proof -
    consider "Alive \<notin> set (wTable w)" | pc ds c where "oneChild w pc ds c"
      using inv dead by (auto simp: mpInv_def childInv_def split: option.splits if_splits)
    then show ?thesis
    proof cases
      case 1
      then have "filter (\<lambda>c. c = Alive) (wTable w) = []"
        by (auto simp: filter_empty_conv)
      then show ?thesis
        by simp
    next
      case (2 pc ds c)
      then have "filter (\<lambda>c. c = Alive) ds = []"
        using dead [of ds] by (auto simp: oneChild_def filter_empty_conv)
      then show ?thesis
        using 2 by (simp add: oneChild_def)
    qed
  qed
  have "length (wTable w') = length (wTable w)" if "mpStopped (wProc w)" "mp_step errText 1 w w'"
  proof -
    have k: "mpKillCh (wProc w)"
      using inv that(1) by (simp add: mpInv_def stopInv_def)
    from that(2) show ?thesis
      by cases (use that(1) k own_killed [OF _ k] in \<open>auto simp: stopBegin_def\<close>)
  qed
  then show ?thesis
    using inv man alive fin by (auto simp: mpInv_def)
qed

theorem managed_process_safe_witness:
  "\<not> wPanic demoStarted \<and> length (filter (\<lambda>c. c = Alive) (wTable demoStarted)) \<le> 1"
  using managed_process_safe [of "\<lambda>_. []", OF demoStarted_reach] by simp

text \<open>
  C21.  \<^verbatim>\<open>Stop\<close> returns.  Once \<^verbatim>\<open>Stop\<close> is under way and the child is dead, every run of the program's own
  goroutines has at most nine steps, whichever case each select takes and whatever the operating
  system answers, and it can only come to rest with \<^verbatim>\<open>Stop\<close> returned.
\<close>

theorem stop_returns:
  assumes "reach freshProcess (mp_step errText 1) w" "inKill (wStop w)" "Alive \<notin> set (wTable w)"
    and run: "(mp_own errText ^^ n) w w'"
  shows "n \<le> 9 \<and> ((\<nexists>w''. mp_own errText w' w'') \<longrightarrow> (\<exists>b e. wStop w' = SDone b e))"
proof -
  have inv: "mpInv w"
    using assms(1) by (rule managed.reach_inv)
  have "wStop w \<noteq> SIdle"
    using assms(2) by auto
  then have k: "mpKillCh (wProc w)"
    using inv by (simp add: mpInv_def stopInv_def)
  have "sum_list (map manRank (wMan w)) \<le> 5"
    using inv by (auto simp: mpInv_def childInv_def oneChild_def manRank_def split: option.splits if_splits man_pc.splits)
  moreover have "stopRank (wStop w) \<le> 4"
    using assms(2) by (cases "wStop w") (simp_all add: stopRank_def)
  ultimately have "n \<le> 9"
    using own_run_killed [OF run k] by (simp add: mpRank_def)
  have inv': "mpInv w'" and t: "Alive \<notin> set (wTable w')" and k': "mpKillCh (wProc w')"
    using mpInv_own_run [OF run inv] own_run_killed [OF run k] assms(3) by auto
  then have "wStop w' \<noteq> SIdle"
    by (simp add: mpInv_def stopInv_def)
  then have "\<exists>b e. wStop w' = SDone b e" if "\<nexists>w''. mp_own errText w' w''"
    using stop_not_stuck [OF inv' _ t] that by (cases "wStop w'") auto
  with \<open>n \<le> 9\<close> show ?thesis
    by blast
qed

definition demoStopping :: "nat world" where
  "demoStopping = stopBegin (demoStarted\<lparr>wTable := [Dead None 0]\<rparr>)"

lemma demoStopping_fields:
  "wStop demoStopping = SSignal" "wTable demoStopping = [Dead None 0]"
  by (simp_all add: demoStopping_def stopBegin_def demoStarted_fields)

lemma demoStopping_reach: "reach freshProcess (mp_step errText 1) demoStopping"
proof -
  have "mp_step errText 1 demoStarted (demoStarted\<lparr>wTable := (wTable demoStarted)[0 := Dead None 0]\<rparr>)"
    by (rule step_exit) (simp_all add: demoStarted_fields)
  then have "mp_step errText 1 demoStarted (demoStarted\<lparr>wTable := [Dead None 0]\<rparr>)"
    by (simp add: demoStarted_fields)
  then have "reach freshProcess (mp_step errText 1) (demoStarted\<lparr>wTable := [Dead None 0]\<rparr>)"
    by (rule reach_step [where step = "mp_step errText 1", OF demoStarted_reach])
  then show ?thesis
    unfolding demoStopping_def by (rule reach_step [where step = "mp_step errText 1", OF _ step_stop])
qed

theorem stop_returns_witness: "\<not> (\<nexists>w''. mp_own (\<lambda>_. []) demoStopping w'')"
  using stop_returns [where errText = "\<lambda>_. []" and n = 0 and w = demoStopping and w' = demoStopping, OF demoStopping_reach]
  by (auto simp: demoStopping_fields)

definition demoTwice :: "nat world" where
  "demoTwice = fst (Start demoOS (demoStarted\<lparr>wStarts := 2\<rparr>))"

lemma demoTwice_eq:
  "demoTwice = demoStarted\<lparr>wStarts := 2, wProc := (wProc demoStarted)\<lparr>mpCmd := Some 1\<rparr>, wTable := [Alive, Alive],
     wMan := [MEnter, MEnter]\<rparr>"
proof -
  have "mpCWD (wProc demoStarted) = []" "mpUsername (wProc demoStarted) = []" "mpOneShot (wProc demoStarted) = False"
    by (simp_all add: demo_defs Let_def)
  then show ?thesis
    by (simp add: demoTwice_def Start_def validateCWD_def sysProcAttr_def demoStarted_fields demoOS_def Let_def)
qed

text \<open>
  Starting a process twice can end in a panic: both managing goroutines close the managing
  channel.
\<close>

lemma double_start_panics: "\<exists>w :: nat world. reach freshProcess (mp_step errText 2) w \<and> wPanic w"
proof -
  let ?S = "mp_step errText 2"
  define p where "p = (wProc demoStarted)\<lparr>mpCmd := Some 1, mpKillCh := True, mpStopped := True\<rparr>"
  define B where "B pr t m = demoStarted\<lparr>wStarts := 2, wProc := pr, wTable := t, wMan := m, wStop := SSignal\<rparr>" for pr t m
  let ?q = "p\<lparr>mpLastWaitErr := None\<rparr>"
  let ?r = "[Alive, Reaped 0]"
  have p: "mpCmd p = Some 1" "mpKillCh p" "mpManagingCh p = False"
    by (simp_all add: p_def demoStarted_fields)
  have B: "wProc (B pr t m) = pr" "wTable (B pr t m) = t" "wMan (B pr t m) = m"
    "B pr t m\<lparr>wMan := m'\<rparr> = B pr t m'" "B pr t m\<lparr>wTable := t'\<rparr> = B pr t' m" "B pr t m\<lparr>wProc := pr'\<rparr> = B pr' t m"
    for pr t m pr' t' m'
    by (simp_all add: B_def)
  have 1: "?S demoWorld demoStarted"
    by (rule step_start [of _ _ demoOS _ None]) (simp_all add: demo_defs Let_def)
  have "Start demoOS (demoStarted\<lparr>wStarts := Suc (wStarts demoStarted)\<rparr>) =
      (demoTwice, snd (Start demoOS (demoStarted\<lparr>wStarts := 2\<rparr>)))"
    by (simp only: demoTwice_def demoStarted_fields prod.collapse Suc_1)
  then have 2: "?S demoStarted demoTwice"
    by (rule step_start [rotated]) (simp add: demoStarted_fields)
  have "stopBegin demoTwice = B p [Alive, Alive] [MEnter, MEnter]"
    by (simp add: stopBegin_def demoTwice_eq demoStarted_fields Let_def B_def p_def)
  then have 3: "?S demoTwice (B p [Alive, Alive] [MEnter, MEnter])"
    using step_stop [of errText 2 demoTwice] by simp
  have 4: "?S (B p [Alive, Alive] [MEnter, MEnter]) (B p [Alive, Dead None 0] [MEnter, MEnter])"
    using step_exit [of 1 "B p [Alive, Alive] [MEnter, MEnter]" errText 2 None 0] by (simp add: B)
  have 5: "?S (B p [Alive, Dead None 0] [MEnter, MEnter]) (B p [Alive, Dead None 0] [MWait 1, MEnter])"
    by (rule step_own, rule own_enter [of 0]) (simp_all add: B p manageEnter_def)
  have 6: "?S (B p [Alive, Dead None 0] [MWait 1, MEnter]) (B ?q ?r [MDecide, MEnter])"
    by (rule step_own, rule own_wait [of 0 _ 1]) (simp_all add: B p manageWait_def)
  have 7: "?S (B ?q ?r [MDecide, MEnter]) (B (?q\<lparr>mpManagingCh := True\<rparr>) ?r [MEnter])"
    using step_own [OF own_decide [of 0 "B ?q ?r [MDecide, MEnter]"]]
    by (simp add: B p manageDecide_def closeManaging_def)
  let ?p2 = "?q\<lparr>mpManagingCh := True\<rparr>"
  let ?p3 = "?p2\<lparr>mpLastWaitErr := Some (ErrText ''exec: Wait was already called'')\<rparr>"
  have 8: "?S (B ?p2 ?r [MEnter]) (B ?p2 ?r [MWait 1])"
    by (rule step_own, rule own_enter [of 0]) (simp_all add: B p manageEnter_def)
  have 9: "?S (B ?p2 ?r [MWait 1]) (B ?p3 ?r [MDecide])"
    by (rule step_own, rule own_wait [of 0 _ 1]) (simp_all add: B p manageWait_def)
  have 10: "?S (B ?p3 ?r [MDecide]) (B ?p3 ?r []\<lparr>wPanic := True\<rparr>)"
    using step_own [OF own_decide [of 0 "B ?p3 ?r [MDecide]"]]
    by (simp add: B p manageDecide_def closeManaging_def)
  have "?S\<^sup>*\<^sup>* demoWorld (B ?p3 ?r []\<lparr>wPanic := True\<rparr>)"
    by (rule converse_rtranclp_into_rtranclp, rule 1, rule converse_rtranclp_into_rtranclp, rule 2,
        rule converse_rtranclp_into_rtranclp, rule 3, rule converse_rtranclp_into_rtranclp, rule 4,
        rule converse_rtranclp_into_rtranclp, rule 5, rule converse_rtranclp_into_rtranclp, rule 6,
        rule converse_rtranclp_into_rtranclp, rule 7, rule converse_rtranclp_into_rtranclp, rule 8,
        rule converse_rtranclp_into_rtranclp, rule 9, rule r_into_rtranclp, rule 10)
  then have "reach freshProcess ?S (B ?p3 ?r []\<lparr>wPanic := True\<rparr>)"
    by (rule reach_rtranclp) (simp add: reach_start demoWorld_fresh)
  moreover have "wPanic (B ?p3 ?r []\<lparr>wPanic := True\<rparr>)"
    by simp
  ultimately show ?thesis
    by blast
qed

section \<open>Output\<close>

text \<open>Every line that is read before the first failure is logged, in order, and written with a newline.\<close>

lemma logPipe_lines:
  "logPipe False True isErr False (map (\<lambda>l. (False, Inr l, None, None)) ls @ [(False, Inl EOF, None, None)]) =
    concat (map (\<lambda>l. [Wrote l, Wrote [CHR 0x0A]]) ls)"
  by (induction ls) simp_all

end
