(* ===== verification/ProcessManager.thy ===== *)
theory ProcessManager
  imports ManagedProcess GoErrors
begin

text \<open>
  The process manager, \<^verbatim>\<open>src/pexec/process_manager.go\<close>: a map from identifiers to processes that is
  started and stopped as a whole.

  A \<^verbatim>\<open>ManagedProcess\<close> is an interface value; the manager only calls its methods, whose answers are the
  fields of \<open>proc_ops\<close> (a fresh record answers each call of the manager).  The calls the manager makes
  are recorded in \<open>pmTrace\<close>, which the program does not have.  A \<^verbatim>\<open>ProcessManager\<close> is an interface
  too: the two merge functions work on any two of them, given as records \<open>pm_iface\<close> of their methods;
  the laws they need are the locale \<open>manager_contract\<close>, which the manager and the no-op manager keep.
\<close>

section \<open>The manager\<close>

record 'p proc_ops =
  pID :: "'p \<Rightarrow> string"
  pStart :: "'p \<Rightarrow> err option"
  pStop :: "'p \<Rightarrow> err option"

datatype 'p proc_event = EvStart 'p | EvStop 'p

record 'p process_manager =
  pmProcs :: "(string, 'p) gomap"
  pmStarted :: bool
  pmStopped :: bool
  pmTrace :: "'p proc_event list"

definition NewProcessManager :: "'p process_manager" where
  "NewProcessManager = \<lparr>pmProcs = [], pmStarted = False, pmStopped = False, pmTrace = []\<rparr>"

definition ProcessIDs :: "'p process_manager \<Rightarrow> string list" where
  "ProcessIDs pm = map fst (pmProcs pm)"

definition ProcessByID :: "'p process_manager \<Rightarrow> string \<Rightarrow> 'p option" where
  "ProcessByID pm i = (if pmStopped pm then None else mget (pmProcs pm) i)"

definition RemoveProcessByID :: "'p process_manager \<Rightarrow> string \<Rightarrow> 'p process_manager \<times> 'p option" where
  "RemoveProcessByID pm i =
     (if pmStopped pm then (pm, None)
      else case mget (pmProcs pm) i of
        None \<Rightarrow> (pm, None)
      | Some proc \<Rightarrow> (pm\<lparr>pmProcs := mdel i (pmProcs pm)\<rparr>, Some proc))"

fun stopAll :: "err_env \<Rightarrow> 'p proc_ops \<Rightarrow> 'p list \<Rightarrow> err option \<Rightarrow> 'p proc_event list \<times> err option" where
  "stopAll E P [] e = ([], e)"
| "stopAll E P (p # ps) e =
     (case stopAll E P ps (merrCombine E [e, pStop P p]) of (tr, e') \<Rightarrow> (EvStop p # tr, e'))"

definition stopManager :: "err_env \<Rightarrow> 'p proc_ops \<Rightarrow> 'p process_manager \<Rightarrow> 'p process_manager \<times> err option" where
  "stopManager E P pm =
     (let pm = pm\<lparr>pmStopped := True\<rparr>
      in case stopAll E P (map snd (pmProcs pm)) None of
           (tr, e) \<Rightarrow> (pm\<lparr>pmProcs := [], pmTrace := pmTrace pm @ tr\<rparr>, e))"

fun startAll :: "'p proc_ops \<Rightarrow> 'p list \<Rightarrow> 'p proc_event list \<times> err option" where
  "startAll P [] = ([], None)"
| "startAll P (p # ps) =
     (case pStart P p of
        Some e \<Rightarrow> ([EvStart p], Some e)
      | None \<Rightarrow> (case startAll P ps of (tr, e) \<Rightarrow> (EvStart p # tr, e)))"

definition startManager :: "err_env \<Rightarrow> 'p proc_ops \<Rightarrow> 'p process_manager \<Rightarrow> 'p process_manager \<times> err option" where
  "startManager E P pm =
     (if pmStopped pm then (pm, Some errAlreadyStopped)
      else if pmStarted pm then (pm, None)
      else case startAll P (map snd (pmProcs pm)) of
        (tr, Some e) \<Rightarrow>
          (case stopManager E P (pm\<lparr>pmTrace := pmTrace pm @ tr\<rparr>) of
             (pm', e') \<Rightarrow> (pm', merrCombine E [Some e, e']))
      | (tr, None) \<Rightarrow> (pm\<lparr>pmTrace := pmTrace pm @ tr, pmStarted := True\<rparr>, None))"

definition AddProcess ::
  "'p proc_ops \<Rightarrow> 'p process_manager \<Rightarrow> 'p \<Rightarrow> bool \<Rightarrow> 'p process_manager \<times> (err + 'p option)" where
  "AddProcess P pm proc start =
     (if pmStopped pm then (pm, Inl errAlreadyStopped)
      else
        let replaced = mget (pmProcs pm) (pID P proc) in
        if pmStarted pm \<and> start then
          let pm = pm\<lparr>pmTrace := pmTrace pm @ [EvStart proc]\<rparr> in
          (case pStart P proc of
             Some e \<Rightarrow> (pm, Inl e)
           | None \<Rightarrow> (pm\<lparr>pmProcs := mput (pID P proc) proc (pmProcs pm)\<rparr>, Inr replaced))
        else (pm\<lparr>pmProcs := mput (pID P proc) proc (pmProcs pm)\<rparr>, Inr replaced))"

text \<open>\<open>mk\<close> is \<^verbatim>\<open>NewManagedProcess\<close>, as an interface value.\<close>

definition AddProcessFromConfig ::
  "('w process_config \<Rightarrow> 'p) \<Rightarrow> 'p proc_ops \<Rightarrow> 'p process_manager \<Rightarrow> 'w process_config \<Rightarrow>
    'p process_manager \<times> (err + 'p option)" where
  "AddProcessFromConfig mk P pm config =
     (if pmStopped pm then (pm, Inl errAlreadyStopped) else AddProcess P pm (mk config) True)"

definition StopProcesses :: "err_env \<Rightarrow> 'p proc_ops \<Rightarrow> 'p process_manager \<Rightarrow> 'p process_manager \<times> err option" where
  "StopProcesses E P pm = (if pmStopped pm then (pm, None) else stopManager E P pm)"

definition CloneManager :: "'p process_manager \<Rightarrow> 'p process_manager" where
  "CloneManager pm =
     \<lparr>pmProcs = fold (\<lambda>(k, v) m. mput k v m) (pmProcs pm) [], pmStarted = pmStarted pm,
      pmStopped = pmStopped pm, pmTrace = []\<rparr>"

section \<open>Merging managers\<close>

record ('m, 'p) pm_iface =
  ifIDs :: "'m \<Rightarrow> string list"
  ifByID :: "'m \<Rightarrow> string \<Rightarrow> 'p option"
  ifRemove :: "'m \<Rightarrow> string \<Rightarrow> 'm \<times> 'p option"
  ifAdd :: "'m \<Rightarrow> 'p \<Rightarrow> bool \<Rightarrow> 'm \<times> (err + 'p option)"

fun mergeAddLoop ::
  "('m, 'p) pm_iface \<Rightarrow> ('n, 'p) pm_iface \<Rightarrow> 'n \<Rightarrow> string list \<Rightarrow> 'm \<Rightarrow> 'p list \<Rightarrow> 'm \<times> (err + 'p list)" where
  "mergeAddLoop D S src [] dst replacements = (dst, Inr replacements)"
| "mergeAddLoop D S src (i # ids) dst replacements =
     (case ifByID S src i of
        None \<Rightarrow> mergeAddLoop D S src ids dst replacements
      | Some proc \<Rightarrow>
          (case ifAdd D dst proc False of
             (dst', Inl e) \<Rightarrow> (dst', Inl e)
           | (dst', Inr replaced) \<Rightarrow>
               mergeAddLoop D S src ids dst'
                 (case replaced of None \<Rightarrow> replacements | Some r \<Rightarrow> replacements @ [r])))"

definition MergeAddProcessManagers ::
  "('m, 'p) pm_iface \<Rightarrow> ('n, 'p) pm_iface \<Rightarrow> 'm \<Rightarrow> 'n \<Rightarrow> 'm \<times> (err + 'p list)" where
  "MergeAddProcessManagers D S dst src = mergeAddLoop D S src (ifIDs S src) dst []"

fun mergeRemoveLoop :: "('m, 'p) pm_iface \<Rightarrow> string list \<Rightarrow> 'm \<Rightarrow> 'p list \<Rightarrow> 'm \<times> 'p list" where
  "mergeRemoveLoop D [] dst removed = (dst, removed)"
| "mergeRemoveLoop D (i # ids) dst removed =
     (case ifRemove D dst i of
        (dst', None) \<Rightarrow> mergeRemoveLoop D ids dst' removed
      | (dst', Some proc) \<Rightarrow> mergeRemoveLoop D ids dst' (removed @ [proc]))"

definition MergeRemoveProcessManagers ::
  "('m, 'p) pm_iface \<Rightarrow> ('n, 'p) pm_iface \<Rightarrow> 'm \<Rightarrow> 'n \<Rightarrow> 'm \<times> 'p list" where
  "MergeRemoveProcessManagers D S dst src = mergeRemoveLoop D (ifIDs S src) dst []"

definition processManagerIface :: "'p proc_ops \<Rightarrow> ('p process_manager, 'p) pm_iface" where
  "processManagerIface P =
     \<lparr>ifIDs = ProcessIDs, ifByID = ProcessByID, ifRemove = RemoveProcessByID, ifAdd = AddProcess P\<rparr>"

definition NoopProcessManager :: "(unit, 'p) pm_iface" where
  "NoopProcessManager =
     \<lparr>ifIDs = (\<lambda>_. []), ifByID = (\<lambda>_ _. None), ifRemove = (\<lambda>m _. (m, None)),
      ifAdd = (\<lambda>m _ _. (m, Inl (ErrText ''unsupported'')))\<rparr>"

text \<open>
  The laws of the interface: a lookup finds what was added and no longer what was removed, other
  identifiers are left alone, an addition reports what was there, and a process is found under the
  identifier it has.
\<close>

locale manager_contract =
  fixes D :: "('m, 'p) pm_iface" and inv :: "'m \<Rightarrow> bool" and pid :: "'p \<Rightarrow> string"
  assumes add_ok: "inv m \<Longrightarrow> ifAdd D m p st = (m', Inr r) \<Longrightarrow>
      inv m' \<and> r = ifByID D m (pid p) \<and> ifByID D m' = (ifByID D m)(pid p \<mapsto> p)"
    and remove_ok: "inv m \<Longrightarrow> ifRemove D m i = (m', r) \<Longrightarrow>
      inv m' \<and> r = ifByID D m i \<and> ifByID D m' = (ifByID D m)(i := None)"
    and id_ok: "inv m \<Longrightarrow> ifByID D m i = Some p \<Longrightarrow> pid p = i"
    and ids_ok: "inv m \<Longrightarrow> ifByID D m i \<noteq> None \<Longrightarrow> i \<in> set (ifIDs D m)"
begin

lemma merge_remove:
  assumes "inv m" "mergeRemoveLoop D ids m acc = (m', removed)"
  shows "inv m' \<and> ifByID D m' = (\<lambda>i. if i \<in> set ids then None else ifByID D m i) \<and>
    set removed = set acc \<union> {p. \<exists>i \<in> set ids. ifByID D m i = Some p}"
  using assms
proof (induction ids arbitrary: m acc)
  case (Cons i ids)
  obtain m1 r where R: "ifRemove D m i = (m1, r)"
    by (cases "ifRemove D m i")
  note ok = remove_ok [OF Cons.prems(1) R]
  then have "mergeRemoveLoop D ids m1 (case r of None \<Rightarrow> acc | Some p \<Rightarrow> acc @ [p]) = (m', removed)"
    using Cons.prems(2) R by (auto split: option.splits)
  then have IH: "inv m' \<and> ifByID D m' = (\<lambda>i. if i \<in> set ids then None else ifByID D m1 i) \<and>
      set removed = set (case r of None \<Rightarrow> acc | Some p \<Rightarrow> acc @ [p]) \<union> {p. \<exists>i \<in> set ids. ifByID D m1 i = Some p}"
    using Cons.IH [of m1] ok by blast
  have "ifByID D m' = (\<lambda>j. if j \<in> set (i # ids) then None else ifByID D m j)"
    using IH ok by (auto simp: fun_eq_iff)
  moreover have "set removed = set acc \<union> {p. \<exists>j \<in> set (i # ids). ifByID D m j = Some p}"
    using IH ok by (auto split: option.splits if_splits; metis option.distinct(1) option.inject)
  ultimately show ?case
    using IH by blast
qed simp

end

text \<open>A merge of a source into a destination, each behind its own implementation of the interface.\<close>

locale manager_pair = dst: manager_contract D inv pid + src: manager_contract S sinv pid
  for D :: "('m, 'p) pm_iface" and inv :: "'m \<Rightarrow> bool" and pid :: "'p \<Rightarrow> string"
    and S :: "('n, 'p) pm_iface" and sinv :: "'n \<Rightarrow> bool"
begin

lemma merge_add_loop:
  assumes "inv m" "sinv s" "distinct ids" "mergeAddLoop D S s ids m acc = (m', Inr reps)"
  shows "inv m' \<and>
    ifByID D m' = (\<lambda>i. if i \<in> set ids \<and> ifByID S s i \<noteq> None then ifByID S s i else ifByID D m i) \<and>
    set reps = set acc \<union> {p. \<exists>i \<in> set ids. ifByID S s i \<noteq> None \<and> ifByID D m i = Some p}"
  using assms(1,3,4)
proof (induction ids arbitrary: m acc)
  case (Cons i ids)
  show ?case
  proof (cases "ifByID S s i")
    case None
    then have IH: "inv m' \<and>
        ifByID D m' = (\<lambda>i. if i \<in> set ids \<and> ifByID S s i \<noteq> None then ifByID S s i else ifByID D m i) \<and>
        set reps = set acc \<union> {p. \<exists>i \<in> set ids. ifByID S s i \<noteq> None \<and> ifByID D m i = Some p}"
      using Cons.IH [of m acc] Cons.prems by simp
    then show ?thesis
      using None by (auto simp: fun_eq_iff)
  next
    case (Some p)
    obtain m1 r where A: "ifAdd D m p False = (m1, Inr r)"
      using Cons.prems(3) Some by (auto split: prod.splits sum.splits)
    have pid: "pid p = i"
      using src.id_ok [OF assms(2) Some] .
    note ok = dst.add_ok [OF Cons.prems(1) A, unfolded pid]
    have IH: "inv m' \<and>
        ifByID D m' = (\<lambda>i. if i \<in> set ids \<and> ifByID S s i \<noteq> None then ifByID S s i else ifByID D m1 i) \<and>
        set reps = set (case r of None \<Rightarrow> acc | Some x \<Rightarrow> acc @ [x]) \<union>
          {p. \<exists>i \<in> set ids. ifByID S s i \<noteq> None \<and> ifByID D m1 i = Some p}"
      using Cons.IH [of m1 "case r of None \<Rightarrow> acc | Some x \<Rightarrow> acc @ [x]"] Cons.prems Some A ok by simp
    have "ifByID D m' = (\<lambda>j. if j \<in> set (i # ids) \<and> ifByID S s j \<noteq> None then ifByID S s j else ifByID D m j)"
      using IH ok Some Cons.prems(2) by (auto simp: fun_eq_iff)
    moreover have "{p. \<exists>j \<in> set ids. ifByID S s j \<noteq> None \<and> ifByID D m1 j = Some p} =
        {p. \<exists>j \<in> set ids. ifByID S s j \<noteq> None \<and> ifByID D m j = Some p}"
      using ok Cons.prems(2) by (auto split: if_splits)
    then have "set reps = set acc \<union> {p. \<exists>j \<in> set (i # ids). ifByID S s j \<noteq> None \<and> ifByID D m j = Some p}"
      using IH ok Some by (auto split: option.splits)
    ultimately show ?thesis
      using IH by blast
  qed
qed simp

end

section \<open>The manager keeps the contract\<close>

definition pmInv :: "('p \<Rightarrow> string) \<Rightarrow> 'p process_manager \<Rightarrow> bool" where
  "pmInv pid pm \<longleftrightarrow> wfmap (pmProcs pm) \<and> (\<forall>(i, p) \<in> set (pmProcs pm). pid p = i) \<and> (pmStopped pm \<longrightarrow> pmProcs pm = [])"

lemma pmInv_trace [simp]: "pmInv pid (pm\<lparr>pmTrace := tr\<rparr>) = pmInv pid pm"
  by (simp add: pmInv_def)

lemma AddProcess_ok:
  assumes "pmInv (pID P) pm" "AddProcess P pm p st = (pm', Inr r)"
  shows "pmInv (pID P) pm' \<and> r = ProcessByID pm (pID P p) \<and> ProcessByID pm' = (ProcessByID pm)(pID P p \<mapsto> p)"
proof -
  have pm': "\<not> pmStopped pm" "r = mget (pmProcs pm) (pID P p)" "\<not> pmStopped pm'"
    "pmProcs pm' = mput (pID P p) p (pmProcs pm)"
    using assms(2) by (auto simp: AddProcess_def Let_def split: if_splits option.splits)
  then have "pmInv (pID P) pm'"
    using assms(1) set_mput [of "pID P p" p "pmProcs pm"] by (auto simp: pmInv_def)
  then show ?thesis
    using pm' by (auto simp: ProcessByID_def fun_eq_iff)
qed

lemma RemoveProcessByID_cases:
  assumes "RemoveProcessByID pm i = (pm', r)"
  obtains "pmStopped pm \<or> mget (pmProcs pm) i = None" "pm' = pm" "r = None"
    | p where "\<not> pmStopped pm" "mget (pmProcs pm) i = Some p" "pm' = pm\<lparr>pmProcs := mdel i (pmProcs pm)\<rparr>" "r = Some p"
  using assms by (auto simp: RemoveProcessByID_def split: if_splits option.splits)

lemma RemoveProcessByID_ok:
  assumes "pmInv pid pm" "RemoveProcessByID pm i = (pm', r)"
  shows "pmInv pid pm' \<and> r = ProcessByID pm i \<and> ProcessByID pm' = (ProcessByID pm)(i := None)"
  by (rule RemoveProcessByID_cases [OF assms(2)])
    (use assms(1) set_mdel [of i "pmProcs pm"] in \<open>auto simp: pmInv_def ProcessByID_def fun_eq_iff\<close>)

interpretation pmgr: manager_contract "processManagerIface P" "pmInv (pID P)" "pID P" for P
proof unfold_locales
  fix m m' p st r
  assume "pmInv (pID P) m" "ifAdd (processManagerIface P) m p st = (m', Inr r)"
  then show "pmInv (pID P) m' \<and> r = ifByID (processManagerIface P) m (pID P p) \<and>
      ifByID (processManagerIface P) m' = (ifByID (processManagerIface P) m)(pID P p \<mapsto> p)"
    using AddProcess_ok [of P m p st m' r] by (simp add: processManagerIface_def)
next
  fix m i m' r
  assume "pmInv (pID P) m" "ifRemove (processManagerIface P) m i = (m', r)"
  then show "pmInv (pID P) m' \<and> r = ifByID (processManagerIface P) m i \<and>
      ifByID (processManagerIface P) m' = (ifByID (processManagerIface P) m)(i := None)"
    using RemoveProcessByID_ok [of "pID P" m i m' r] by (simp add: processManagerIface_def)
next
  fix m i p
  assume "pmInv (pID P) m" "ifByID (processManagerIface P) m i = Some p"
  then show "pID P p = i"
    by (auto simp: processManagerIface_def ProcessByID_def pmInv_def dest: map_of_SomeD split: if_splits)
next
  fix m i
  assume "ifByID (processManagerIface P) m i \<noteq> None"
  then show "i \<in> set (ifIDs (processManagerIface P) m)"
    by (auto simp: processManagerIface_def ProcessByID_def ProcessIDs_def image_iff dest!: map_of_SomeD split: if_splits)
       force
qed

interpretation noopmgr: manager_contract "NoopProcessManager :: (unit, 'p) pm_iface" "\<lambda>_. True" pid for pid :: "'p \<Rightarrow> string"
  by unfold_locales (auto simp: NoopProcessManager_def)

interpretation pmerge: manager_pair "processManagerIface P" "pmInv (pID P)" "pID P" "processManagerIface P" "pmInv (pID P)" for P ..

section \<open>Runs of the manager\<close>

text \<open>
  A client's calls.  Each carries the answers of the processes; the second component of the state
  collects the processes handed back to the client: removed, replaced, or not taken because their
  start failed.
\<close>

datatype 'p pm_call =
    CallStart "'p proc_ops" err_env
  | CallStop "'p proc_ops" err_env
  | CallAdd "'p proc_ops" 'p bool
  | CallRemove string

fun pmCall :: "'p pm_call \<Rightarrow> 'p process_manager \<times> 'p list \<Rightarrow> 'p process_manager \<times> 'p list" where
  "pmCall (CallStart P E) (pm, handed) = (fst (startManager E P pm), handed)"
| "pmCall (CallStop P E) (pm, handed) = (fst (StopProcesses E P pm), handed)"
| "pmCall (CallAdd P p st) (pm, handed) =
     (case AddProcess P pm p st of
        (pm', Inl e) \<Rightarrow> (pm', p # handed)
      | (pm', Inr r) \<Rightarrow> (pm', (case r of None \<Rightarrow> handed | Some q \<Rightarrow> q # handed)))"
| "pmCall (CallRemove i) (pm, handed) =
     (case RemoveProcessByID pm i of
        (pm', None) \<Rightarrow> (pm', handed)
      | (pm', Some p) \<Rightarrow> (pm', p # handed))"

definition pmRun :: "'p pm_call list \<Rightarrow> 'p process_manager \<times> 'p list \<Rightarrow> 'p process_manager \<times> 'p list" where
  "pmRun cs s = fold pmCall cs s"

text \<open>Every process the manager started is still managed, was stopped by it, or was handed back.\<close>

definition accounted :: "'p process_manager \<Rightarrow> 'p list \<Rightarrow> bool" where
  "accounted pm handed \<longleftrightarrow>
     (\<forall>p. EvStart p \<in> set (pmTrace pm) \<longrightarrow>
        p \<in> snd ` set (pmProcs pm) \<or> EvStop p \<in> set (pmTrace pm) \<or> p \<in> set handed) \<and>
     (pmStopped pm \<longrightarrow> pmProcs pm = []) \<and> wfmap (pmProcs pm)"

lemma stopAll_trace: "fst (stopAll E P ps e) = map EvStop ps"
  by (induction ps arbitrary: e) (auto split: prod.splits simp: prod_eq_iff)

lemma startAll_trace: "set (fst (startAll P ps)) \<subseteq> EvStart ` set ps"
  by (induction ps) (auto split: option.splits prod.splits)

lemma stopManager_simps:
  "pmTrace (fst (stopManager E P pm)) = pmTrace pm @ map EvStop (map snd (pmProcs pm))"
  "pmProcs (fst (stopManager E P pm)) = []"
  "pmStopped (fst (stopManager E P pm))"
  using stopAll_trace [of E P "map snd (pmProcs pm)" None]
  by (auto simp: stopManager_def Let_def split: prod.splits)

lemma accounted_stopManager: "accounted pm handed \<Longrightarrow> accounted (fst (stopManager E P pm)) handed"
  unfolding accounted_def by (auto simp: stopManager_simps image_iff)

lemma accounted_trace:
  assumes "accounted pm handed" "set tr \<subseteq> EvStart ` snd ` set (pmProcs pm)"
  shows "accounted (pm\<lparr>pmTrace := pmTrace pm @ tr\<rparr>) handed"
  using assms unfolding accounted_def by auto

lemma accounted_startManager:
  assumes "accounted pm handed"
  shows "accounted (fst (startManager E P pm)) handed"
proof -
  obtain tr r where S: "startAll P (map snd (pmProcs pm)) = (tr, r)"
    by (cases "startAll P (map snd (pmProcs pm))")
  then have "set tr \<subseteq> EvStart ` snd ` set (pmProcs pm)"
    using startAll_trace [of P "map snd (pmProcs pm)"] by simp
  note tr = accounted_trace [OF assms this]
  then have "accounted (pm\<lparr>pmTrace := pmTrace pm @ tr, pmStarted := True\<rparr>) handed"
    by (simp add: accounted_def)
  then show ?thesis
    using assms S accounted_stopManager [OF tr]
    by (auto simp: startManager_def split: option.splits prod.splits) (metis fst_conv)
qed

lemma snd_mput:
  "wfmap m \<Longrightarrow> p \<in> snd ` set m \<Longrightarrow> p \<in> snd ` set (mput k v m) \<or> mget m k = Some p"
  by (induction m) (auto split: if_splits)

lemma snd_mput_new: "v \<in> snd ` set (mput k v m)"
  by (induction m) auto

lemma snd_mdel:
  assumes "wfmap m" "p \<in> snd ` set m"
  shows "p \<in> snd ` set (mdel k m) \<or> mget m k = Some p"
proof -
  obtain i where i: "(i, p) \<in> set m"
    using assms(2) by auto
  show ?thesis
  proof (cases "i = k")
    case True
    then show ?thesis
      using assms(1) i by simp
  next
    case False
    then have "(i, p) \<in> set (mdel k m)"
      using i by (simp add: AList.delete_eq)
    then show ?thesis
      by force
  qed
qed

lemma accounted_AddProcess:
  assumes "accounted pm handed" "AddProcess P pm p st = (pm', res)"
  shows "accounted pm' (case res of Inl e \<Rightarrow> p # handed | Inr None \<Rightarrow> handed | Inr (Some q) \<Rightarrow> q # handed)"
proof (cases res)
  case (Inl e)
  then have "pm' = pm \<or> pm' = pm\<lparr>pmTrace := pmTrace pm @ [EvStart p]\<rparr>"
    using assms(2) by (auto simp: AddProcess_def Let_def split: if_splits option.splits)
  then show ?thesis
    using assms(1) Inl by (auto simp: accounted_def)
next
  case (Inr r)
  then have pm': "\<not> pmStopped pm" "r = mget (pmProcs pm) (pID P p)" "\<not> pmStopped pm'"
    "pmProcs pm' = mput (pID P p) p (pmProcs pm)" "set (pmTrace pm') \<subseteq> insert (EvStart p) (set (pmTrace pm))"
    "set (pmTrace pm) \<subseteq> set (pmTrace pm')"
    using assms(2) by (auto simp: AddProcess_def Let_def split: if_splits option.splits)
  have "q \<in> snd ` set (pmProcs pm') \<or> EvStop q \<in> set (pmTrace pm') \<or> q \<in> set handed \<or> r = Some q"
    if "EvStart q \<in> set (pmTrace pm')" for q
  proof (cases "q = p")
    case True
    then show ?thesis
      using snd_mput_new [of p "pID P p" "pmProcs pm"] pm'(4) by simp
  next
    case False
    then have "EvStart q \<in> set (pmTrace pm)"
      using that pm'(5) by auto
    then show ?thesis
      using assms(1) snd_mput [of "pmProcs pm" q "pID P p" p] pm'(2,4,6) by (auto simp: accounted_def)
  qed
  then have "accounted pm' (case r of None \<Rightarrow> handed | Some q \<Rightarrow> q # handed)"
    using assms(1) pm'(1,3,4) unfolding accounted_def by (cases r) auto
  then show ?thesis
    using Inr by (cases r) simp_all
qed

lemma accounted_Remove:
  assumes "accounted pm handed" "RemoveProcessByID pm i = (pm', r)"
  shows "accounted pm' (case r of None \<Rightarrow> handed | Some q \<Rightarrow> q # handed)"
proof (rule RemoveProcessByID_cases [OF assms(2)])
  assume "pm' = pm" "r = None"
  then show ?thesis
    using assms(1) by simp
next
  fix p
  assume rem: "\<not> pmStopped pm" "mget (pmProcs pm) i = Some p" "pm' = pm\<lparr>pmProcs := mdel i (pmProcs pm)\<rparr>" "r = Some p"
  have "q \<in> snd ` set (mdel i (pmProcs pm)) \<or> q = p" if "q \<in> snd ` set (pmProcs pm)" for q
    using snd_mdel [OF _ that, of i] assms(1) rem(2) by (auto simp: accounted_def)
  then have "\<forall>q. EvStart q \<in> set (pmTrace pm) \<longrightarrow>
      q \<in> snd ` set (mdel i (pmProcs pm)) \<or> EvStop q \<in> set (pmTrace pm) \<or> q \<in> set (p # handed)"
    using assms(1) unfolding accounted_def by (metis list.set_intros)
  then show ?thesis
    using assms(1) rem by (simp add: accounted_def)
qed

lemma accounted_call:
  assumes "accounted pm handed"
  shows "case pmCall c (pm, handed) of (pm', handed') \<Rightarrow> accounted pm' handed'"
proof (cases c)
  case (CallAdd P p st)
  then show ?thesis
    using accounted_AddProcess [OF assms, of P p st]
    by (auto split: prod.splits sum.splits option.splits)
next
  case (CallRemove i)
  then show ?thesis
    using accounted_Remove [OF assms, of i] by (auto split: prod.splits option.splits)
qed (use assms accounted_startManager [OF assms] accounted_stopManager [OF assms] in \<open>auto simp: StopProcesses_def\<close>)

lemma accounted_run:
  assumes "accounted pm handed"
  shows "case pmRun cs (pm, handed) of (pm', handed') \<Rightarrow> accounted pm' handed'"
  using assms
proof (induction cs arbitrary: pm handed)
  case (Cons c cs)
  then show ?case
    using accounted_call [OF Cons.prems, of c] by (cases "pmCall c (pm, handed)") (auto simp: pmRun_def)
qed (simp add: pmRun_def)

text \<open>A stopped manager calls no process any more.\<close>

lemma stopped_call:
  assumes "pmStopped pm" "pmCall c (pm, handed) = (pm', handed')"
  shows "pm' = pm"
  using assms
  by (cases c) (auto simp: startManager_def StopProcesses_def AddProcess_def RemoveProcessByID_def)

lemma stopped_run:
  "pmStopped pm \<Longrightarrow> pmRun cs (pm, handed) = (pm', handed') \<Longrightarrow> pm' = pm"
proof (induction cs arbitrary: handed)
  case (Cons c cs)
  obtain pm1 b1 where c: "pmCall c (pm, handed) = (pm1, b1)"
    by (cases "pmCall c (pm, handed)")
  then have "pm1 = pm"
    using stopped_call [OF Cons.prems(1)] by blast
  then show ?case
    using Cons c by (auto simp: pmRun_def)
qed (simp add: pmRun_def)

text \<open>
  C22.  Whatever calls a client makes of a new manager and however the processes answer, once the manager
  is stopped (by \<^verbatim>\<open>Stop\<close>, or by a \<^verbatim>\<open>Start\<close> one of whose processes failed) every process it ever started
  has been stopped by it or was handed back to the client, it manages nothing, and no later call starts
  or stops a process.
\<close>

theorem stopped_manager_leaks_nothing:
  assumes "pmRun cs (NewProcessManager, []) = (pm, handed)" "pmStopped pm"
  shows "(\<forall>p. EvStart p \<in> set (pmTrace pm) \<longrightarrow> EvStop p \<in> set (pmTrace pm) \<or> p \<in> set handed) \<and>
    pmProcs pm = [] \<and> pmTrace (fst (pmRun cs' (pm, handed))) = pmTrace pm"
proof -
  have "accounted (NewProcessManager :: 'a process_manager) []"
    by (simp add: accounted_def NewProcessManager_def)
  then have acc: "accounted pm handed"
    using accounted_run [of NewProcessManager "[]" cs] assms(1) by simp
  moreover have "pmTrace (fst (pmRun cs' (pm, handed))) = pmTrace pm"
    using stopped_run [OF assms(2)] by (cases "pmRun cs' (pm, handed)") auto
  ultimately show ?thesis
    using assms(2) by (auto simp: accounted_def)
qed

definition demoOps :: "nat proc_ops" where
  "demoOps = \<lparr>pID = (\<lambda>p. if p = 0 then ''a'' else if p = 1 then ''b'' else ''c''),
     pStart = (\<lambda>p. if p = 2 then Some (ErrText ''no'') else None), pStop = (\<lambda>_. None)\<rparr>"

definition demoErrEnv :: err_env where
  "demoErrEnv = \<lparr>errText = (\<lambda>_. []), merrErrors = (\<lambda>e. [e]), merrCombine = (\<lambda>es. hd (filter (\<lambda>e. e \<noteq> None) es @ [None])),
     stFromContextError = (\<lambda>_. None), stConvert = (\<lambda>_. None), stFromError = (\<lambda>_. None)\<rparr>"

definition demoCalls :: "nat pm_call list" where
  "demoCalls = [CallAdd demoOps 0 True, CallAdd demoOps 1 True, CallAdd demoOps 2 True, CallRemove ''b'', CallStart demoOps demoErrEnv]"

theorem stopped_manager_leaks_nothing_witness:
  "pmTrace (fst (pmRun demoCalls (NewProcessManager, []))) = [EvStart 0, EvStart 2, EvStop 0, EvStop 2] \<and>
   pmProcs (fst (pmRun demoCalls (NewProcessManager, []))) = []"
proof -
  have "pmStopped (fst (pmRun demoCalls (NewProcessManager, [])))"
    "pmTrace (fst (pmRun demoCalls (NewProcessManager, []))) = [EvStart 0, EvStart 2, EvStop 0, EvStop 2]"
    by code_simp+
  then show ?thesis
    using stopped_manager_leaks_nothing [OF prod.collapse [symmetric], of demoCalls] by simp
qed


definition demoManager :: "nat list \<Rightarrow> nat process_manager" where
  "demoManager ps = fold (\<lambda>p pm. fst (AddProcess demoOps pm p False)) ps NewProcessManager"


end
