(* ===== verification/CachedDialer.thy ===== *)
theory CachedDialer
  imports GoErrors
begin

text \<open>
  Shared connections: reference counting (\<^verbatim>\<open>src/ref.go\<close>) and the cached dialer
  (\<^verbatim>\<open>src/rpc/dialer.go\<close>, \<^verbatim>\<open>cachedDialer\<close>, \<^verbatim>\<open>refCountedConnWrapper\<close>, \<^verbatim>\<open>reffedConn\<close>).

  A connection is a number, given out in the order of dialing.  The dialer's state holds the map of
  connections under its mutex, the wrappers, the references handed to clients and the connections
  closed so far; the goroutines inside \<^verbatim>\<open>DialFunc\<close> and \<^verbatim>\<open>Close\<close> are the list \<open>dsThreads\<close> of where they
  are.  A step is the code between two acquisitions of a lock.  \<open>dsLost\<close> remembers the connections of
  dials that lost the race to insert; the program does not have it.
\<close>

section \<open>Reference counts\<close>

definition NewRefCountedValue :: int where
  "NewRefCountedValue = 0"

text \<open>\<^const>\<open>None\<close> is the panic.\<close>

definition Ref :: "int \<Rightarrow> int option" where
  "Ref n = (if n = -1 then None else Some (n + 1))"

definition Deref :: "int \<Rightarrow> (int \<times> bool) option" where
  "Deref n =
     (if n \<le> 0 then None
      else let n = n - 1 in if n = 0 then Some (-1, True) else Some (n, False))"

section \<open>The dialer\<close>

record conn_wrapper =
  cwKey :: string
  cwRef :: int
  cwActual :: nat

record reffed_conn =
  rcWrap :: nat
  rcDone :: bool

datatype dial_pc =
    DLookup string
  | DRef nat
  | DDial string
  | DInsert string nat
  | CClose nat
  | CUnref nat

record dialer_state =
  dsConns :: "(string, nat) gomap"
  dsWraps :: "conn_wrapper list"
  dsHandles :: "reffed_conn list"
  dsThreads :: "dial_pc list"
  dsNext :: nat
  dsClosed :: "nat list"
  dsLost :: "nat list"
  dsPanic :: bool

definition NewCachedDialer :: dialer_state where
  "NewCachedDialer =
     \<lparr>dsConns = [], dsWraps = [], dsHandles = [], dsThreads = [], dsNext = 0, dsClosed = [], dsLost = [], dsPanic = False\<rparr>"

definition dialKey :: "string \<Rightarrow> string \<Rightarrow> string \<Rightarrow> string" where
  "dialKey proto target keyExtra = proto @ '':'' @ target @ '':'' @ keyExtra"

definition endThread :: "nat \<Rightarrow> dialer_state \<Rightarrow> dialer_state" where
  "endThread i d = d\<lparr>dsThreads := take i (dsThreads d) @ drop (Suc i) (dsThreads d)\<rparr>"

definition goThread :: "nat \<Rightarrow> dial_pc \<Rightarrow> dialer_state \<Rightarrow> dialer_state" where
  "goThread i pc d = d\<lparr>dsThreads := (dsThreads d)[i := pc]\<rparr>"

text \<open>\<^verbatim>\<open>refCountedConnWrapper.Ref\<close>: a new reference, or a panic.\<close>

definition refConn :: "nat \<Rightarrow> dialer_state \<Rightarrow> dialer_state" where
  "refConn w d =
     (case Ref (cwRef (dsWraps d ! w)) of
        None \<Rightarrow> d\<lparr>dsPanic := True\<rparr>
      | Some n \<Rightarrow>
          d\<lparr>dsWraps := (dsWraps d)[w := (dsWraps d ! w)\<lparr>cwRef := n\<rparr>],
            dsHandles := dsHandles d @ [\<lparr>rcWrap = w, rcDone = False\<rparr>]\<rparr>)"

text \<open>\<^verbatim>\<open>DialFunc\<close>: the first lookup, the reference to what it found, the dial, and the insertion.\<close>

definition dialLookup :: "nat \<Rightarrow> string \<Rightarrow> dialer_state \<Rightarrow> dialer_state" where
  "dialLookup i key d =
     (case mget (dsConns d) key of
        Some w \<Rightarrow> goThread i (DRef w) d
      | None \<Rightarrow> goThread i (DDial key) d)"

definition dialFound :: "nat \<Rightarrow> nat \<Rightarrow> dialer_state \<Rightarrow> dialer_state" where
  "dialFound i w d = refConn w (endThread i d)"

definition dialNew :: "nat \<Rightarrow> string \<Rightarrow> bool \<Rightarrow> dialer_state \<Rightarrow> dialer_state" where
  "dialNew i key ok d =
     (if ok then (goThread i (DInsert key (dsNext d)) d)\<lparr>dsNext := Suc (dsNext d)\<rparr>
      else endThread i d)"

definition dialInsert :: "nat \<Rightarrow> string \<Rightarrow> nat \<Rightarrow> err option \<Rightarrow> dialer_state \<Rightarrow> dialer_state" where
  "dialInsert i key conn closeErr d =
     (let d = endThread i d in
      case mget (dsConns d) key of
        Some w \<Rightarrow>
          (let d = d\<lparr>dsClosed := dsClosed d @ [conn], dsLost := dsLost d @ [conn]\<rparr> in
           if closeErr \<noteq> None then d else refConn w d)
      | None \<Rightarrow>
          (let w = length (dsWraps d);
               d = d\<lparr>dsWraps := dsWraps d @ [\<lparr>cwKey = key, cwRef = NewRefCountedValue, cwActual = conn\<rparr>],
                     dsConns := mput key w (dsConns d)\<rparr>
           in refConn w d))"

text \<open>\<^verbatim>\<open>reffedConn.Close\<close>: the dereference happens once; the last one closes and then forgets the connection.\<close>

definition handleClose :: "nat \<Rightarrow> dialer_state \<Rightarrow> dialer_state" where
  "handleClose j d =
     (let h = dsHandles d ! j in
      if rcDone h then d
      else
        let d = d\<lparr>dsHandles := (dsHandles d)[j := h\<lparr>rcDone := True\<rparr>]\<rparr>; w = rcWrap h in
        (case Deref (cwRef (dsWraps d ! w)) of
           None \<Rightarrow> d\<lparr>dsPanic := True\<rparr>
         | Some (n, unref) \<Rightarrow>
             let d = d\<lparr>dsWraps := (dsWraps d)[w := (dsWraps d ! w)\<lparr>cwRef := n\<rparr>]\<rparr>
             in if unref then d\<lparr>dsThreads := dsThreads d @ [CClose w]\<rparr> else d))"

definition closeActual :: "nat \<Rightarrow> nat \<Rightarrow> dialer_state \<Rightarrow> dialer_state" where
  "closeActual i w d = goThread i (CUnref w) (d\<lparr>dsClosed := dsClosed d @ [cwActual (dsWraps d ! w)]\<rparr>)"

definition onUnref :: "nat \<Rightarrow> nat \<Rightarrow> dialer_state \<Rightarrow> dialer_state" where
  "onUnref i w d = (endThread i d)\<lparr>dsConns := mdel (cwKey (dsWraps d ! w)) (dsConns d)\<rparr>"

text \<open>The error that \<^verbatim>\<open>reffedConn.Close\<close> returns for what the last close of the connection gave.\<close>

definition reffedCloseErr :: "err_env \<Rightarrow> err option \<Rightarrow> err option" where
  "reffedCloseErr E closeErr =
     (if closeErr \<noteq> None \<and> statusCode (stConvert E closeErr) \<noteq> Canceled then closeErr else None)"

text \<open>\<^verbatim>\<open>DialDirect\<close> is \<^verbatim>\<open>DialFunc\<close> under the protocol \<^verbatim>\<open>grpc\<close>.\<close>

definition DialDirect :: "string \<Rightarrow> string \<Rightarrow> dialer_state \<Rightarrow> dialer_state" where
  "DialDirect target keyExtra d = d\<lparr>dsThreads := dsThreads d @ [DLookup (dialKey ''grpc'' target keyExtra)]\<rparr>"

inductive dialer_step :: "dialer_state \<Rightarrow> dialer_state \<Rightarrow> bool" where
  step_dial: "dialer_step d (d\<lparr>dsThreads := dsThreads d @ [DLookup key]\<rparr>)"
| step_lookup: "i < length (dsThreads d) \<Longrightarrow> dsThreads d ! i = DLookup key \<Longrightarrow> dialer_step d (dialLookup i key d)"
| step_found: "i < length (dsThreads d) \<Longrightarrow> dsThreads d ! i = DRef w \<Longrightarrow> dialer_step d (dialFound i w d)"
| step_new: "i < length (dsThreads d) \<Longrightarrow> dsThreads d ! i = DDial key \<Longrightarrow> dialer_step d (dialNew i key ok d)"
| step_insert: "i < length (dsThreads d) \<Longrightarrow> dsThreads d ! i = DInsert key c \<Longrightarrow> dialer_step d (dialInsert i key c e d)"
| step_close: "j < length (dsHandles d) \<Longrightarrow> dialer_step d (handleClose j d)"
| step_closing: "i < length (dsThreads d) \<Longrightarrow> dsThreads d ! i = CClose w \<Longrightarrow> dialer_step d (closeActual i w d)"
| step_unref: "i < length (dsThreads d) \<Longrightarrow> dsThreads d ! i = CUnref w \<Longrightarrow> dialer_step d (onUnref i w d)"

text \<open>
  \<^verbatim>\<open>cachedDialer.Close\<close> closes every connection in the map, whoever refers to it; \<open>closeErr\<close> is what each
  close returns.
\<close>

definition closeDialer :: "err_env \<Rightarrow> (nat \<Rightarrow> err option) \<Rightarrow> dialer_state \<Rightarrow> dialer_state \<times> err option" where
  "closeDialer E closeErr d =
     (let conns = map (\<lambda>(key, w). cwActual (dsWraps d ! w)) (dsConns d);
          e = fold (\<lambda>c acc.
            case closeErr c of
              None \<Rightarrow> acc
            | Some x \<Rightarrow> if statusCode (stConvert E (Some x)) \<noteq> Canceled then merrCombine E [acc, Some x] else acc) conns None
      in (d\<lparr>dsClosed := dsClosed d @ conns\<rparr>, e))"

text \<open>\<^verbatim>\<open>clientConnWithCloseFunc.Close\<close>: both are closed and both errors are kept.\<close>

definition closeWithFunc :: "err_env \<Rightarrow> err option \<Rightarrow> err option option \<Rightarrow> err option" where
  "closeWithFunc E connErr closeFunc =
     (case closeFunc of None \<Rightarrow> connErr | Some e \<Rightarrow> merrCombine E [connErr, e])"

section \<open>Counting\<close>

definition cnt :: "('a \<Rightarrow> bool) \<Rightarrow> 'a list \<Rightarrow> nat" where
  "cnt P xs = length (filter P xs)"

lemma cnt_simps [simp]:
  "cnt P [] = 0"
  "cnt P (x # xs) = of_bool (P x) + cnt P xs"
  "cnt P (xs @ ys) = cnt P xs + cnt P ys"
  by (simp_all add: cnt_def)

lemma cnt_update:
  assumes "i < length xs"
  shows "cnt P (xs[i := y]) + of_bool (P (xs ! i)) = cnt P xs + of_bool (P y)"
  by (subst (2) id_take_nth_drop [OF assms]) (simp add: upd_conv_take_nth_drop [OF assms])

lemma cnt_remove:
  assumes "i < length xs"
  shows "cnt P (take i xs @ drop (Suc i) xs) + of_bool (P (xs ! i)) = cnt P xs"
  by (subst (3) id_take_nth_drop [OF assms]) simp

lemma cnt_pos: "0 < cnt P xs \<longleftrightarrow> (\<exists>x \<in> set xs. P x)"
  by (auto simp: cnt_def filter_empty_conv)

lemma cnt_eq_0: "cnt P xs = 0 \<longleftrightarrow> (\<forall>x \<in> set xs. \<not> P x)"
  by (auto simp: cnt_def filter_empty_conv)

lemma distinct_cnt: "(\<And>x. cnt ((=) x) xs \<le> 1) \<Longrightarrow> distinct xs"
proof (induction xs)
  case (Cons a xs)
  have "cnt ((=) a) xs = 0"
    using Cons.prems [of a] by simp
  moreover have "cnt ((=) x) xs \<le> 1" for x
    using Cons.prems [of x] by simp
  ultimately show ?case
    using Cons.IH by (auto simp: cnt_eq_0)
qed simp

section \<open>The invariant\<close>

fun inserts :: "nat \<Rightarrow> dial_pc \<Rightarrow> bool" where
  "inserts c (DInsert key c') \<longleftrightarrow> c' = c"
| "inserts c pc \<longleftrightarrow> False"

definition openRefs :: "dialer_state \<Rightarrow> nat \<Rightarrow> nat" where
  "openRefs d w = cnt (\<lambda>h. rcWrap h = w \<and> \<not> rcDone h) (dsHandles d)"

abbreviation actuals :: "dialer_state \<Rightarrow> nat list" where
  "actuals d \<equiv> map cwActual (dsWraps d)"

text \<open>Every connection dialed so far is in one place.\<close>

definition placesInv :: "dialer_state \<Rightarrow> bool" where
  "placesInv d \<longleftrightarrow>
     (\<forall>c. cnt ((=) c) (actuals d) + cnt (inserts c) (dsThreads d) + cnt ((=) c) (dsLost d) = of_bool (c < dsNext d))"

text \<open>A wrapped connection is closed, or about to be, once it has no references left.\<close>

definition closeInv :: "dialer_state \<Rightarrow> bool" where
  "closeInv d \<longleftrightarrow>
     (\<forall>w < length (dsWraps d).
        cnt ((=) (actuals d ! w)) (dsClosed d) + cnt ((=) (CClose w)) (dsThreads d) = of_bool (openRefs d w = 0)) \<and>
     (\<forall>c \<in> set (dsLost d). cnt ((=) c) (dsClosed d) = 1) \<and>
     (\<forall>c. 0 < cnt (inserts c) (dsThreads d) \<longrightarrow> c \<notin> set (dsClosed d)) \<and>
     (\<forall>c \<in> set (dsClosed d). c < dsNext d)"

definition countInv :: "dialer_state \<Rightarrow> bool" where
  "countInv d \<longleftrightarrow>
     (\<forall>w < length (dsWraps d). cwRef (dsWraps d ! w) = (if openRefs d w = 0 then -1 else int (openRefs d w)))"

fun pcWrap :: "dial_pc \<Rightarrow> nat option" where
  "pcWrap (DRef w) = Some w"
| "pcWrap (CClose w) = Some w"
| "pcWrap (CUnref w) = Some w"
| "pcWrap pc = None"

definition indexInv :: "dialer_state \<Rightarrow> bool" where
  "indexInv d \<longleftrightarrow>
     (\<forall>h \<in> set (dsHandles d). rcWrap h < length (dsWraps d)) \<and>
     (\<forall>pc \<in> set (dsThreads d). \<forall>w. pcWrap pc = Some w \<longrightarrow> w < length (dsWraps d)) \<and>
     (\<forall>(key, w) \<in> set (dsConns d). w < length (dsWraps d))"

definition dialerInv :: "dialer_state \<Rightarrow> bool" where
  "dialerInv d \<longleftrightarrow> placesInv d \<and> closeInv d \<and> countInv d \<and> indexInv d"

lemma openRefs_frame [simp]:
  "openRefs (d\<lparr>dsConns := c\<rparr>) = openRefs d"
  "openRefs (d\<lparr>dsThreads := t\<rparr>) = openRefs d"
  "openRefs (d\<lparr>dsClosed := cl\<rparr>) = openRefs d"
  "openRefs (d\<lparr>dsLost := l\<rparr>) = openRefs d"
  "openRefs (d\<lparr>dsNext := n\<rparr>) = openRefs d"
  "openRefs (d\<lparr>dsPanic := p\<rparr>) = openRefs d"
  "openRefs (d\<lparr>dsWraps := ws\<rparr>) = openRefs d"
  by (simp_all add: openRefs_def fun_eq_iff)

lemmas dialer_invs = dialerInv_def placesInv_def closeInv_def countInv_def indexInv_def

text \<open>Steps that only move a thread which holds no connection and does not close one.\<close>

fun quietPc :: "dial_pc \<Rightarrow> bool" where
  "quietPc (DInsert key c) = False"
| "quietPc (CClose w) = False"
| "quietPc pc = True"

lemma quietPc_counts: "quietPc pc \<Longrightarrow> \<not> inserts c pc" "quietPc pc \<Longrightarrow> CClose w \<noteq> pc"
  by (cases pc; auto)+

lemma dialerInv_threads:
  assumes "dialerInv d" "\<And>c. cnt (inserts c) t = cnt (inserts c) (dsThreads d)"
    "\<And>w. cnt ((=) (CClose w)) t = cnt ((=) (CClose w)) (dsThreads d)"
    "\<And>pc w. pc \<in> set t \<Longrightarrow> pcWrap pc = Some w \<Longrightarrow> w < length (dsWraps d)"
  shows "dialerInv (d\<lparr>dsThreads := t\<rparr>)"
  using assms by (simp add: dialer_invs)

lemma dialerInv_go:
  assumes "dialerInv d" "i < length (dsThreads d)" "quietPc (dsThreads d ! i)" "quietPc pc"
    "\<And>w. pcWrap pc = Some w \<Longrightarrow> w < length (dsWraps d)"
  shows "dialerInv (goThread i pc d)"
  unfolding goThread_def
proof (rule dialerInv_threads [OF assms(1)])
  show "cnt (inserts c) ((dsThreads d)[i := pc]) = cnt (inserts c) (dsThreads d)" for c
    using cnt_update [OF assms(2), of "inserts c" pc] by (simp add: quietPc_counts assms(3,4))
  show "cnt ((=) (CClose w)) ((dsThreads d)[i := pc]) = cnt ((=) (CClose w)) (dsThreads d)" for w
    using cnt_update [OF assms(2), of "(=) (CClose w)" pc] by (simp add: quietPc_counts assms(3,4))
  show "w < length (dsWraps d)" if "pc' \<in> set ((dsThreads d)[i := pc])" "pcWrap pc' = Some w" for pc' w
    using that assms(1,5) set_update_subset_insert [of "dsThreads d" i pc] by (auto simp: dialerInv_def indexInv_def)
qed

lemma dialerInv_end:
  assumes "dialerInv d" "i < length (dsThreads d)" "quietPc (dsThreads d ! i)"
  shows "dialerInv (endThread i d)"
  unfolding endThread_def
proof (rule dialerInv_threads [OF assms(1)])
  let ?t = "take i (dsThreads d) @ drop (Suc i) (dsThreads d)"
  show "cnt (inserts c) ?t = cnt (inserts c) (dsThreads d)" for c
    using cnt_remove [OF assms(2), of "inserts c"] by (simp add: quietPc_counts assms(3))
  show "cnt ((=) (CClose w)) ?t = cnt ((=) (CClose w)) (dsThreads d)" for w
    using cnt_remove [OF assms(2), of "(=) (CClose w)"] by (simp add: quietPc_counts assms(3))
  show "w < length (dsWraps d)" if "pc' \<in> set ?t" "pcWrap pc' = Some w" for pc' w
    using that assms(1) by (auto simp: dialerInv_def indexInv_def dest: in_set_takeD in_set_dropD)
qed

lemma dialerInv_panic [simp]: "dialerInv (d\<lparr>dsPanic := p\<rparr>) = dialerInv d"
  by (simp add: dialer_invs)

lemma map_actual_update [simp]: "map cwActual (ws[w := (ws ! w)\<lparr>cwRef := n\<rparr>]) = map cwActual ws"
  by (cases "w < length ws") (auto simp: map_update intro!: nth_equalityI simp: nth_list_update)

lemma dialerInv_ref:
  assumes "dialerInv d" "w < length (dsWraps d)"
  shows "dialerInv (refConn w d)"
proof (cases "openRefs d w = 0")
  case True
  then have "refConn w d = d\<lparr>dsPanic := True\<rparr>"
    using assms by (simp add: refConn_def Ref_def dialerInv_def countInv_def)
  then show ?thesis
    using assms by simp
next
  case False
  define h where "h = \<lparr>rcWrap = w, rcDone = False\<rparr>"
  let ?d = "d\<lparr>dsWraps := (dsWraps d)[w := (dsWraps d ! w)\<lparr>cwRef := int (openRefs d w) + 1\<rparr>], dsHandles := dsHandles d @ [h]\<rparr>"
  have "refConn w d = ?d"
    using assms False by (simp add: refConn_def Ref_def dialerInv_def countInv_def h_def)
  moreover have o: "openRefs ?d v = openRefs d v + of_bool (v = w)" for v
    by (simp add: openRefs_def h_def)
  have "countInv ?d"
    using assms False unfolding countInv_def o by (auto simp: dialerInv_def countInv_def nth_list_update)
  moreover have "closeInv ?d"
    using assms False unfolding closeInv_def o by (auto simp: dialerInv_def closeInv_def)
  moreover have "placesInv ?d" "indexInv ?d"
    using assms by (auto simp: dialerInv_def placesInv_def indexInv_def h_def)
  ultimately show ?thesis
    by (simp add: dialerInv_def)
qed

lemma dialerInv_new:
  assumes "dialerInv d" "i < length (dsThreads d)" "dsThreads d ! i = DDial key"
  shows "dialerInv (dialNew i key ok d)"
proof (cases ok)
  case False
  then show ?thesis
    using dialerInv_end [OF assms(1,2)] assms(3) by (simp add: dialNew_def)
next
  case True
  let ?t = "(dsThreads d)[i := DInsert key (dsNext d)]"
  have ins: "cnt (inserts c) ?t = cnt (inserts c) (dsThreads d) + of_bool (c = dsNext d)" for c
    using cnt_update [OF assms(2), of "inserts c" "DInsert key (dsNext d)"] assms(3) by auto
  have cl: "cnt ((=) (CClose w)) ?t = cnt ((=) (CClose w)) (dsThreads d)" for w
    using cnt_update [OF assms(2), of "(=) (CClose w)" "DInsert key (dsNext d)"] assms(3) by simp
  have "placesInv (dialNew i key ok d)"
    using assms(1) True by (auto simp: dialNew_def goThread_def dialerInv_def placesInv_def ins)
  moreover have "closeInv (dialNew i key ok d)"
    using assms(1) True by (auto simp: dialNew_def goThread_def dialerInv_def closeInv_def ins cl)
  moreover have "countInv (dialNew i key ok d)" "indexInv (dialNew i key ok d)"
    using assms(1) True set_update_subset_insert [of "dsThreads d" i "DInsert key (dsNext d)"]
    by (auto simp: dialNew_def goThread_def dialerInv_def countInv_def indexInv_def)
  ultimately show ?thesis
    by (simp add: dialerInv_def)
qed

text \<open>A connection in one place is in no other.\<close>

lemma places_unique:
  assumes "placesInv d"
  shows "0 < cnt (inserts c) (dsThreads d) \<Longrightarrow> cnt (inserts c) (dsThreads d) = 1"
    and "0 < cnt (inserts c) (dsThreads d) \<Longrightarrow> c \<notin> set (actuals d)"
    and "0 < cnt (inserts c) (dsThreads d) \<Longrightarrow> c \<notin> set (dsLost d)"
    and "0 < cnt (inserts c) (dsThreads d) \<Longrightarrow> c < dsNext d"
    and "c \<in> set (actuals d) \<Longrightarrow> c \<notin> set (dsLost d)"
    and "c \<in> set (actuals d) \<Longrightarrow> c < dsNext d"
    and "distinct (actuals d)"
proof -
  have sum: "cnt ((=) x) (actuals d) + cnt (inserts x) (dsThreads d) + cnt ((=) x) (dsLost d) = of_bool (x < dsNext d)" for x
    using assms by (simp add: placesInv_def)
  have mem: "x \<in> set xs \<longleftrightarrow> 0 < cnt ((=) x) xs" for x and xs :: "nat list"
    by (auto simp: cnt_pos)
  show "distinct (actuals d)"
  proof (rule distinct_cnt)
    show "cnt ((=) x) (actuals d) \<le> 1" for x
      using sum [of x] by (simp add: of_bool_def split: if_splits)
  qed
  show "0 < cnt (inserts c) (dsThreads d) \<Longrightarrow> cnt (inserts c) (dsThreads d) = 1"
    "0 < cnt (inserts c) (dsThreads d) \<Longrightarrow> c \<notin> set (actuals d)"
    "0 < cnt (inserts c) (dsThreads d) \<Longrightarrow> c \<notin> set (dsLost d)"
    "0 < cnt (inserts c) (dsThreads d) \<Longrightarrow> c < dsNext d"
    "c \<in> set (actuals d) \<Longrightarrow> c \<notin> set (dsLost d)"
    "c \<in> set (actuals d) \<Longrightarrow> c < dsNext d"
    unfolding mem using sum [of c] by (auto split: if_splits simp: of_bool_def)
qed

lemma cnt_other: "c \<noteq> x \<Longrightarrow> cnt ((=) x) (xs @ [c]) = cnt ((=) x) xs"
  by simp

lemma dialerInv_lost:
  assumes "dialerInv d" "i < length (dsThreads d)" "dsThreads d ! i = DInsert key c"
  shows "dialerInv ((endThread i d)\<lparr>dsClosed := dsClosed d @ [c], dsLost := dsLost d @ [c]\<rparr>)"
proof -
  let ?t = "take i (dsThreads d) @ drop (Suc i) (dsThreads d)"
  let ?d = "(endThread i d)\<lparr>dsClosed := dsClosed d @ [c], dsLost := dsLost d @ [c]\<rparr>"
  have ins: "cnt (inserts x) ?t + of_bool (c = x) = cnt (inserts x) (dsThreads d)" for x
    using cnt_remove [OF assms(2), of "inserts x"] assms(3) by simp
  have cl: "cnt ((=) (CClose w)) ?t = cnt ((=) (CClose w)) (dsThreads d)" for w
    using cnt_remove [OF assms(2), of "(=) (CClose w)"] assms(3) by simp
  have pl: "placesInv d" and ci: "closeInv d"
    using assms(1) by (simp_all add: dialerInv_def)
  have pos: "0 < cnt (inserts c) (dsThreads d)"
    using ins [of c] by simp
  note u = places_unique(1-4) [OF pl pos]
  have c0: "c \<notin> set (dsClosed d)"
    using ci pos by (simp add: closeInv_def)
  have "placesInv ?d"
    unfolding placesInv_def
  proof
    show "cnt ((=) x) (actuals ?d) + cnt (inserts x) (dsThreads ?d) + cnt ((=) x) (dsLost ?d) = of_bool (x < dsNext ?d)" for x
      using ins [of x] pl [unfolded placesInv_def, rule_format, of x] u(4) by (auto simp: endThread_def)
  qed
  moreover have "closeInv ?d"
    unfolding closeInv_def
  proof (intro conjI allI ballI impI)
    show "cnt ((=) (actuals ?d ! w)) (dsClosed ?d) + cnt ((=) (CClose w)) (dsThreads ?d) = of_bool (openRefs ?d w = 0)"
      if "w < length (dsWraps ?d)" for w
    proof -
      have "actuals d ! w \<noteq> c"
        using that u(2) nth_mem [of w "actuals d"] by (auto simp: endThread_def)
      then show ?thesis
        using that ci cl [of w] by (auto simp: closeInv_def endThread_def)
    qed
    show "cnt ((=) x) (dsClosed ?d) = 1" if "x \<in> set (dsLost ?d)" for x
      using that ci c0 u(3) by (auto simp: closeInv_def cnt_eq_0 endThread_def)
    show "x \<notin> set (dsClosed ?d)" if "0 < cnt (inserts x) (dsThreads ?d)" for x
      using that ins [of x] u(1) ci by (auto simp: closeInv_def endThread_def simp del: cnt_simps)
    show "x < dsNext ?d" if "x \<in> set (dsClosed ?d)" for x
      using that ci u(4) by (auto simp: closeInv_def endThread_def)
  qed
  moreover have "countInv ?d" "indexInv ?d"
    using assms(1) by (auto simp: dialerInv_def countInv_def indexInv_def endThread_def dest: in_set_takeD in_set_dropD)
  ultimately show ?thesis
    by (simp add: dialerInv_def)
qed

lemma indexInv_wrap:
  assumes "indexInv d"
  shows "openRefs d (length (dsWraps d)) = 0" "cnt ((=) (CClose (length (dsWraps d)))) (dsThreads d) = 0"
  using assms by (fastforce simp: indexInv_def openRefs_def cnt_eq_0)+

lemma dialerInv_inserted:
  assumes "dialerInv d" "i < length (dsThreads d)" "dsThreads d ! i = DInsert key c"
  shows "dialerInv ((endThread i d)\<lparr>dsWraps := dsWraps d @ [\<lparr>cwKey = key, cwRef = 1, cwActual = c\<rparr>],
    dsConns := mput key (length (dsWraps d)) (dsConns d),
    dsHandles := dsHandles d @ [\<lparr>rcWrap = length (dsWraps d), rcDone = False\<rparr>]\<rparr>)" (is "dialerInv ?d")
proof -
  let ?t = "take i (dsThreads d) @ drop (Suc i) (dsThreads d)"
  let ?n = "length (dsWraps d)"
  have ins: "cnt (inserts x) ?t + of_bool (c = x) = cnt (inserts x) (dsThreads d)" for x
    using cnt_remove [OF assms(2), of "inserts x"] assms(3) by simp
  have cl: "cnt ((=) (CClose w)) ?t = cnt ((=) (CClose w)) (dsThreads d)" for w
    using cnt_remove [OF assms(2), of "(=) (CClose w)"] assms(3) by simp
  have inv: "placesInv d" "closeInv d" "countInv d" "indexInv d"
    using assms(1) by (simp_all add: dialerInv_def)
  have pos: "0 < cnt (inserts c) (dsThreads d)"
    using ins [of c] by simp
  note u = places_unique(1-4) [OF inv(1) pos] and n = indexInv_wrap [OF inv(4)]
  have o: "openRefs ?d v = openRefs d v + of_bool (v = ?n)" for v
    by (simp add: openRefs_def endThread_def)
  have c0: "cnt ((=) c) (dsClosed d) = 0"
    using inv(2) pos by (auto simp: closeInv_def cnt_eq_0)
  have "placesInv ?d"
    unfolding placesInv_def
  proof
    show "cnt ((=) x) (actuals ?d) + cnt (inserts x) (dsThreads ?d) + cnt ((=) x) (dsLost ?d) = of_bool (x < dsNext ?d)" for x
      using ins [of x] inv(1) [unfolded placesInv_def, rule_format, of x] u(4) by (auto simp: endThread_def)
  qed
  moreover have "closeInv ?d"
    unfolding closeInv_def
  proof (intro conjI allI ballI impI)
    show "cnt ((=) (actuals ?d ! w)) (dsClosed ?d) + cnt ((=) (CClose w)) (dsThreads ?d) = of_bool (openRefs ?d w = 0)"
      if "w < length (dsWraps ?d)" for w
      using that inv(2) cl [of w] n c0 unfolding o by (auto simp: closeInv_def endThread_def nth_append less_Suc_eq)
    show "x \<notin> set (dsClosed ?d)" if "0 < cnt (inserts x) (dsThreads ?d)" for x
      using that ins [of x] inv(2) by (auto simp: closeInv_def endThread_def simp del: cnt_simps)
  qed (use inv(2) in \<open>auto simp: closeInv_def endThread_def\<close>)
  moreover have "countInv ?d"
    using inv(3) n unfolding countInv_def o by (auto simp: nth_append less_Suc_eq)
  moreover have "indexInv ?d"
    using inv(4) set_mput [of key ?n "dsConns d"]
    by (fastforce simp: indexInv_def endThread_def dest: in_set_takeD in_set_dropD)
  ultimately show ?thesis
    by (simp add: dialerInv_def)
qed

lemma dialerInv_insert:
  assumes "dialerInv d" "i < length (dsThreads d)" "dsThreads d ! i = DInsert key c"
  shows "dialerInv (dialInsert i key c e d)"
proof (cases "mget (dsConns d) key")
  case None
  then have "dialInsert i key c e d = (endThread i d)\<lparr>dsWraps := dsWraps d @ [\<lparr>cwKey = key, cwRef = 1, cwActual = c\<rparr>],
    dsConns := mput key (length (dsWraps d)) (dsConns d),
    dsHandles := dsHandles d @ [\<lparr>rcWrap = length (dsWraps d), rcDone = False\<rparr>]\<rparr>"
    by (simp add: dialInsert_def endThread_def refConn_def Ref_def NewRefCountedValue_def nth_append list_update_append Let_def)
  then show ?thesis
    using dialerInv_inserted [OF assms] by simp
next
  case (Some w)
  let ?d = "(endThread i d)\<lparr>dsClosed := dsClosed d @ [c], dsLost := dsLost d @ [c]\<rparr>"
  have "(key, w) \<in> set (dsConns d)"
    using Some by (simp add: map_of_SomeD)
  then have "w < length (dsWraps ?d)"
    using assms(1) by (auto simp: dialerInv_def indexInv_def endThread_def)
  moreover have "dialInsert i key c e d = (if e \<noteq> None then ?d else refConn w ?d)"
    using Some by (simp add: dialInsert_def endThread_def)
  ultimately show ?thesis
    using dialerInv_lost [OF assms] dialerInv_ref by simp
qed

lemma dialerInv_close:
  assumes "dialerInv d" "j < length (dsHandles d)"
  shows "dialerInv (handleClose j d)"
proof (cases "rcDone (dsHandles d ! j)")
  case True
  then show ?thesis
    using assms(1) by (simp add: handleClose_def Let_def)
next
  case False
  define h where "h = dsHandles d ! j"
  define w where "w = rcWrap h"
  define r where "r = openRefs d w"
  have inv: "placesInv d" "closeInv d" "countInv d" "indexInv d"
    using assms(1) by (simp_all add: dialerInv_def)
  have w: "w < length (dsWraps d)"
    using inv(4) assms(2) by (simp add: indexInv_def w_def h_def)
  have r: "0 < r"
    using assms(2) False by (auto simp: r_def w_def h_def openRefs_def cnt_pos)
  define n where "n = (if r = 1 then -1 else int r - 1)"
  define d' where "d' = d\<lparr>dsHandles := (dsHandles d)[j := h\<lparr>rcDone := True\<rparr>],
    dsWraps := (dsWraps d)[w := (dsWraps d ! w)\<lparr>cwRef := n\<rparr>],
    dsThreads := dsThreads d @ (if r = 1 then [CClose w] else [])\<rparr>"
  have "cwRef (dsWraps d ! w) = int r"
    using inv(3) w r by (simp add: countInv_def r_def)
  then have eq: "handleClose j d = d'"
    using False r by (simp add: handleClose_def Deref_def Let_def d'_def n_def h_def [symmetric] w_def [symmetric])
  have o: "openRefs d' v + of_bool (v = w) = openRefs d v" for v
    using cnt_update [OF assms(2), of "\<lambda>h. rcWrap h = v \<and> \<not> rcDone h" "h\<lparr>rcDone := True\<rparr>"] False
    by (auto simp: openRefs_def d'_def h_def [symmetric] w_def [symmetric])
  have "placesInv d'"
    using inv(1) by (simp add: placesInv_def d'_def)
  moreover have "closeInv d'"
    unfolding closeInv_def
  proof (intro conjI allI ballI impI)
    show "cnt ((=) (actuals d' ! v)) (dsClosed d') + cnt ((=) (CClose v)) (dsThreads d') = of_bool (openRefs d' v = 0)"
      if "v < length (dsWraps d')" for v
      using that inv(2) o [of v] r w by (cases "v = w") (auto simp: closeInv_def d'_def r_def)
  qed (use inv(2) in \<open>auto simp: closeInv_def d'_def split: if_splits\<close>)
  moreover have "countInv d'"
    unfolding countInv_def
  proof (intro allI impI)
    show "cwRef (dsWraps d' ! v) = (if openRefs d' v = 0 then -1 else int (openRefs d' v))"
      if "v < length (dsWraps d')" for v
      using that inv(3) o [of v] r w by (cases "v = w") (auto simp: countInv_def d'_def n_def r_def)
  qed
  moreover have "indexInv d'"
    using inv(4) w set_update_subset_insert [of "dsHandles d" j "h\<lparr>rcDone := True\<rparr>"]
    by (auto simp: indexInv_def d'_def w_def)
  ultimately show ?thesis
    by (simp add: eq dialerInv_def)
qed

lemma dialerInv_closing:
  assumes "dialerInv d" "i < length (dsThreads d)" "dsThreads d ! i = CClose w"
  shows "dialerInv (closeActual i w d)"
proof -
  let ?d = "closeActual i w d"
  let ?t = "(dsThreads d)[i := CUnref w]"
  have ins: "cnt (inserts x) ?t = cnt (inserts x) (dsThreads d)" for x
    using cnt_update [OF assms(2), of "inserts x" "CUnref w"] assms(3) by simp
  have cl: "cnt ((=) (CClose v)) ?t + of_bool (v = w) = cnt ((=) (CClose v)) (dsThreads d)" for v
    using cnt_update [OF assms(2), of "(=) (CClose v)" "CUnref w"] assms(3) by simp
  have inv: "placesInv d" "closeInv d" "countInv d" "indexInv d"
    using assms(1) by (simp_all add: dialerInv_def)
  have "CClose w \<in> set (dsThreads d)"
    using assms(2,3) nth_mem by fastforce
  then have w: "w < length (dsWraps d)"
    using inv(4) by (force simp: indexInv_def)
  then have mem: "actuals d ! w \<in> set (actuals d)"
    by (metis length_map nth_mem)
  note u = places_unique(5,6) [OF inv(1) mem] and di = places_unique(7) [OF inv(1)]
  have ni: "cnt (inserts (actuals d ! w)) (dsThreads d) = 0"
    using places_unique(2) [OF inv(1), of "actuals d ! w"] mem by blast
  have "placesInv ?d"
    using inv(1) by (simp add: placesInv_def closeActual_def goThread_def ins)
  moreover have "closeInv ?d"
    unfolding closeInv_def
  proof (intro conjI allI ballI impI)
    show "cnt ((=) (actuals ?d ! v)) (dsClosed ?d) + cnt ((=) (CClose v)) (dsThreads ?d) = of_bool (openRefs ?d v = 0)"
      if "v < length (dsWraps ?d)" for v
    proof -
      have "actuals d ! v = actuals d ! w \<longleftrightarrow> v = w"
        using that w di by (simp add: closeActual_def goThread_def distinct_conv_nth) metis
      then show ?thesis
        using that inv(2) [unfolded closeInv_def, THEN conjunct1, rule_format, of v] cl [of v] w
        by (cases "openRefs d v = 0") (auto simp: closeActual_def goThread_def)
    qed
    show "cnt ((=) x) (dsClosed ?d) = 1" if "x \<in> set (dsLost ?d)" for x
      using that inv(2) u w by (auto simp: closeInv_def closeActual_def goThread_def)
    show "x \<notin> set (dsClosed ?d)" if "0 < cnt (inserts x) (dsThreads ?d)" for x
      using that inv(2) ni w ins [of x] by (auto simp: closeInv_def closeActual_def goThread_def)
    show "x < dsNext ?d" if "x \<in> set (dsClosed ?d)" for x
      using that inv(2) u w by (auto simp: closeInv_def closeActual_def goThread_def)
  qed
  moreover have "countInv ?d" "indexInv ?d"
    using inv(3,4) w set_update_subset_insert [of "dsThreads d" i "CUnref w"]
    by (auto simp: closeActual_def goThread_def countInv_def indexInv_def)
  ultimately show ?thesis
    by (simp add: dialerInv_def)
qed

lemma dialerInv_unref:
  assumes "dialerInv d" "i < length (dsThreads d)" "dsThreads d ! i = CUnref w"
  shows "dialerInv (onUnref i w d)"
proof -
  have "dialerInv (endThread i d)"
    using dialerInv_end [OF assms(1,2)] assms(3) by simp
  then show ?thesis
    using set_mdel [of "cwKey (dsWraps d ! w)" "dsConns d"]
    by (auto simp: onUnref_def dialer_invs endThread_def)
qed

lemma dialerInv_lookup:
  assumes "dialerInv d" "i < length (dsThreads d)" "dsThreads d ! i = DLookup key"
  shows "dialerInv (dialLookup i key d)"
proof (cases "mget (dsConns d) key")
  case None
  then show ?thesis
    using dialerInv_go [OF assms(1,2), of "DDial key"] assms(3) by (simp add: dialLookup_def)
next
  case (Some w)
  then have "(key, w) \<in> set (dsConns d)"
    by (simp add: map_of_SomeD)
  then have "w < length (dsWraps d)"
    using assms(1) by (auto simp: dialerInv_def indexInv_def)
  then show ?thesis
    using dialerInv_go [OF assms(1,2), of "DRef w"] assms(3) Some by (simp add: dialLookup_def)
qed

lemma dialerInv_found:
  assumes "dialerInv d" "i < length (dsThreads d)" "dsThreads d ! i = DRef w"
  shows "dialerInv (dialFound i w d)"
proof -
  have "DRef w \<in> set (dsThreads d)"
    using assms(2,3) nth_mem by fastforce
  then have "w < length (dsWraps (endThread i d))"
    using assms(1) by (force simp: dialerInv_def indexInv_def endThread_def)
  then show ?thesis
    using dialerInv_ref [OF dialerInv_end [OF assms(1,2)]] assms(3) by (simp add: dialFound_def)
qed

lemma dialerInv_begin: "dialerInv d \<Longrightarrow> dialerInv (d\<lparr>dsThreads := dsThreads d @ [DLookup key]\<rparr>)"
  by (rule dialerInv_threads) (auto simp: dialerInv_def indexInv_def)

interpretation cached: inductive_invariant "(=) NewCachedDialer" dialer_step dialerInv
proof
  show "dialerInv d" if "NewCachedDialer = d" for d
    using that by (auto simp: dialer_invs NewCachedDialer_def)
  show "dialerInv d'" if "dialerInv d" "dialer_step d d'" for d d'
    using that(2,1)
    by cases (simp_all add: dialerInv_begin dialerInv_lookup dialerInv_found dialerInv_new dialerInv_insert dialerInv_close
        dialerInv_closing dialerInv_unref)
qed

section \<open>Connections are not lost and not closed under a reference\<close>

lemma closed_once: "dialerInv d \<Longrightarrow> distinct (dsClosed d)"
proof (rule distinct_cnt)
  fix c
  assume inv: "dialerInv d"
  show "cnt ((=) c) (dsClosed d) \<le> 1"
  proof (cases "c \<in> set (dsClosed d)")
    case True
    then have "c < dsNext d" "cnt (inserts c) (dsThreads d) = 0"
      using inv by (auto simp: dialerInv_def closeInv_def)
    then have "0 < cnt ((=) c) (actuals d) \<or> 0 < cnt ((=) c) (dsLost d)"
      using inv [unfolded dialerInv_def placesInv_def, THEN conjunct1, rule_format, of c] by simp linarith
    then consider w where "w < length (dsWraps d)" "actuals d ! w = c" | "c \<in> set (dsLost d)"
      by (auto simp: cnt_pos in_set_conv_nth)
    then show ?thesis
    proof cases
      case 1
      then show ?thesis
        using inv [unfolded dialerInv_def closeInv_def, THEN conjunct2, THEN conjunct1, THEN conjunct1, rule_format, of w]
        by (simp add: of_bool_def split: if_splits)
    qed (use inv in \<open>auto simp: dialerInv_def closeInv_def\<close>)
  next
    case False
    then have "cnt ((=) c) (dsClosed d) = 0"
      by (auto simp: cnt_eq_0)
    then show ?thesis
      by simp
  qed
qed

definition referenced :: "dialer_state \<Rightarrow> nat \<Rightarrow> bool" where
  "referenced d c \<longleftrightarrow> (\<exists>h \<in> set (dsHandles d). \<not> rcDone h \<and> cwActual (dsWraps d ! rcWrap h) = c)"

definition inFlight :: "dialer_state \<Rightarrow> nat \<Rightarrow> bool" where
  "inFlight d c \<longleftrightarrow> (\<exists>pc \<in> set (dsThreads d). inserts c pc \<or> (\<exists>w. pc = CClose w \<and> cwActual (dsWraps d ! w) = c))"

lemma referenced_not_closed:
  assumes "dialerInv d" "referenced d c"
  shows "c \<notin> set (dsClosed d)"
proof -
  obtain h where h: "h \<in> set (dsHandles d)" "\<not> rcDone h" "cwActual (dsWraps d ! rcWrap h) = c"
    using assms(2) by (auto simp: referenced_def)
  then have "rcWrap h < length (dsWraps d)" "0 < openRefs d (rcWrap h)"
    using assms(1) by (auto simp: dialerInv_def indexInv_def openRefs_def cnt_pos)
  then have "cnt ((=) c) (dsClosed d) = 0"
    using assms(1) h(3) by (auto simp: dialerInv_def closeInv_def)
  then show ?thesis
    by (auto simp: cnt_eq_0)
qed

lemma dialed_accounted:
  assumes "dialerInv d" "c < dsNext d"
  shows "referenced d c \<or> inFlight d c \<or> c \<in> set (dsClosed d)"
proof -
  have "0 < cnt ((=) c) (actuals d) \<or> 0 < cnt (inserts c) (dsThreads d) \<or> 0 < cnt ((=) c) (dsLost d)"
    using assms(1) [unfolded dialerInv_def placesInv_def, THEN conjunct1, rule_format, of c] assms(2) by simp linarith
  then consider w where "w < length (dsWraps d)" "actuals d ! w = c" | "0 < cnt (inserts c) (dsThreads d)" | "c \<in> set (dsLost d)"
    by (auto simp: cnt_pos in_set_conv_nth)
  then show ?thesis
  proof cases
    case 1
    have "cnt ((=) c) (dsClosed d) + cnt ((=) (CClose w)) (dsThreads d) = of_bool (openRefs d w = 0)"
      using assms(1) 1 by (auto simp: dialerInv_def closeInv_def)
    then consider "0 < openRefs d w" | "0 < cnt ((=) c) (dsClosed d)" | "0 < cnt ((=) (CClose w)) (dsThreads d)"
      by (cases "openRefs d w = 0"; cases "cnt ((=) c) (dsClosed d)") auto
    then show ?thesis
      using 1 by cases (auto simp: openRefs_def cnt_pos referenced_def inFlight_def)
  next
    case 2
    then show ?thesis
      by (auto simp: cnt_pos inFlight_def)
  next
    case 3
    then have "0 < cnt ((=) c) (dsClosed d)"
      using assms(1) by (auto simp: dialerInv_def closeInv_def)
    then show ?thesis
      by (auto simp: cnt_pos)
  qed
qed

text \<open>
  C6.  In every interleaving of dials and closes of a cached dialer, up to the close of the dialer itself: a
  connection with an open reference has not been closed; no connection is closed twice; and no connection is
  lost, that is, each connection dialed has an open reference, is in the hands of a goroutine that is about to
  insert or close it, or has been closed.
\<close>

theorem cached_connections_safe:
  assumes "reach ((=) NewCachedDialer) dialer_step d"
  shows "distinct (dsClosed d) \<and> (\<forall>c. referenced d c \<longrightarrow> c \<notin> set (dsClosed d)) \<and>
    (\<forall>c < dsNext d. referenced d c \<or> inFlight d c \<or> c \<in> set (dsClosed d))"
proof -
  have inv: "dialerInv d"
    using assms by (rule cached.reach_inv)
  show ?thesis
    using closed_once [OF inv] referenced_not_closed [OF inv] dialed_accounted [OF inv] by blast
qed

text \<open>One dial that inserts its connection.\<close>

definition dialedOnce :: dialer_state where
  "dialedOnce = dialInsert 0 ''k'' 0 None (dialNew 0 ''k'' True (dialLookup 0 ''k''
     (NewCachedDialer\<lparr>dsThreads := [DLookup ''k'']\<rparr>)))"

lemmas dialer_ops = NewCachedDialer_def dialLookup_def dialNew_def dialInsert_def dialFound_def handleClose_def
  goThread_def endThread_def refConn_def Ref_def Deref_def NewRefCountedValue_def

lemma dialedOnce_eq:
  "dialedOnce = \<lparr>dsConns = [(''k'', 0)], dsWraps = [\<lparr>cwKey = ''k'', cwRef = 1, cwActual = 0\<rparr>],
     dsHandles = [\<lparr>rcWrap = 0, rcDone = False\<rparr>], dsThreads = [], dsNext = 1, dsClosed = [], dsLost = [], dsPanic = False\<rparr>"
  by (simp add: dialedOnce_def dialer_ops)

lemma dialedOnce_reach: "reach ((=) NewCachedDialer) dialer_step dialedOnce"
proof -
  define d1 where "d1 = NewCachedDialer\<lparr>dsThreads := [DLookup ''k'']\<rparr>"
  define d2 where "d2 = dialLookup 0 ''k'' d1"
  define d3 where "d3 = dialNew 0 ''k'' True d2"
  have 1: "dialer_step NewCachedDialer d1"
    using step_dial [of NewCachedDialer "''k''"] by (simp add: d1_def NewCachedDialer_def)
  have 2: "dialer_step d1 d2"
    unfolding d2_def by (rule step_lookup) (simp_all add: d1_def)
  have 3: "dialer_step d2 d3"
    unfolding d3_def by (rule step_new) (simp_all add: d1_def d2_def dialer_ops)
  have 4: "dialer_step d3 dialedOnce"
    unfolding dialedOnce_def d1_def [symmetric] d2_def [symmetric] d3_def [symmetric]
    by (rule step_insert) (simp_all add: d1_def d2_def d3_def dialer_ops)
  have base: "reach ((=) NewCachedDialer) dialer_step NewCachedDialer"
    by (rule reach_start) (rule refl)
  show ?thesis
    by (rule reach_step [OF reach_step [OF reach_step [OF reach_step [OF base 1] 2] 3] 4])
qed

theorem cached_connections_safe_witness:
  "referenced dialedOnce 0 \<and> 0 \<notin> set (dsClosed dialedOnce)"
proof -
  have "referenced dialedOnce 0"
    by (simp add: referenced_def dialedOnce_eq)
  then show ?thesis
    using cached_connections_safe [OF dialedOnce_reach] by blast
qed

text \<open>
  A dial that finds a connection takes its reference after it has left the lock; when the last reference
  is closed in between, the dial panics with \<^verbatim>\<open>already released\<close>.
\<close>

lemma dial_can_panic:
  "\<exists>d. reach ((=) NewCachedDialer) dialer_step d \<and> dsPanic d"
proof -
  define d1 where "d1 = dialedOnce\<lparr>dsThreads := dsThreads dialedOnce @ [DLookup ''k'']\<rparr>"
  define d2 where "d2 = dialLookup 0 ''k'' d1"
  define d3 where "d3 = handleClose 0 d2"
  define d4 where "d4 = dialFound 0 0 d3"
  have 1: "dialer_step dialedOnce d1"
    unfolding d1_def by (rule step_dial)
  have 2: "dialer_step d1 d2"
    unfolding d2_def by (rule step_lookup) (simp_all add: d1_def dialedOnce_eq)
  have 3: "dialer_step d2 d3"
    unfolding d3_def by (rule step_close) (simp add: d1_def d2_def dialedOnce_eq dialer_ops)
  have 4: "dialer_step d3 d4"
    unfolding d4_def by (rule step_found) (simp_all add: d1_def d2_def d3_def dialedOnce_eq dialer_ops)
  have "reach ((=) NewCachedDialer) dialer_step d4"
    by (rule reach_step [OF reach_step [OF reach_step [OF reach_step [OF dialedOnce_reach 1] 2] 3] 4])
  moreover have "dsPanic d4"
    by (simp add: d1_def d2_def d3_def d4_def dialedOnce_eq dialer_ops)
  ultimately show ?thesis
    by blast
qed

end
