(* ===== verification/GoStrconv.thy ===== *)
theory GoStrconv
  imports GoDuration
begin

text \<open>
  Functions of the Go standard library that the connection code uses on strings: \<^verbatim>\<open>strconv.ParseUint\<close> in
  base ten, \<^verbatim>\<open>encoding/hex\<close>, \<^verbatim>\<open>net.SplitHostPort\<close> and the IPv4 part of \<^verbatim>\<open>net.ParseIP\<close>.  Each printer comes with
  the lemma that its parser undoes it.
\<close>

section \<open>Unsigned numbers\<close>

definition numError :: "string \<Rightarrow> string \<Rightarrow> err" where
  "numError s why = ErrText (''strconv.ParseUint: parsing '' @ goQuote s @ '': '' @ why)"

text \<open>\<open>maxVal\<close> is the largest value of the asked width; the first digit that exceeds it ends the loop.\<close>

fun parseUintLoop :: "string \<Rightarrow> nat \<Rightarrow> string \<Rightarrow> nat \<Rightarrow> err + nat" where
  "parseUintLoop s0 maxVal [] n = Inr n"
| "parseUintLoop s0 maxVal (c # s) n =
     (if \<not> isDig c then Inl (numError s0 ''invalid syntax'')
      else if maxVal < n * 10 + digitVal c then Inl (numError s0 ''value out of range'')
      else parseUintLoop s0 maxVal s (n * 10 + digitVal c))"

definition parseUint :: "nat \<Rightarrow> string \<Rightarrow> err + nat" where
  "parseUint bitSize s =
     (if s = [] then Inl (numError s ''invalid syntax'') else parseUintLoop s (2 ^ bitSize - 1) s 0)"

lemma parseUintLoop_append:
  "parseUintLoop s0 m (a @ b) n = (case parseUintLoop s0 m a n of Inl e \<Rightarrow> Inl e | Inr n' \<Rightarrow> parseUintLoop s0 m b n')"
  by (induction a arbitrary: n) auto

lemma parseUintLoop_decimal: "n \<le> m \<Longrightarrow> parseUintLoop s0 m (decimal n) 0 = Inr n"
proof (induction n rule: decimal.induct)
  case (1 n)
  note digit = digitChar_props [of "n mod 10", unfolded digitChar_def, simplified]
  show ?case
  proof (cases "n < 10")
    case True
    then show ?thesis
      using digit 1(2) by (subst decimal.simps) simp
  next
    case False
    then have "parseUintLoop s0 m (decimal (n div 10)) 0 = Inr (n div 10)"
      using 1 by simp
    then show ?thesis
      using False digit 1(2) by (subst decimal.simps) (simp add: parseUintLoop_append)
  qed
qed

lemma parseUint_decimal: "n < 2 ^ bitSize \<Longrightarrow> parseUint bitSize (decimal n) = Inr n"
  by (simp add: parseUint_def parseUintLoop_decimal)

lemma parseUintLoop_bound: "parseUintLoop s0 m s n = Inr k \<Longrightarrow> n \<le> m \<Longrightarrow> k \<le> m"
  by (induction s arbitrary: n) (auto split: if_splits)

lemma parseUint_bound: "parseUint bitSize s = Inr n \<Longrightarrow> n < 2 ^ bitSize"
  using parseUintLoop_bound [of s "2 ^ bitSize - 1" s 0 n]
  by (auto simp: parseUint_def split: if_splits intro: le_less_trans)

section \<open>Hexadecimal\<close>

definition hexDigit :: "nat \<Rightarrow> char" where
  "hexDigit n = ''0123456789abcdef'' ! n"

definition hexEncode :: "bytes \<Rightarrow> string" where
  "hexEncode bs = concat (map (\<lambda>b. [hexDigit (unat b div 16), hexDigit (unat b mod 16)]) bs)"

definition hexVal :: "char \<Rightarrow> nat option" where
  "hexVal c =
     (if c \<in> set ''0123456789'' then Some (of_char c - 48)
      else if c \<in> set ''abcdef'' then Some (of_char c - 87)
      else if c \<in> set ''ABCDEF'' then Some (of_char c - 55)
      else None)"

definition invalidByte :: "char \<Rightarrow> err" where
  "invalidByte c = ErrText (''encoding/hex: invalid byte: '' @ [c])"

text \<open>
  \<^verbatim>\<open>DecodeString\<close>: pairs are decoded until one is malformed; a single character left over is an error,
  of its value first and of the length otherwise.
\<close>

fun hexDecode :: "string \<Rightarrow> err + bytes" where
  "hexDecode [] = Inr []"
| "hexDecode [c] = (if hexVal c = None then Inl (invalidByte c) else Inl (ErrText ''encoding/hex: odd length hex string''))"
| "hexDecode (c # d # s) =
     (case (hexVal c, hexVal d) of
        (None, _) \<Rightarrow> Inl (invalidByte c)
      | (Some _, None) \<Rightarrow> Inl (invalidByte d)
      | (Some x, Some y) \<Rightarrow> (case hexDecode s of Inl e \<Rightarrow> Inl e | Inr bs \<Rightarrow> Inr (word_of_nat (x * 16 + y) # bs)))"

lemma hexVal_digit: "n < 16 \<Longrightarrow> hexVal (hexDigit n) = Some n"
proof -
  have "\<forall>n \<in> set [0..<16]. hexVal (hexDigit n) = Some n"
    by code_simp
  then show "n < 16 \<Longrightarrow> hexVal (hexDigit n) = Some n"
    by simp
qed

lemma hexDecode_encode [simp]: "hexDecode (hexEncode bs) = Inr bs"
proof (induction bs)
  case (Cons b bs)
  have "unat b < 256"
    using unsigned_less [of b] by simp
  then have "hexVal (hexDigit (unat b div 16)) = Some (unat b div 16)" "hexVal (hexDigit (unat b mod 16)) = Some (unat b mod 16)"
    by (auto intro: hexVal_digit)
  moreover have "word_of_nat (unat b div 16 * 16 + unat b mod 16) = b"
    by simp
  ultimately show ?case
    using Cons.IH by (simp add: hexEncode_def)
qed (simp add: hexEncode_def)

section \<open>Host and port\<close>

definition addrError :: "string \<Rightarrow> string \<Rightarrow> err" where
  "addrError addr why = ErrText (if addr \<noteq> [] then ''address '' @ addr @ '': '' @ why else why)"

text \<open>The positions of the first and of the last occurrence of a character.\<close>

definition indexByte :: "char \<Rightarrow> string \<Rightarrow> nat option" where
  "indexByte c s = (if c \<in> set s then Some (length (takeWhile (\<lambda>x. x \<noteq> c) s)) else None)"

definition lastIndexByte :: "char \<Rightarrow> string \<Rightarrow> nat option" where
  "lastIndexByte c s = (if c \<in> set s then Some (length s - 1 - length (takeWhile (\<lambda>x. x \<noteq> c) (rev s))) else None)"

text \<open>The last two tests of \<^verbatim>\<open>SplitHostPort\<close> and its result; \<open>j\<close>, \<open>k\<close> and \<open>i\<close> are its positions.\<close>

definition splitRest :: "string \<Rightarrow> string \<Rightarrow> nat \<Rightarrow> nat \<Rightarrow> nat \<Rightarrow> err + string \<times> string" where
  "splitRest hostport host j k i =
     (if CHR ''['' \<in> set (drop j hostport) then Inl (addrError hostport ''unexpected '[' in address'')
      else if CHR '']'' \<in> set (drop k hostport) then Inl (addrError hostport ''unexpected ']' in address'')
      else Inr (host, drop (Suc i) hostport))"

definition splitHostPort :: "string \<Rightarrow> err + string \<times> string" where
  "splitHostPort hostport =
     (case lastIndexByte CHR '':'' hostport of
        None \<Rightarrow> Inl (addrError hostport ''missing port in address'')
      | Some i \<Rightarrow>
          if hd hostport = CHR ''['' then
            (case indexByte CHR '']'' hostport of
               None \<Rightarrow> Inl (addrError hostport ''missing ']' in address'')
             | Some end \<Rightarrow>
                 if end + 1 = length hostport then Inl (addrError hostport ''missing port in address'')
                 else if end + 1 \<noteq> i then
                   (if hostport ! (end + 1) = CHR '':'' then Inl (addrError hostport ''too many colons in address'')
                    else Inl (addrError hostport ''missing port in address''))
                 else splitRest hostport (drop 1 (take end hostport)) 1 (end + 1) i)
          else
            let host = take i hostport in
            if CHR '':'' \<in> set host then Inl (addrError hostport ''too many colons in address'')
            else splitRest hostport host 0 0 i)"

text \<open>What a host and a port joined by a colon split into; a host with colons is put in brackets.\<close>

lemma takeWhile_stop: "x \<notin> set a \<Longrightarrow> takeWhile (\<lambda>y. y \<noteq> x) (a @ x # b) = a"
  by (induction a) auto

lemma lastIndexByte_append:
  assumes "c \<notin> set b"
  shows "lastIndexByte c (a @ c # b) = Some (length a)"
  using assms takeWhile_stop [of c "rev b" "rev a"] by (simp add: lastIndexByte_def)

lemma splitHostPort_plain:
  assumes "set host \<inter> set '':[]'' = {}" "set port \<inter> set '':[]'' = {}"
  shows "splitHostPort (host @ CHR '':'' # port) = Inr (host, port)"
proof -
  have "hd (host @ CHR '':'' # port) \<noteq> CHR ''[''"
    using assms(1) by (cases host) auto
  moreover have "lastIndexByte CHR '':'' (host @ CHR '':'' # port) = Some (length host)"
    using assms(2) by (intro lastIndexByte_append) auto
  ultimately show ?thesis
    using assms by (auto simp: splitHostPort_def splitRest_def)
qed

lemma splitHostPort_bracketed:
  assumes "set host \<inter> set ''[]'' = {}" "set port \<inter> set '':[]'' = {}"
  shows "splitHostPort (CHR ''['' # host @ '']:'' @ port) = Inr (host, port)"
proof -
  let ?s = "CHR ''['' # host @ '']:'' @ port"
  have i: "lastIndexByte CHR '':'' ?s = Some (Suc (Suc (length host)))"
    using lastIndexByte_append [of "CHR '':''" port "CHR ''['' # host @ '']''"] assms(2) by simp
  have e: "indexByte CHR '']'' ?s = Some (Suc (length host))"
    using takeWhile_stop [of "CHR '']''" host "CHR '':'' # port"] assms(1) by (simp add: indexByte_def)
  show ?thesis
    using assms unfolding splitHostPort_def i e by (auto simp: splitRest_def)
qed

text \<open>A host that was split off has no brackets, and the port has no colon.\<close>

lemma splitRest_Inr:
  assumes "splitRest hostport host j k i = Inr (h, p)"
  shows "h = host" "p = drop (Suc i) hostport" "CHR ''['' \<notin> set (drop j hostport)" "CHR '']'' \<notin> set (drop k hostport)"
  using assms by (auto simp: splitRest_def split: if_splits)

lemma splitHostPort_host:
  assumes "splitHostPort s = Inr (h, p)"
  shows "set h \<inter> set ''[]'' = {}"
proof -
  obtain i where i: "lastIndexByte CHR '':'' s = Some i"
    using assms by (auto simp: splitHostPort_def split: option.splits)
  show ?thesis
  proof (cases "hd s = CHR ''[''")
    case True
    then obtain e where e: "indexByte CHR '']'' s = Some e" and r: "splitRest s (drop 1 (take e s)) 1 (e + 1) i = Inr (h, p)"
      using assms i by (auto simp: splitHostPort_def split: option.splits if_splits)
    have "e = length (takeWhile (\<lambda>x. x \<noteq> CHR '']'') s)"
      using e by (auto simp: indexByte_def split: if_splits)
    then have "CHR '']'' \<notin> set (take e s)"
      by (metis (mono_tags, lifting) set_takeWhileD takeWhile_eq_take)
    moreover have "set (drop 1 (take e s)) \<subseteq> set (drop 1 s)"
      by (metis drop_take set_take_subset)
    ultimately show ?thesis
      using splitRest_Inr [OF r] by (auto dest: in_set_dropD)
  next
    case False
    then have r: "splitRest s (take i s) 0 0 i = Inr (h, p)"
      using assms i by (auto simp: splitHostPort_def Let_def split: if_splits)
    then show ?thesis
      using splitRest_Inr [OF r] by (auto dest: in_set_takeD)
  qed
qed

section \<open>Addresses\<close>

text \<open>An IPv4 address in dotted form: four numbers up to 255 without superfluous zeros.\<close>

definition isOctet :: "string \<Rightarrow> bool" where
  "isOctet s \<longleftrightarrow> s \<noteq> [] \<and> list_all isDig s \<and> length s \<le> 3 \<and> horner s 0 \<le> 255 \<and> (hd s = CHR ''0'' \<longrightarrow> length s = 1)"

definition parseIPv4 :: "string \<Rightarrow> bool" where
  "parseIPv4 s \<longleftrightarrow> (let parts = splitOn CHR ''.'' s in length parts = 4 \<and> list_all isOctet parts)"

end
