(* ===== verification/DialOptions.thy ===== *)
theory DialOptions
  imports ArtifactStore GoStrconv
begin

text \<open>
  The options of a dial (\<^verbatim>\<open>src/rpc/dial_options.go\<close>, \<^verbatim>\<open>DialWebRTCOptions\<close> of \<^verbatim>\<open>src/rpc/wrtc_client.go\<close>) and the
  functions that derive options from options: the key under which a connection is cached, the options for
  the signaling server, for the external authentication server and for an address found by mDNS.

  A TLS configuration is what the code sets of it, with the rest opaque.  Interceptors, stats handlers and
  WebRTC configurations are only passed on: they are numbers, and a chain of interceptors is a list.
\<close>

section \<open>The options\<close>

record credentials =
  crType :: string
  crPayload :: string

definition noCredentials :: credentials where
  "noCredentials = \<lparr>crType = [], crPayload = []\<rparr>"

record tls_config =
  tlsMinVersion :: nat
  tlsServerName :: string
  tlsRest :: nat

text \<open>TLS 1.2 is the version \<^verbatim>\<open>0x0303\<close>.\<close>

definition newDefaultTLSConfig :: tls_config where
  "newDefaultTLSConfig = \<lparr>tlsMinVersion = 771, tlsServerName = [], tlsRest = 0\<rparr>"

record dial_webrtc_options =
  woDisable :: bool
  woSignalingInsecure :: bool
  woSignalingServerAddress :: string
  woSignalingAuthEntity :: string
  woSignalingExternalAuthAddress :: string
  woSignalingExternalAuthToEntity :: string
  woSignalingExternalAuthInsecure :: bool
  woSignalingCreds :: credentials
  woSignalingExternalAuthAuthMaterial :: string
  woDisableTrickleICE :: bool
  woConfig :: "nat option"
  woAllowAutoDetectAuthOptions :: bool

record mdns_options =
  moDisable :: bool
  moRemoveAuthCredentials :: bool

record dial_options =
  doInsecure :: bool
  doTLSConfig :: "tls_config option"
  doAllowInsecureDowngrade :: bool
  doAllowInsecureWithCredsDowngrade :: bool
  doAuthEntity :: string
  doCreds :: credentials
  doWebrtcOpts :: dial_webrtc_options
  doWebrtcOptsSet :: bool
  doExternalAuthAddr :: string
  doExternalAuthToEntity :: string
  doExternalAuthInsecure :: bool
  doExternalAuthMaterial :: string
  doAuthMaterial :: string
  doDebug :: bool
  doMdnsOptions :: mdns_options
  doUsingMDNS :: bool
  doDisableDirect :: bool
  doStatsHandler :: "nat option"
  doUnaryInterceptor :: "nat list option"
  doStreamInterceptor :: "nat list option"

definition zeroWebRTCOptions :: dial_webrtc_options where
  "zeroWebRTCOptions =
     \<lparr>woDisable = False, woSignalingInsecure = False, woSignalingServerAddress = [], woSignalingAuthEntity = [],
      woSignalingExternalAuthAddress = [], woSignalingExternalAuthToEntity = [], woSignalingExternalAuthInsecure = False,
      woSignalingCreds = noCredentials, woSignalingExternalAuthAuthMaterial = [], woDisableTrickleICE = False,
      woConfig = None, woAllowAutoDetectAuthOptions = False\<rparr>"

definition zeroDialOptions :: dial_options where
  "zeroDialOptions =
     \<lparr>doInsecure = False, doTLSConfig = None, doAllowInsecureDowngrade = False, doAllowInsecureWithCredsDowngrade = False,
      doAuthEntity = [], doCreds = noCredentials, doWebrtcOpts = zeroWebRTCOptions, doWebrtcOptsSet = False,
      doExternalAuthAddr = [], doExternalAuthToEntity = [], doExternalAuthInsecure = False, doExternalAuthMaterial = [],
      doAuthMaterial = [], doDebug = False, doMdnsOptions = \<lparr>moDisable = False, moRemoveAuthCredentials = False\<rparr>,
      doUsingMDNS = False, doDisableDirect = False, doStatsHandler = None, doUnaryInterceptor = None,
      doStreamInterceptor = None\<rparr>"

section \<open>The option functions\<close>

type_synonym dial_option = "dial_options \<Rightarrow> dial_options"

definition WithInsecure :: dial_option where
  "WithInsecure o' = o'\<lparr>doInsecure := True\<rparr>"

definition WithCredentials :: "credentials \<Rightarrow> dial_option" where
  "WithCredentials creds o' = o'\<lparr>doAuthEntity := [], doCreds := creds\<rparr>"

definition WithEntityCredentials :: "string \<Rightarrow> credentials \<Rightarrow> dial_option" where
  "WithEntityCredentials entity creds o' = o'\<lparr>doAuthEntity := entity, doCreds := creds\<rparr>"

definition WithExternalAuth :: "string \<Rightarrow> string \<Rightarrow> dial_option" where
  "WithExternalAuth addr toEntity o' = o'\<lparr>doExternalAuthAddr := addr, doExternalAuthToEntity := toEntity\<rparr>"

definition WithExternalAuthInsecure :: dial_option where
  "WithExternalAuthInsecure o' = o'\<lparr>doExternalAuthInsecure := True\<rparr>"

definition WithStaticAuthenticationMaterial :: "string \<Rightarrow> dial_option" where
  "WithStaticAuthenticationMaterial authMaterial o' =
     o'\<lparr>doAuthEntity := [], doCreds := noCredentials, doAuthMaterial := authMaterial\<rparr>"

definition WithStaticExternalAuthenticationMaterial :: "string \<Rightarrow> dial_option" where
  "WithStaticExternalAuthenticationMaterial authMaterial o' =
     o'\<lparr>doAuthEntity := [], doCreds := noCredentials, doExternalAuthMaterial := authMaterial\<rparr>"

definition WithTLSConfig :: "tls_config option \<Rightarrow> dial_option" where
  "WithTLSConfig config o' = o'\<lparr>doTLSConfig := config\<rparr>"

definition WithWebRTCOptions :: "dial_webrtc_options \<Rightarrow> dial_option" where
  "WithWebRTCOptions webrtcOpts o' = o'\<lparr>doWebrtcOpts := webrtcOpts, doWebrtcOptsSet := True\<rparr>"

definition WithDialDebug :: dial_option where
  "WithDialDebug o' = o'\<lparr>doDebug := True\<rparr>"

definition WithAllowInsecureDowngrade :: dial_option where
  "WithAllowInsecureDowngrade o' = o'\<lparr>doAllowInsecureDowngrade := True\<rparr>"

definition WithAllowInsecureWithCredentialsDowngrade :: dial_option where
  "WithAllowInsecureWithCredentialsDowngrade o' = o'\<lparr>doAllowInsecureWithCredsDowngrade := True\<rparr>"

definition WithDialMulticastDNSOptions :: "mdns_options \<Rightarrow> dial_option" where
  "WithDialMulticastDNSOptions opts o' = o'\<lparr>doMdnsOptions := opts\<rparr>"

definition WithDisableDirectGRPC :: dial_option where
  "WithDisableDirectGRPC o' = o'\<lparr>doDisableDirect := True\<rparr>"

definition WithDialStatsHandler :: "nat option \<Rightarrow> dial_option" where
  "WithDialStatsHandler handler o' = o'\<lparr>doStatsHandler := handler\<rparr>"

definition WithUnaryClientInterceptor :: "nat \<Rightarrow> dial_option" where
  "WithUnaryClientInterceptor interceptor o' =
     (case doUnaryInterceptor o' of
        Some chain \<Rightarrow> o'\<lparr>doUnaryInterceptor := Some (chain @ [interceptor])\<rparr>
      | None \<Rightarrow> o'\<lparr>doUnaryInterceptor := Some [interceptor]\<rparr>)"

definition WithStreamClientInterceptor :: "nat \<Rightarrow> dial_option" where
  "WithStreamClientInterceptor interceptor o' =
     (case doStreamInterceptor o' of
        Some chain \<Rightarrow> o'\<lparr>doStreamInterceptor := Some (chain @ [interceptor])\<rparr>
      | None \<Rightarrow> o'\<lparr>doStreamInterceptor := Some [interceptor]\<rparr>)"

definition setWebrtcDisable :: "bool \<Rightarrow> dial_option" where
  "setWebrtcDisable b o' = o'\<lparr>doWebrtcOpts := (doWebrtcOpts o')\<lparr>woDisable := b\<rparr>\<rparr>"

definition setMdnsDisable :: "bool \<Rightarrow> dial_option" where
  "setMdnsDisable b o' = o'\<lparr>doMdnsOptions := (doMdnsOptions o')\<lparr>moDisable := b\<rparr>\<rparr>"

definition WithForceDirectGRPC :: dial_option where
  "WithForceDirectGRPC o' = (setWebrtcDisable True (setMdnsDisable True o'))\<lparr>doDisableDirect := False\<rparr>"

definition applyOptions :: "dial_option list \<Rightarrow> dial_options" where
  "applyOptions opts = fold (\<lambda>opt o'. opt o') opts zeroDialOptions"

section \<open>The cache key\<close>

definition stringBytes :: "string \<Rightarrow> bytes" where
  "stringBytes s = map (\<lambda>c. word_of_nat (of_char c)) s"

text \<open>The hasher is what was written to it.\<close>

definition hashWrite :: "string \<Rightarrow> bytes \<Rightarrow> bytes" where
  "hashWrite s hasher = (if s \<noteq> [] then hasher @ stringBytes s else hasher)"

definition keyFields :: "dial_options \<Rightarrow> string list" where
  "keyFields o' =
     (let w = doWebrtcOpts o' in
      [doAuthEntity o', crType (doCreds o'), crPayload (doCreds o'), doExternalAuthAddr o', doExternalAuthToEntity o',
       doExternalAuthMaterial o', woSignalingServerAddress w, woSignalingExternalAuthAddress w,
       woSignalingExternalAuthToEntity w, woSignalingExternalAuthAuthMaterial w, crType (woSignalingCreds w),
       crPayload (woSignalingCreds w)])"

definition cacheKey :: "dial_options \<Rightarrow> string" where
  "cacheKey o' = hexString (fnv128a (fold hashWrite (keyFields o') []))"

section \<open>Derived options\<close>

text \<open>\<^verbatim>\<open>fmt.Sprintf("%s:%d", target, port)\<close>.\<close>

definition hostPort :: "string \<Rightarrow> nat \<Rightarrow> string" where
  "hostPort target port = target @ CHR '':'' # decimal port"

definition getWebRTCTargetFromAddressWithDefaults :: "string \<Rightarrow> err + string \<times> nat" where
  "getWebRTCTargetFromAddressWithDefaults signalingAddress =
     (if strContains signalingAddress '':'' then
        (case splitHostPort signalingAddress of
           Inl e \<Rightarrow> Inl e
         | Inr (host, portStr) \<Rightarrow>
             let target = (if strContains host '':'' then ''['' @ host @ '']'' else host) in
             (case parseUint 16 portStr of
                Inl e \<Rightarrow> Inl e
              | Inr port \<Rightarrow> Inr (target, port)))
      else Inr (signalingAddress, 443))"

text \<open>A field that is set is kept.\<close>

definition orElse :: "string \<Rightarrow> string \<Rightarrow> string" where
  "orElse s t = (if s = [] then t else s)"

definition fixupWebRTCOptions :: "string \<Rightarrow> nat \<Rightarrow> dial_options \<Rightarrow> dial_options" where
  "fixupWebRTCOptions target port o' =
     (let w = (doWebrtcOpts o')\<lparr>woSignalingServerAddress := hostPort target port\<rparr>;
          w = w\<lparr>woSignalingInsecure := (if \<not> doWebrtcOptsSet o' then doInsecure o' else woSignalingInsecure w),
                woSignalingExternalAuthInsecure :=
                  (if \<not> doWebrtcOptsSet o' then doExternalAuthInsecure o' else woSignalingExternalAuthInsecure w)\<rparr>;
          w = w\<lparr>woSignalingExternalAuthAddress := orElse (woSignalingExternalAuthAddress w) (doExternalAuthAddr o')\<rparr>;
          w = w\<lparr>woSignalingExternalAuthToEntity := orElse (woSignalingExternalAuthToEntity w) (doExternalAuthToEntity o')\<rparr>;
          w = w\<lparr>woSignalingExternalAuthAuthMaterial := orElse (woSignalingExternalAuthAuthMaterial w) (doExternalAuthMaterial o')\<rparr>;
          w = w\<lparr>woSignalingAuthEntity := orElse (woSignalingAuthEntity w) (doAuthEntity o')\<rparr>;
          w = w\<lparr>woSignalingCreds := (if crType (woSignalingCreds w) = [] then doCreds o' else woSignalingCreds w)\<rparr>
      in o'\<lparr>doWebrtcOpts := w\<rparr>)"

text \<open>The options of the goroutine that tries WebRTC; an error ends it and forbids the direct dial.\<close>

definition webrtcOptions :: "string \<Rightarrow> dial_options \<Rightarrow> err + dial_options" where
  "webrtcOptions address o' =
     (let signalingAddress = woSignalingServerAddress (doWebrtcOpts o') in
      if signalingAddress = [] \<or> woAllowAutoDetectAuthOptions (doWebrtcOpts o') then
        let signalingAddress = (if signalingAddress = [] then address else signalingAddress) in
        (case getWebRTCTargetFromAddressWithDefaults signalingAddress of
           Inl e \<Rightarrow> Inl e
         | Inr (target, port) \<Rightarrow>
             let o' = fixupWebRTCOptions target port o' in
             Inr (if \<not> doUsingMDNS o' \<and> doAuthMaterial o' = [] \<and> woSignalingExternalAuthAuthMaterial (doWebrtcOpts o') \<noteq> []
                  then o'\<lparr>doAuthMaterial := woSignalingExternalAuthAuthMaterial (doWebrtcOpts o'), doCreds := noCredentials\<rparr>
                  else o'))
      else Inr o')"

text \<open>The entity a dial authenticates as when none is given: in \<^verbatim>\<open>dialInner\<close> and in \<^verbatim>\<open>dialSignalingServer\<close>.\<close>

definition defaultEntity :: "string \<Rightarrow> dial_options \<Rightarrow> dial_options" where
  "defaultEntity address o' =
     (if doAuthEntity o' = [] then
        (if doExternalAuthAddr o' = [] then o'\<lparr>doAuthEntity := address\<rparr> else o'\<lparr>doAuthEntity := doExternalAuthAddr o'\<rparr>)
      else o')"

definition signalingOptions :: "string \<Rightarrow> dial_options \<Rightarrow> dial_options" where
  "signalingOptions host o' =
     (let w = doWebrtcOpts o' in
      defaultEntity host
        (o'\<lparr>doInsecure := woSignalingInsecure w, doAuthEntity := woSignalingAuthEntity w, doCreds := woSignalingCreds w,
           doExternalAuthAddr := woSignalingExternalAuthAddress w, doExternalAuthToEntity := woSignalingExternalAuthToEntity w,
           doExternalAuthInsecure := woSignalingExternalAuthInsecure w,
           doExternalAuthMaterial := woSignalingExternalAuthAuthMaterial w\<rparr>))"

definition externalAuthOptions :: "dial_options \<Rightarrow> dial_options" where
  "externalAuthOptions o' =
     o'\<lparr>doExternalAuthAddr := [], doInsecure := doExternalAuthInsecure o', doExternalAuthMaterial := [],
       doCreds := noCredentials, doAuthEntity := [], doTLSConfig := Some newDefaultTLSConfig\<rparr>"

text \<open>An entry that mDNS found: its text fields, its IPv4 addresses and its port.\<close>

record service_entry =
  seText :: "string list"
  seAddrIPv4 :: "string list"
  sePort :: int
  seServiceName :: string

definition entryHas :: "string \<Rightarrow> service_entry \<Rightarrow> bool" where
  "entryHas what entry = list_ex (\<lambda>field. strContains field what) (seText entry)"

definition mdnsDialOptions :: "string \<Rightarrow> service_entry \<Rightarrow> dial_options \<Rightarrow> dial_options" where
  "mdnsDialOptions address entry o' =
     (let o' = o'\<lparr>doUsingMDNS := True\<rparr>;
          remove = moRemoveAuthCredentials (doMdnsOptions o');
          o' = (if remove then
                  o'\<lparr>doCreds := noCredentials, doAuthEntity := [], doExternalAuthToEntity := [], doExternalAuthMaterial := []\<rparr>
                else o');
          o' = (if entryHas ''webrtc'' entry then
                  let o' = fixupWebRTCOptions (hd (seAddrIPv4 entry)) (nat (sePort entry mod 2 ^ 16)) o' in
                  if remove then
                    o'\<lparr>doWebrtcOpts := (doWebrtcOpts o')\<lparr>woSignalingAuthEntity := [], woSignalingCreds := noCredentials,
                       woSignalingExternalAuthAuthMaterial := []\<rparr>\<rparr>
                  else o'
                else setWebrtcDisable True o');
          tls = (case doTLSConfig o' of None \<Rightarrow> newDefaultTLSConfig | Some t \<Rightarrow> t)
      in o'\<lparr>doTLSConfig := Some (tls\<lparr>tlsServerName := address\<rparr>)\<rparr>)"

section \<open>Signaling addresses\<close>

lemma strContains_char: "strContains s [c] \<longleftrightarrow> c \<in> set s"
  by (auto simp: strContains_sublist sublist_def in_set_conv_decomp)

lemma decimal_plain: "set (decimal n) \<inter> set '':[]'' = {}"
  using decimal_digits [of _ n] by (fastforce simp: isDig_def)

lemma target_parses:
  assumes "set host \<inter> set ''[]'' = {}" "port < 2 ^ 16"
  shows "getWebRTCTargetFromAddressWithDefaults
    (hostPort (if strContains host '':'' then ''['' @ host @ '']'' else host) port) =
      Inr (if strContains host '':'' then ''['' @ host @ '']'' else host, port)"
proof (cases "CHR '':'' \<in> set host")
  case True
  then show ?thesis
    using splitHostPort_bracketed [OF assms(1) decimal_plain] parseUint_decimal [OF assms(2)]
    by (simp add: getWebRTCTargetFromAddressWithDefaults_def hostPort_def strContains_char)
next
  case False
  then have "set host \<inter> set '':[]'' = {}"
    using assms(1) by auto
  then show ?thesis
    using False splitHostPort_plain [OF _ decimal_plain] parseUint_decimal [OF assms(2)]
    by (simp add: getWebRTCTargetFromAddressWithDefaults_def hostPort_def strContains_char)
qed

text \<open>
  C37.  The signaling address that \<open>fixupWebRTCOptions\<close> writes for a detected target is read back as the same
  target and port, with the brackets of an IPv6 host and the default port 443 in place, so detecting
  the options a second time changes nothing.  An address without a port must not hold brackets.
\<close>

theorem signaling_address_stable:
  assumes "getWebRTCTargetFromAddressWithDefaults address = Inr (target, port)"
    and "CHR '':'' \<in> set address \<or> set address \<inter> set ''[]'' = {}"
  shows "getWebRTCTargetFromAddressWithDefaults (woSignalingServerAddress (doWebrtcOpts (fixupWebRTCOptions target port o'))) =
      Inr (target, port) \<and>
    port < 2 ^ 16"
proof -
  have w: "woSignalingServerAddress (doWebrtcOpts (fixupWebRTCOptions target port o')) = hostPort target port"
    by (simp add: fixupWebRTCOptions_def Let_def)
  show ?thesis
  proof (cases "CHR '':'' \<in> set address")
    case True
    then obtain host portStr where s: "splitHostPort address = Inr (host, portStr)" "parseUint 16 portStr = Inr port"
      "target = (if strContains host '':'' then ''['' @ host @ '']'' else host)"
      using assms(1)
      by (auto simp: getWebRTCTargetFromAddressWithDefaults_def strContains_char Let_def split: sum.splits)
    show ?thesis
      using target_parses [OF splitHostPort_host [OF s(1)] parseUint_bound [OF s(2)]] parseUint_bound [OF s(2)] s(3) w by simp
  next
    case False
    then have "target = address" "port = 443"
      using assms(1) by (simp_all add: getWebRTCTargetFromAddressWithDefaults_def strContains_char)
    then show ?thesis
      using target_parses [of address 443] False assms(2) w by (simp add: strContains_char)
  qed
qed

theorem signaling_address_stable_witness:
  "getWebRTCTargetFromAddressWithDefaults
     (woSignalingServerAddress (doWebrtcOpts (fixupWebRTCOptions ''[::1]'' 8080 zeroDialOptions))) = Inr (''[::1]'', 8080)"
proof -
  have "getWebRTCTargetFromAddressWithDefaults (hostPort ''[::1]'' 8080) = Inr (''[::1]'', 8080)"
    using target_parses [of "''::1''" 8080] by (simp add: strContains_char)
  then show ?thesis
    using signaling_address_stable [of "hostPort ''[::1]'' 8080" "''[::1]''" 8080 zeroDialOptions] by (simp add: hostPort_def)
qed

section \<open>What the derived options keep and drop\<close>

text \<open>
  The key does not see the static authentication material of a dial, nor its transport security, so dials that
  differ in these share a connection; and the fields run into each other.
\<close>

lemma cacheKey_ignores_material: "cacheKey (o'\<lparr>doAuthMaterial := x, doInsecure := y\<rparr>) = cacheKey o'"
  by (simp add: cacheKey_def keyFields_def Let_def)

lemma cacheKey_fields_run_together:
  "cacheKey (WithEntityCredentials ''ab'' \<lparr>crType = ''c'', crPayload = p\<rparr> o') = cacheKey (WithEntityCredentials ''a'' \<lparr>crType = ''bc'', crPayload = p\<rparr> o')"
  by (simp add: cacheKey_def keyFields_def Let_def WithEntityCredentials_def hashWrite_def stringBytes_def)

text \<open>Removing the credentials of a dial found by mDNS keeps the static authentication material.\<close>

lemma mdns_removal_keeps_material:
  assumes "moRemoveAuthCredentials (doMdnsOptions o')"
  shows "doCreds (mdnsDialOptions address entry o') = noCredentials" "doAuthEntity (mdnsDialOptions address entry o') = []"
    "doExternalAuthMaterial (mdnsDialOptions address entry o') = []"
    "doAuthMaterial (mdnsDialOptions address entry o') = doAuthMaterial o'"
  using assms by (simp_all add: mdnsDialOptions_def Let_def fixupWebRTCOptions_def setWebrtcDisable_def)

end
