(* ===== verification/DirectDial.thy ===== *)
theory DirectDial
  imports DialOptions GoErrors
begin

text \<open>
  Dialing a gRPC server directly: \<^verbatim>\<open>dialDirectGRPC\<close>, \<^verbatim>\<open>dialExternalAuthEntity\<close> and \<^verbatim>\<open>dialFunc\<close> of
  \<^verbatim>\<open>src/rpc/dialer.go\<close> and \<^verbatim>\<open>dialSignalingServer\<close> of \<^verbatim>\<open>src/rpc/wrtc_client.go\<close>.

  What \<^verbatim>\<open>grpc.DialContext\<close> is asked for is a \<open>grpc_plan\<close>; whether it and the probing TLS dial succeed is the
  environment's, which may answer each attempt differently.  The world holds the connections made so far,
  gRPC connections with the address and plan of each and WebRTC channels, and the connections closed.  A dialer in the context is an
  implementation of the interface \<^verbatim>\<open>Dialer\<close>: its operations are functions on the world.
\<close>

section \<open>Connections\<close>

datatype transport = Plaintext | WithTLS tls_config

record jwt_creds_plan =
  jpEntity :: string
  jpCreds :: credentials
  jpExternalAuthMaterial :: string
  jpExternalAuthToEntity :: string

datatype rpc_auth = NoAuth | StaticAuth string | JWTAuth jwt_creds_plan

datatype interceptor = ZapInterceptor | TracingInterceptor | UserInterceptor "nat list" | InvalidAuthInterceptor

record grpc_plan =
  gpTransport :: transport
  gpAuth :: rpc_auth
  gpStats :: "nat option"
  gpUnary :: "interceptor list"
  gpStream :: "interceptor list"

text \<open>
  The values of the interface \<^verbatim>\<open>ClientConn\<close>.  The connection that \<open>AuthConn\<close> authenticates over is itself, or the
  external one closed with it.
\<close>

datatype client_conn =
    GrpcConn nat
  | CloseFuncConn client_conn client_conn
  | AuthConn client_conn jwt_creds_plan
  | DialerConn nat
  | ChannelConn nat

datatype made_conn = MadeGrpc string grpc_plan | MadeChannel string

record dial_world =
  dwConns :: "made_conn list"
  dwClosed :: "nat list"

record dialer_iface =
  diDialDirect :: "string \<Rightarrow> string \<Rightarrow> client_conn option \<Rightarrow> grpc_plan \<Rightarrow> dial_world \<Rightarrow> (err + client_conn \<times> bool) \<times> dial_world"
  diDialFunc :: "string \<Rightarrow> string \<Rightarrow> string \<Rightarrow> (dial_world \<Rightarrow> (err + client_conn) \<times> dial_world) \<Rightarrow> dial_world \<Rightarrow>
    (err + client_conn \<times> bool) \<times> dial_world"
  diClose :: "nat \<Rightarrow> dial_world \<Rightarrow> err option \<times> dial_world"

record dial_env =
  deErr :: err_env
  deProbe :: "dial_world \<Rightarrow> string \<Rightarrow> tls_config \<Rightarrow> err option"
  deGrpcDial :: "dial_world \<Rightarrow> string \<Rightarrow> grpc_plan \<Rightarrow> err option"
  deCloseErr :: "nat \<Rightarrow> err option"
  deDialer :: "dialer_iface option"

text \<open>\<^verbatim>\<open>Close\<close> of each kind of connection; that of a WebRTC channel is the subject of another theory.\<close>

fun closeConn :: "dial_env \<Rightarrow> client_conn \<Rightarrow> dial_world \<Rightarrow> err option \<times> dial_world" where
  "closeConn env (GrpcConn i) w = (deCloseErr env i, w\<lparr>dwClosed := dwClosed w @ [i]\<rparr>)"
| "closeConn env (CloseFuncConn c x) w =
     (case closeConn env c w of (e1, w1) \<Rightarrow>
      case closeConn env x w1 of (e2, w2) \<Rightarrow> (merrCombine (deErr env) [e1, e2], w2))"
| "closeConn env (AuthConn c p) w = closeConn env c w"
| "closeConn env (DialerConn i) w = (case deDialer env of None \<Rightarrow> (None, w) | Some d \<Rightarrow> diClose d i w)"
| "closeConn env (ChannelConn i) w = (None, w\<lparr>dwClosed := dwClosed w @ [i]\<rparr>)"

section \<open>Transport security\<close>

definition ErrInsecureWithCredentials :: err where
  "ErrInsecureWithCredentials = ErrText ''requested address is insecure and will not send credentials''"

definition notTLSText :: string where
  "notTLSText = ''tls: first record does not look like a TLS handshake''"

definition chooseTransport :: "dial_env \<Rightarrow> string \<Rightarrow> dial_options \<Rightarrow> dial_world \<Rightarrow> err + transport" where
  "chooseTransport env address o' w =
     (if doInsecure o' then Inr Plaintext
      else
        let tlsConfig = (case doTLSConfig o' of None \<Rightarrow> newDefaultTLSConfig | Some t \<Rightarrow> t) in
        if doAllowInsecureDowngrade o' \<or> doAllowInsecureWithCredsDowngrade o' then
          (case deProbe env w address tlsConfig of
             None \<Rightarrow> Inr (WithTLS tlsConfig)
           | Some e \<Rightarrow>
               if strContains (errText (deErr env) e) notTLSText then
                 let hasLocalCreds = (crType (doCreds o') \<noteq> [] \<and> doExternalAuthAddr o' = []) in
                 if crType (doCreds o') = [] \<or> \<not> hasLocalCreds \<or> doAllowInsecureWithCredsDowngrade o' then Inr Plaintext
                 else if hasLocalCreds then Inl ErrInsecureWithCredentials
                 else Inr (WithTLS tlsConfig)
               else Inr (WithTLS tlsConfig))
        else Inr (WithTLS tlsConfig))"

section \<open>The direct dial\<close>

text \<open>\<^verbatim>\<open>multierr.Combine\<close> of an error and what may be another one.\<close>

definition combineErr :: "err_env \<Rightarrow> err \<Rightarrow> err option \<Rightarrow> err" where
  "combineErr E e x = (case merrCombine E [Some e, x] of None \<Rightarrow> e | Some y \<Rightarrow> y)"

definition jwtPlan :: "dial_options \<Rightarrow> jwt_creds_plan" where
  "jwtPlan o' =
     \<lparr>jpEntity = doAuthEntity o', jpCreds = doCreds o', jpExternalAuthMaterial = doExternalAuthMaterial o',
      jpExternalAuthToEntity = (if doExternalAuthAddr o' \<noteq> [] then doExternalAuthToEntity o' else [])\<rparr>"

definition directAuth :: "dial_options \<Rightarrow> rpc_auth" where
  "directAuth o' =
     (if doAuthMaterial o' \<noteq> [] then StaticAuth (doAuthMaterial o')
      else if crType (doCreds o') \<noteq> [] \<or> doExternalAuthMaterial o' \<noteq> [] then JWTAuth (jwtPlan o')
      else NoAuth)"

definition directPlan :: "transport \<Rightarrow> dial_options \<Rightarrow> grpc_plan" where
  "directPlan tr o' =
     \<lparr>gpTransport = tr, gpAuth = directAuth o', gpStats = doStatsHandler o',
      gpUnary = [ZapInterceptor, TracingInterceptor] @
        (case doUnaryInterceptor o' of None \<Rightarrow> [] | Some i \<Rightarrow> [UserInterceptor i]) @
        (case directAuth o' of JWTAuth p \<Rightarrow> [InvalidAuthInterceptor] | _ \<Rightarrow> []),
      gpStream = [ZapInterceptor, TracingInterceptor] @
        (case doStreamInterceptor o' of None \<Rightarrow> [] | Some i \<Rightarrow> [UserInterceptor i])\<rparr>"

text \<open>\<^verbatim>\<open>grpc.DialContext\<close>: a new connection or an error.\<close>

definition grpcDialContext :: "dial_env \<Rightarrow> string \<Rightarrow> grpc_plan \<Rightarrow> dial_world \<Rightarrow> (err + client_conn) \<times> dial_world" where
  "grpcDialContext env address plan w =
     (case deGrpcDial env w address plan of
        Some e \<Rightarrow> (Inl e, w)
      | None \<Rightarrow> (Inr (GrpcConn (length (dwConns w))), w\<lparr>dwConns := dwConns w @ [MadeGrpc address plan]\<rparr>))"

text \<open>The part of \<^verbatim>\<open>dialDirectGRPC\<close> after the options are built; \<open>ext\<close> is the external connection, if there is one.\<close>

definition dialPlan ::
  "dial_env \<Rightarrow> string \<Rightarrow> dial_options \<Rightarrow> grpc_plan \<Rightarrow> client_conn option \<Rightarrow> dial_world \<Rightarrow> (err + client_conn \<times> bool) \<times> dial_world" where
  "dialPlan env address o' plan ext w =
     (case (case deDialer env of
              Some d \<Rightarrow> diDialDirect d address (cacheKey o') ext plan w
            | None \<Rightarrow>
                (case grpcDialContext env address plan w of
                   (Inl e, w1) \<Rightarrow> (Inl e, w1)
                 | (Inr c, w1) \<Rightarrow> (Inr (case ext of None \<Rightarrow> c | Some x \<Rightarrow> CloseFuncConn c x, False), w1))) of
        (Inl e, w1) \<Rightarrow>
          (case ext of
             None \<Rightarrow> (Inl e, w1)
           | Some x \<Rightarrow>
               (case closeConn env x w1 of (e2, w2) \<Rightarrow>
                  (Inl (combineErr (deErr env) e e2), w2)))
      | (Inr (conn, cached), w1) \<Rightarrow>
          (Inr (case gpAuth plan of JWTAuth p \<Rightarrow> AuthConn conn p | _ \<Rightarrow> conn, cached), w1))"

function dialDirectGRPC ::
  "dial_env \<Rightarrow> string \<Rightarrow> dial_options \<Rightarrow> dial_world \<Rightarrow> (err + client_conn \<times> bool) \<times> dial_world" where
  "dialDirectGRPC env address o' w =
     (case chooseTransport env address o' w of
        Inl e \<Rightarrow> (Inl e, w)
      | Inr tr \<Rightarrow>
          (case directAuth o' of
             JWTAuth p \<Rightarrow>
               if doExternalAuthAddr o' \<noteq> [] then
                 (if doExternalAuthToEntity o' = [] then
                    (Inl (ErrText ''external auth address set but no authenticate to option set''), w)
                  else
                    (case dialDirectGRPC env (doExternalAuthAddr o') (externalAuthOptions o') w of
                       (Inl e, w1) \<Rightarrow> (Inl e, w1)
                     | (Inr (x, _), w1) \<Rightarrow> dialPlan env address o' (directPlan tr o') (Some x) w1))
               else dialPlan env address o' (directPlan tr o') None w
           | _ \<Rightarrow> dialPlan env address o' (directPlan tr o') None w))"
  by pat_completeness auto
termination
  by (relation "measure (\<lambda>(env, address, o', w). length (doExternalAuthAddr o'))") (auto simp: externalAuthOptions_def)

declare dialDirectGRPC.simps [simp del]

definition dialExternalAuthEntity :: "dial_env \<Rightarrow> dial_options \<Rightarrow> dial_world \<Rightarrow> (err + client_conn) \<times> dial_world" where
  "dialExternalAuthEntity env o' w =
     (if doExternalAuthToEntity o' = [] then
        (Inl (ErrText ''external auth address set but no authenticate to option set''), w)
      else case dialDirectGRPC env (doExternalAuthAddr o') (externalAuthOptions o') w of
        (Inl e, w1) \<Rightarrow> (Inl e, w1)
      | (Inr (x, _), w1) \<Rightarrow> (Inr x, w1))"

text \<open>The dial as the source has it, with \<^verbatim>\<open>dialExternalAuthEntity\<close> called by name.\<close>

lemma dialDirectGRPC_eq:
  "dialDirectGRPC env address o' w =
     (case chooseTransport env address o' w of
        Inl e \<Rightarrow> (Inl e, w)
      | Inr tr \<Rightarrow>
          (case directAuth o' of
             JWTAuth p \<Rightarrow>
               if doExternalAuthAddr o' \<noteq> [] then
                 (case dialExternalAuthEntity env o' w of
                    (Inl e, w1) \<Rightarrow> (Inl e, w1)
                  | (Inr x, w1) \<Rightarrow> dialPlan env address o' (directPlan tr o') (Some x) w1)
               else dialPlan env address o' (directPlan tr o') None w
           | _ \<Rightarrow> dialPlan env address o' (directPlan tr o') None w))"
  by (subst dialDirectGRPC.simps) (auto simp: dialExternalAuthEntity_def split: sum.splits rpc_auth.splits prod.splits)

definition dialSignalingServer ::
  "dial_env \<Rightarrow> string \<Rightarrow> string \<Rightarrow> dial_options \<Rightarrow> dial_world \<Rightarrow> (err + client_conn) \<times> dial_world" where
  "dialSignalingServer env signalingServer host o' w =
     (case dialDirectGRPC env signalingServer (signalingOptions host o') w of
        (Inl e, w1) \<Rightarrow> (Inl e, w1)
      | (Inr (c, _), w1) \<Rightarrow> (Inr c, w1))"

text \<open>\<^verbatim>\<open>dialFunc\<close>: through the dialer of the context, or as it is.\<close>

definition dialFunc ::
  "dial_env \<Rightarrow> string \<Rightarrow> string \<Rightarrow> string \<Rightarrow> (dial_world \<Rightarrow> (err + client_conn) \<times> dial_world) \<Rightarrow> dial_world \<Rightarrow>
    (err + client_conn \<times> bool) \<times> dial_world" where
  "dialFunc env proto target keyExtra f w =
     (case deDialer env of
        Some d \<Rightarrow> diDialFunc d proto target keyExtra f w
      | None \<Rightarrow>
          (case f w of
             (Inl e, w1) \<Rightarrow> (Inl e, w1)
           | (Inr c, w1) \<Rightarrow> (Inr (c, False), w1)))"

section \<open>No connection is left behind\<close>

primrec heldBy :: "client_conn \<Rightarrow> nat list" where
  "heldBy (GrpcConn i) = [i]"
| "heldBy (CloseFuncConn c x) = heldBy c @ heldBy x"
| "heldBy (AuthConn c p) = heldBy c"
| "heldBy (DialerConn i) = []"
| "heldBy (ChannelConn i) = [i]"

definition openConns :: "dial_world \<Rightarrow> nat set" where
  "openConns w = {..<length (dwConns w)} - set (dwClosed w)"

definition wfWorld :: "dial_world \<Rightarrow> bool" where
  "wfWorld w \<longleftrightarrow> set (dwClosed w) \<subseteq> {..<length (dwConns w)}"

lemma closeConn_world:
  "deDialer env = None \<Longrightarrow> snd (closeConn env c w) = w\<lparr>dwClosed := dwClosed w @ heldBy c\<rparr>"
  by (induction c arbitrary: w) (auto simp: split_beta)

text \<open>
  The contract of a dial that returns a connection: the world grows by the connections it made, and those
  still open are the ones the result holds.
\<close>

definition dialKeeps :: "dial_world \<Rightarrow> nat set \<Rightarrow> dial_world \<Rightarrow> bool" where
  "dialKeeps w H w' \<longleftrightarrow>
     prefix (dwConns w) (dwConns w') \<and> wfWorld w' \<and> H \<subseteq> {length (dwConns w)..<length (dwConns w')} \<and>
     openConns w' = openConns w \<union> H"

definition resultHolds :: "err + client_conn \<times> bool \<Rightarrow> nat set" where
  "resultHolds r = (case r of Inl e \<Rightarrow> {} | Inr (c, cached) \<Rightarrow> set (heldBy c))"

lemma dialKeeps_refl: "wfWorld w \<Longrightarrow> dialKeeps w {} w"
  by (simp add: dialKeeps_def)

lemma dialKeeps_close:
  assumes "deDialer env = None" "dialKeeps w (set (heldBy c) \<union> H) w'" "H \<inter> set (heldBy c) = {}"
  shows "dialKeeps w H (snd (closeConn env c w'))"
  using assms by (auto simp: dialKeeps_def closeConn_world wfWorld_def openConns_def)

lemma dialKeeps_made:
  assumes "dialKeeps w H w'"
  shows "dialKeeps w (insert (length (dwConns w')) H) (w'\<lparr>dwConns := dwConns w' @ [m]\<rparr>)"
  using assms by (auto simp: dialKeeps_def wfWorld_def openConns_def prefix_def lessThan_Suc)

lemma dialPlan_keeps:
  assumes "deDialer env = None" "dialKeeps w (case ext of None \<Rightarrow> {} | Some x \<Rightarrow> set (heldBy x)) w1"
    and "dialPlan env address o' plan ext w1 = (r, w')"
  shows "dialKeeps w (resultHolds r) w'"
proof (cases "deGrpcDial env w1 address plan")
  case (Some e)
  show ?thesis
  proof (cases ext)
    case None
    then show ?thesis
      using assms Some by (auto simp: dialPlan_def grpcDialContext_def resultHolds_def)
  next
    case x: (Some x)
    obtain e2 w2 where c: "closeConn env x w1 = (e2, w2)"
      by fastforce
    then have "dialKeeps w {} w2"
      using dialKeeps_close [OF assms(1), of w x "{}" w1] assms(2) x by simp
    then show ?thesis
      using assms(1,3) Some x c by (auto simp: dialPlan_def grpcDialContext_def resultHolds_def)
  qed
next
  case None
  then have "w' = w1\<lparr>dwConns := dwConns w1 @ [MadeGrpc address plan]\<rparr>"
    and "resultHolds r = insert (length (dwConns w1)) (case ext of None \<Rightarrow> {} | Some x \<Rightarrow> set (heldBy x))"
    using assms(1,3) by (auto simp: dialPlan_def grpcDialContext_def resultHolds_def split: option.splits rpc_auth.splits)
  then show ?thesis
    using dialKeeps_made [OF assms(2)] by simp
qed

text \<open>The external dial has no external dial of its own, so two unfoldings are enough.\<close>

lemma dialExternalAuthEntity_keeps:
  assumes "wfWorld w" "dialExternalAuthEntity env o' w = (r1, w1)"
    and ext: "\<And>r2 w2. dialDirectGRPC env (doExternalAuthAddr o') (externalAuthOptions o') w = (r2, w2) \<Longrightarrow> dialKeeps w (resultHolds r2) w2"
  shows "dialKeeps w (case r1 of Inl _ \<Rightarrow> {} | Inr x \<Rightarrow> set (heldBy x)) w1"
proof -
  obtain r2 w2 where d: "dialDirectGRPC env (doExternalAuthAddr o') (externalAuthOptions o') w = (r2, w2)"
    by fastforce
  show ?thesis
    using assms(1,2) ext [OF d] d
    by (auto simp: dialExternalAuthEntity_def resultHolds_def dialKeeps_refl split: if_splits sum.splits)
qed

lemma dialDirectGRPC_step:
  assumes "deDialer env = None" "wfWorld w" "dialDirectGRPC env address o' w = (r, w')"
    and ext: "\<And>r1 w1. doExternalAuthAddr o' \<noteq> [] \<Longrightarrow>
      dialDirectGRPC env (doExternalAuthAddr o') (externalAuthOptions o') w = (r1, w1) \<Longrightarrow> dialKeeps w (resultHolds r1) w1"
  shows "dialKeeps w (resultHolds r) w'"
proof -
  have failed: ?thesis if "r = Inl e" "w' = w" for e
    using that assms(2) by (simp add: resultHolds_def dialKeeps_refl)
  have plain: ?thesis if "dialPlan env address o' plan None w = (r, w')" for plan
    by (rule dialPlan_keeps [OF assms(1) _ that]) (simp add: assms(2) dialKeeps_refl)
  show ?thesis
  proof (cases "chooseTransport env address o' w")
    case (Inl e)
    then show ?thesis
      using assms(3) failed by (auto simp: dialDirectGRPC_eq)
  next
    case (Inr tr)
    note dial = assms(3) [unfolded dialDirectGRPC_eq [of env address] Inr, simplified]
    show ?thesis
    proof (cases "(\<exists>p. directAuth o' = JWTAuth p) \<and> doExternalAuthAddr o' \<noteq> []")
      case False
      then show ?thesis
        using dial plain by (auto split: rpc_auth.splits)
    next
      case True
      obtain r1 w1 where e: "dialExternalAuthEntity env o' w = (r1, w1)"
        by fastforce
      then have k: "dialKeeps w (case r1 of Inl _ \<Rightarrow> {} | Inr x \<Rightarrow> set (heldBy x)) w1"
        by (rule dialExternalAuthEntity_keeps [OF assms(2)]) (use ext True in blast)
      show ?thesis
      proof (cases r1)
        case (Inl e1)
        then show ?thesis
          using dial True e k by (auto simp: resultHolds_def)
      next
        case (Inr x)
        then have "dialPlan env address o' (directPlan tr o') (Some x) w1 = (r, w')"
          using dial True e by auto
        then show ?thesis
          by (rule dialPlan_keeps [OF assms(1), rotated]) (use k Inr in simp)
      qed
    qed
  qed
qed

lemma dialDirectGRPC_keeps:
  assumes "deDialer env = None" "wfWorld w" "dialDirectGRPC env address o' w = (r, w')"
  shows "dialKeeps w (resultHolds r) w'"
  by (rule dialDirectGRPC_step [OF assms])
    (erule dialDirectGRPC_step [OF assms(1,2)], simp add: externalAuthOptions_def)

text \<open>
  A direct dial without a dialer in the context leaves no connection behind: when it fails, the open
  connections are those before it, whatever was dialed for external authentication; when it succeeds,
  closing the one connection it returns closes everything it opened.
\<close>

lemma direct_dial_leaks_nothing:
  assumes "deDialer env = None" "wfWorld w" "dialDirectGRPC env address o' w = (r, w')"
  shows "case r of
      Inl e \<Rightarrow> openConns w' = openConns w
    | Inr (c, cached) \<Rightarrow> openConns (snd (closeConn env c w')) = openConns w"
proof (cases r)
  case (Inl e)
  then show ?thesis
    using dialDirectGRPC_keeps [OF assms] by (simp add: dialKeeps_def resultHolds_def)
next
  case (Inr a)
  then obtain c cached where r: "r = Inr (c, cached)"
    by (cases a) auto
  then have "dialKeeps w {} (snd (closeConn env c w'))"
    using dialKeeps_close [OF assms(1), of w c "{}" w'] dialDirectGRPC_keeps [OF assms] by (simp add: resultHolds_def)
  then show ?thesis
    using r by (simp add: dialKeeps_def)
qed

section \<open>Plaintext needs consent\<close>

text \<open>When the options of a dial allow it to talk plaintext to its target.\<close>

definition mayBePlain :: "dial_options \<Rightarrow> bool" where
  "mayBePlain o' \<longleftrightarrow>
     doInsecure o' \<or> doAllowInsecureWithCredsDowngrade o' \<or>
     doAllowInsecureDowngrade o' \<and> (crType (doCreds o') = [] \<or> doExternalAuthAddr o' \<noteq> [])"

lemma chooseTransport_plain: "chooseTransport env address o' w = Inr Plaintext \<Longrightarrow> mayBePlain o'"
  by (auto simp: chooseTransport_def mayBePlain_def Let_def split: if_splits option.splits)

definition madeFor :: "string \<Rightarrow> dial_options \<Rightarrow> made_conn \<Rightarrow> bool" where
  "madeFor address o' m \<longleftrightarrow> (\<exists>tr. m = MadeGrpc address (directPlan tr o') \<and> (tr = Plaintext \<longrightarrow> mayBePlain o'))"

lemma dialPlan_made:
  assumes "deDialer env = None" "dialPlan env address o' plan ext w = (r, w')"
  shows "dwConns w' = dwConns w \<or> dwConns w' = dwConns w @ [MadeGrpc address plan]"
proof -
  have "dwConns (snd (closeConn env x v)) = dwConns v" for x v
    using assms(1) by (simp add: closeConn_world)
  then show ?thesis
    using assms by (auto simp: dialPlan_def grpcDialContext_def split: option.splits prod.splits) (metis snd_conv)+
qed

lemma dialDirectGRPC_made:
  assumes "deDialer env = None" "dialDirectGRPC env address o' w = (r, w')"
    and ext: "\<And>r1 w1. doExternalAuthAddr o' \<noteq> [] \<Longrightarrow>
      dialDirectGRPC env (doExternalAuthAddr o') (externalAuthOptions o') w = (r1, w1) \<Longrightarrow>
      \<exists>new. dwConns w1 = dwConns w @ new \<and> (\<forall>m \<in> set new. Q m)"
  shows "\<exists>new. dwConns w' = dwConns w @ new \<and> (\<forall>m \<in> set new. madeFor address o' m \<or> Q m)"
proof (cases "chooseTransport env address o' w")
  case (Inl e)
  then show ?thesis
    using assms(2) by (auto simp: dialDirectGRPC_eq)
next
  case (Inr tr)
  note dial = assms(2) [unfolded dialDirectGRPC_eq [of env address] Inr, simplified]
  have main: "madeFor address o' (MadeGrpc address (directPlan tr o'))"
    using chooseTransport_plain Inr by (auto simp: madeFor_def)
  have step: ?thesis if "dialPlan env address o' (directPlan tr o') x w1 = (r, w')" "dwConns w1 = dwConns w @ new"
    "\<forall>m \<in> set new. Q m" for x w1 new
    using dialPlan_made [OF assms(1) that(1)] that(2,3) main by auto
  show ?thesis
  proof (cases "(\<exists>p. directAuth o' = JWTAuth p) \<and> doExternalAuthAddr o' \<noteq> []")
    case False
    then show ?thesis
      using dial step [of None w "[]"] by (auto split: rpc_auth.splits)
  next
    case True
    obtain r1 w1 where e: "dialExternalAuthEntity env o' w = (r1, w1)"
      by fastforce
    obtain r2 w2 where d: "dialDirectGRPC env (doExternalAuthAddr o') (externalAuthOptions o') w = (r2, w2)"
      by fastforce
    then have "w1 = w \<or> w1 = w2"
      using e by (auto simp: dialExternalAuthEntity_def split: if_splits sum.splits)
    moreover obtain new2 where "dwConns w2 = dwConns w @ new2" "\<forall>m \<in> set new2. Q m"
      using ext [OF _ d] True by blast
    ultimately obtain new where n: "dwConns w1 = dwConns w @ new" "\<forall>m \<in> set new. Q m"
      by (metis append_Nil2 empty_iff empty_set)
    then show ?thesis
      using dial True e step [OF _ n] by (cases r1) auto
  qed
qed


section \<open>A dial to look at\<close>

definition plainServerEnv :: dial_env where
  "plainServerEnv =
     \<lparr>deErr = plainErrEnv, deProbe = (\<lambda>_ _ _. Some (ErrText notTLSText)), deGrpcDial = (\<lambda>_ _ _. None),
      deCloseErr = (\<lambda>_. None), deDialer = None\<rparr>"

definition emptyWorld :: dial_world where
  "emptyWorld = \<lparr>dwConns = [], dwClosed = []\<rparr>"

definition externalDial :: dial_options where
  "externalDial = applyOptions [WithEntityCredentials ''me'' \<lparr>crType = ''api-key'', crPayload = ''secret''\<rparr>,
     WithExternalAuth ''auth:443'' ''robot'', WithAllowInsecureDowngrade]"

lemmas dial_options_defs = applyOptions_def zeroDialOptions_def WithEntityCredentials_def WithExternalAuth_def
  WithAllowInsecureDowngrade_def WithStaticAuthenticationMaterial_def noCredentials_def zeroWebRTCOptions_def

lemma externalDial_run:
  "dialDirectGRPC plainServerEnv ''robot:8080'' externalDial emptyWorld =
     (Inr (AuthConn (CloseFuncConn (GrpcConn 1) (GrpcConn 0)) (jwtPlan externalDial), False),
      \<lparr>dwConns = [MadeGrpc ''auth:443'' (directPlan Plaintext (externalAuthOptions externalDial)),
         MadeGrpc ''robot:8080'' (directPlan Plaintext externalDial)], dwClosed = []\<rparr>)"
proof -
  have c: "strContains notTLSText notTLSText"
    by (simp add: strContains_sublist)
  have inner: "dialDirectGRPC plainServerEnv ''auth:443'' (externalAuthOptions externalDial) emptyWorld =
     (Inr (GrpcConn 0, False), \<lparr>dwConns = [MadeGrpc ''auth:443'' (directPlan Plaintext (externalAuthOptions externalDial))], dwClosed = []\<rparr>)"
    using c
    by (simp add: dialDirectGRPC_eq chooseTransport_def plainServerEnv_def plainErrEnv_def externalAuthOptions_def externalDial_def
        dial_options_defs directAuth_def dialPlan_def grpcDialContext_def emptyWorld_def directPlan_def)
  have o: "doExternalAuthAddr externalDial = ''auth:443''" "doExternalAuthToEntity externalDial = ''robot''"
    "directAuth externalDial = JWTAuth (jwtPlan externalDial)"
    "chooseTransport plainServerEnv ''robot:8080'' externalDial emptyWorld = Inr Plaintext"
    using c by (simp_all add: externalDial_def dial_options_defs directAuth_def chooseTransport_def plainServerEnv_def plainErrEnv_def)
  have g: "gpAuth (directPlan Plaintext externalDial) = JWTAuth (jwtPlan externalDial)"
    using o(3) by (simp add: directPlan_def)
  show ?thesis
    unfolding dialDirectGRPC_eq [of _ "''robot:8080''"] o(4)
    using inner o g by (simp add: dialExternalAuthEntity_def dialPlan_def grpcDialContext_def plainServerEnv_def)
qed

lemma demo_dial [simp]: "deDialer plainServerEnv = None" "wfWorld emptyWorld" "openConns emptyWorld = {}" "dwConns emptyWorld = []"
  by (simp_all add: plainServerEnv_def wfWorld_def openConns_def emptyWorld_def)


text \<open>
  The dial of the example has credentials and allows only the downgrade for dials without credentials.  Its
  external connection, over which the credentials go to \<^verbatim>\<open>Authenticate\<close>, is in plaintext all the same, because
  the options for that connection have the credentials removed.
\<close>

lemma external_credentials_in_plaintext:
  "\<exists>c w'. dialDirectGRPC plainServerEnv ''robot:8080'' externalDial emptyWorld = (Inr (AuthConn (CloseFuncConn (GrpcConn 1) (GrpcConn 0)) c, False), w') \<and>
     jpCreds c = \<lparr>crType = ''api-key'', crPayload = ''secret''\<rparr> \<and>
     (\<exists>p. dwConns w' ! 0 = MadeGrpc ''auth:443'' p \<and> gpTransport p = Plaintext) \<and>
     \<not> doInsecure externalDial \<and> \<not> doExternalAuthInsecure externalDial \<and> \<not> doAllowInsecureWithCredsDowngrade externalDial"
  unfolding externalDial_run
  by (simp add: jwtPlan_def directPlan_def externalDial_def dial_options_defs)

text \<open>Static authentication material does not count as credentials either: it is sent in plaintext after a downgrade.\<close>

lemma static_material_in_plaintext:
  "\<exists>w'. dialDirectGRPC plainServerEnv ''robot:8080'' (applyOptions [WithStaticAuthenticationMaterial ''token'', WithAllowInsecureDowngrade]) emptyWorld =
      (Inr (GrpcConn 0, False), w') \<and>
    (\<exists>p. dwConns w' = [MadeGrpc ''robot:8080'' p] \<and> gpTransport p = Plaintext \<and> gpAuth p = StaticAuth ''token'')"
proof -
  have "strContains notTLSText notTLSText"
    by (simp add: strContains_sublist)
  then show ?thesis
    by (simp add: dialDirectGRPC_eq chooseTransport_def plainServerEnv_def plainErrEnv_def dial_options_defs directAuth_def
        dialPlan_def grpcDialContext_def emptyWorld_def directPlan_def)
qed

end
