(* ===== verification/WebrtcDial.thy ===== *)
theory WebrtcDial
  imports DirectDial
begin

text \<open>
  Dialing over WebRTC: \<^verbatim>\<open>dialWebRTC\<close> of \<^verbatim>\<open>src/rpc/wrtc_client.go\<close>, with the exchange of session descriptions and
  candidates over the signaling service.

  The peer connection is \<^verbatim>\<open>github.com/viamrobotics/webrtc\<close>: what its operations and the calls of the signaling
  service return is the script of the dial.  The loop of \<^verbatim>\<open>exchangeCandidates\<close> reads the responses of the
  signaling service; it acts on the peer connection, and its acts are recorded in order.
\<close>

section \<open>Exchanging candidates\<close>

datatype call_response =
    CallInit string string
  | CallUpdate string string
  | CallOther string

datatype peer_act = SetRemote string | AddCandidate string

record peer_script =
  psDecodeSDP :: "string \<Rightarrow> err option"
  psSetRemote :: "string \<Rightarrow> err option"
  psAddCandidate :: "string \<Rightarrow> err option"
  psSendDone :: "err option"
  psDisableTrickle :: bool

record exchange_state =
  xcHaveInit :: bool
  xcUuid :: string
  xcActs :: "peer_act list"
  xcRemoteDescSet :: bool

definition newExchange :: exchange_state where
  "newExchange = \<lparr>xcHaveInit = False, xcUuid = [], xcActs = [], xcRemoteDescSet = False\<rparr>"

text \<open>What the loop does next: it returns an error or nil, goes on, or panics on the second close of a channel.\<close>

datatype loop_outcome = Returns "err option" | Continues | Panics

definition onInit :: "peer_script \<Rightarrow> string \<Rightarrow> string \<Rightarrow> exchange_state \<Rightarrow> loop_outcome \<times> exchange_state" where
  "onInit P uuid sdp x =
     (if xcHaveInit x then (Returns (Some (ErrText ''got init stage more than once'')), x)
      else
        let x = x\<lparr>xcHaveInit := True, xcUuid := uuid\<rparr> in
        (case psDecodeSDP P sdp of
           Some e \<Rightarrow> (Returns (Some e), x)
         | None \<Rightarrow>
             let x = x\<lparr>xcActs := xcActs x @ [SetRemote sdp]\<rparr> in
             (case psSetRemote P sdp of
                Some e \<Rightarrow> (Returns (Some e), x)
              | None \<Rightarrow>
                  if xcRemoteDescSet x then (Panics, x)
                  else
                    let x = x\<lparr>xcRemoteDescSet := True\<rparr> in
                    if psDisableTrickle P then (Returns (psSendDone P), x) else (Continues, x))))"

definition onUpdate :: "peer_script \<Rightarrow> string \<Rightarrow> string \<Rightarrow> exchange_state \<Rightarrow> loop_outcome \<times> exchange_state" where
  "onUpdate P uuid cand x =
     (if \<not> xcHaveInit x then (Returns (Some (ErrText ''got update stage before init stage'')), x)
      else if uuid \<noteq> xcUuid x then
        (Returns (Some (ErrText (''uuid mismatch; have='' @ goQuote uuid @ '' want='' @ goQuote (xcUuid x)))), x)
      else
        let x = x\<lparr>xcActs := xcActs x @ [AddCandidate cand]\<rparr> in
        (case psAddCandidate P cand of
           Some e \<Rightarrow> (Returns (Some e), x)
         | None \<Rightarrow> (Continues, x)))"

definition onCallResponse :: "peer_script \<Rightarrow> call_response \<Rightarrow> exchange_state \<Rightarrow> loop_outcome \<times> exchange_state" where
  "onCallResponse P resp x =
     (case resp of
        CallInit uuid sdp \<Rightarrow> onInit P uuid sdp x
      | CallUpdate uuid cand \<Rightarrow> onUpdate P uuid cand x
      | CallOther stage \<Rightarrow> (Returns (Some (ErrText (''unexpected stage '' @ stage))), x))"

text \<open>
  One turn of the loop: the state of the context, then what \<^verbatim>\<open>Recv\<close> gives.  The events are those the loop sees;
  when they are used up it waits.
\<close>

fun exchangeCandidates ::
  "peer_script \<Rightarrow> (err option \<times> (err + call_response)) list \<Rightarrow> exchange_state \<Rightarrow> loop_outcome \<times> exchange_state" where
  "exchangeCandidates P [] x = (Continues, x)"
| "exchangeCandidates P ((ctxErr, recv) # evs) x =
     (case ctxErr of
        Some e \<Rightarrow> if errorsIs e CtxCanceled then (Returns None, x) else (Returns (Some e), x)
      | None \<Rightarrow>
          (case recv of
             Inl e \<Rightarrow> (Returns (Some e), x)
           | Inr resp \<Rightarrow>
               (case onCallResponse P resp x of
                  (r, x1) \<Rightarrow> if r = Continues then exchangeCandidates P evs x1 else (r, x1))))"

section \<open>Candidates follow the description of the same call\<close>

fun responses :: "(err option \<times> (err + call_response)) list \<Rightarrow> call_response list" where
  "responses [] = []"
| "responses ((c, Inl e) # evs) = responses evs"
| "responses ((c, Inr resp) # evs) = resp # responses evs"

fun actOf :: "call_response \<Rightarrow> peer_act" where
  "actOf (CallInit uuid sdp) = SetRemote sdp"
| "actOf (CallUpdate uuid cand) = AddCandidate cand"
| "actOf (CallOther stage) = AddCandidate stage"

definition callInOrder :: "string \<Rightarrow> call_response list \<Rightarrow> bool" where
  "callInOrder uuid rs \<longleftrightarrow> rs = [] \<or> (\<exists>sdp cands. rs = CallInit uuid sdp # map (CallUpdate uuid) cands)"

lemma callInOrder_snoc: "callInOrder uuid rs \<Longrightarrow> rs \<noteq> [] \<Longrightarrow> callInOrder uuid (rs @ [CallUpdate uuid cand])"
  unfolding callInOrder_def by (metis append_Cons list.simps(8,9) map_append)

text \<open>The state after acting on the responses \<open>rs\<close> and going on.\<close>

definition exchangeInv :: "call_response list \<Rightarrow> exchange_state \<Rightarrow> bool" where
  "exchangeInv rs x \<longleftrightarrow>
     callInOrder (xcUuid x) rs \<and> xcActs x = map actOf rs \<and> (xcHaveInit x \<longleftrightarrow> rs \<noteq> []) \<and> (xcRemoteDescSet x \<longrightarrow> rs \<noteq> [])"

lemma onInit_inv:
  assumes "onInit P uuid sdp x = (r, x')" "exchangeInv rs x"
  shows "r \<noteq> Panics \<and> (r = Continues \<longrightarrow> exchangeInv (rs @ [CallInit uuid sdp]) x') \<and>
    (\<exists>n \<le> 1. callInOrder (xcUuid x') (rs @ take n [CallInit uuid sdp]) \<and> xcActs x' = map actOf (rs @ take n [CallInit uuid sdp]))"
proof (cases "xcHaveInit x")
  case True
  then show ?thesis
    using assms by (auto simp: onInit_def exchangeInv_def intro!: exI [of _ 0])
next
  case False
  then have "rs = []" "xcActs x = []" "\<not> xcRemoteDescSet x"
    using assms(2) by (auto simp: exchangeInv_def)
  moreover have "callInOrder u []" "callInOrder uuid [CallInit uuid sdp]" for u
    by (auto simp: callInOrder_def)
  ultimately show ?thesis
    using assms(1) False by (auto simp: onInit_def Let_def exchangeInv_def split: option.splits if_splits intro: exI [of _ 0] exI [of _ 1])
qed

lemma onUpdate_inv:
  assumes "onUpdate P uuid cand x = (r, x')" "exchangeInv rs x"
  shows "r \<noteq> Panics \<and> (r = Continues \<longrightarrow> exchangeInv (rs @ [CallUpdate uuid cand]) x') \<and>
    (\<exists>n \<le> 1. callInOrder (xcUuid x') (rs @ take n [CallUpdate uuid cand]) \<and> xcActs x' = map actOf (rs @ take n [CallUpdate uuid cand]))"
proof (cases "xcHaveInit x \<and> uuid = xcUuid x")
  case False
  then show ?thesis
    using assms by (auto simp: onUpdate_def exchangeInv_def intro!: exI [of _ 0] split: if_splits)
next
  case True
  then have "callInOrder uuid (rs @ [CallUpdate uuid cand])"
    using assms(2) callInOrder_snoc by (auto simp: exchangeInv_def)
  then show ?thesis
    using assms True by (auto simp: onUpdate_def Let_def exchangeInv_def split: option.splits intro!: exI [of _ 1])
qed

lemma onCallResponse_inv:
  assumes "onCallResponse P resp x = (r, x')" "exchangeInv rs x"
  shows "r \<noteq> Panics \<and> (r = Continues \<longrightarrow> exchangeInv (rs @ [resp]) x') \<and>
    (\<exists>n \<le> 1. callInOrder (xcUuid x') (rs @ take n [resp]) \<and> xcActs x' = map actOf (rs @ take n [resp]))"
proof (cases resp)
  case (CallOther s)
  then show ?thesis
    using assms by (auto simp: onCallResponse_def exchangeInv_def intro!: exI [of _ 0])
qed (use assms onInit_inv onUpdate_inv in \<open>simp_all add: onCallResponse_def\<close>)

lemma exchangeCandidates_inv:
  assumes "exchangeCandidates P evs x = (r, x')" "exchangeInv rs x"
  shows "r \<noteq> Panics \<and> (\<exists>n. callInOrder (xcUuid x') (rs @ take n (responses evs)) \<and> xcActs x' = map actOf (rs @ take n (responses evs)))"
  using assms
proof (induction P evs x arbitrary: rs rule: exchangeCandidates.induct)
  case (1 P x)
  then show ?case
    by (auto simp: exchangeInv_def)
next
  case (2 P ctxErr recv evs x)
  have now: "\<exists>n. callInOrder (xcUuid x) (rs @ take n (responses es)) \<and> xcActs x = map actOf (rs @ take n (responses es))" for es
    using 2(3) by (auto simp: exchangeInv_def intro: exI [of _ 0])
  show ?case
  proof (cases "\<exists>resp. ctxErr = None \<and> recv = Inr resp")
    case False
    then have "x' = x \<and> (\<exists>e. r = Returns e)"
      using 2(2) by (auto split: option.splits if_splits sum.splits)
    then show ?thesis
      using now by auto
  next
    case True
    then obtain resp where resp: "ctxErr = None" "recv = Inr resp"
      by blast
    obtain r1 x1 where y: "onCallResponse P resp x = (r1, x1)"
      by fastforce
    note inv = onCallResponse_inv [OF y 2(3)]
    show ?thesis
    proof (cases "r1 = Continues")
      case True
      then have "exchangeCandidates P evs x1 = (r, x')" "exchangeInv (rs @ [resp]) x1"
        using 2(2) inv resp y by auto
      from 2(1) [OF resp y [symmetric] True this]
      obtain n where n: "r \<noteq> Panics" "callInOrder (xcUuid x') ((rs @ [resp]) @ take n (responses evs))"
        "xcActs x' = map actOf ((rs @ [resp]) @ take n (responses evs))"
        by blast
      then show ?thesis
        using resp by (intro conjI exI [of _ "Suc n"]) simp_all
    next
      case False
      then have "r = r1" "x' = x1"
        using 2(2) resp y by auto
      moreover obtain n where "n \<le> 1" "callInOrder (xcUuid x1) (rs @ take n [resp])" "xcActs x1 = map actOf (rs @ take n [resp])"
        using inv by blast
      moreover have "take n [resp] = take n (responses ((ctxErr, recv) # evs))"
        using \<open>n \<le> 1\<close> resp by (cases n) auto
      ultimately show ?thesis
        using inv by metis
    qed
  qed
qed

text \<open>
  C18.  Whatever the signaling service sends, the exchange acts on the peer connection in order: on the first so
  many responses, which are one init followed by updates of the same call, setting the remote description once
  and then adding the candidates one by one; and it never closes the channel of the description twice.
\<close>

theorem exchange_acts_in_order:
  assumes "exchangeCandidates P evs newExchange = (r, x)"
  shows "r \<noteq> Panics \<and>
    (\<exists>n. callInOrder (xcUuid x) (take n (responses evs)) \<and> xcActs x = map actOf (take n (responses evs)))"
  using exchangeCandidates_inv [OF assms, of "[]"] by (auto simp: exchangeInv_def newExchange_def callInOrder_def)

definition calmPeer :: peer_script where
  "calmPeer = \<lparr>psDecodeSDP = (\<lambda>_. None), psSetRemote = (\<lambda>_. None), psAddCandidate = (\<lambda>_. None), psSendDone = None,
     psDisableTrickle = False\<rparr>"

theorem exchange_acts_in_order_witness:
  "\<exists>n. callInOrder ''u'' (take n [CallInit ''u'' ''sdp'', CallUpdate ''u'' ''c1'', CallUpdate ''v'' ''c2'']) \<and>
     map actOf (take n [CallInit ''u'' ''sdp'', CallUpdate ''u'' ''c1'', CallUpdate ''v'' ''c2'']) = [SetRemote ''sdp'', AddCandidate ''c1'']"
proof -
  let ?evs = "[(None, Inr (CallInit ''u'' ''sdp'')), (None, Inr (CallUpdate ''u'' ''c1'')), (None, Inr (CallUpdate ''v'' ''c2''))]"
  have "\<exists>r x. exchangeCandidates calmPeer ?evs newExchange = (r, x) \<and> xcUuid x = ''u'' \<and> xcActs x = [SetRemote ''sdp'', AddCandidate ''c1'']"
    by (simp add: onCallResponse_def onInit_def onUpdate_def calmPeer_def newExchange_def)
  then show ?thesis
    using exchange_acts_in_order [of calmPeer ?evs] by fastforce
qed

section \<open>Errors of the exchange\<close>

definition noActiveOfferStr :: string where
  "noActiveOfferStr = ''no active offer''"

definition hostNotAllowedMsg :: string where
  "hostNotAllowedMsg = ''host not preconfigured''"

definition ErrNoWebRTCSignaler :: err where
  "ErrNoWebRTCSignaler = ErrText ''no signaler present''"

definition isEOF :: "err_env \<Rightarrow> err \<Rightarrow> bool" where
  "isEOF E e \<longleftrightarrow> errorsIs e EOF \<or>
     (case stFromError E e of None \<Rightarrow> False | Some (c, m) \<Rightarrow> c = Internal \<and> strContains m ''EOF'')"

text \<open>Whether \<^verbatim>\<open>sendErr\<close> passes an error on to \<^verbatim>\<open>errCh\<close>.\<close>

definition sendErr :: "err_env \<Rightarrow> bool \<Rightarrow> err \<Rightarrow> err option" where
  "sendErr E haveInit e =
     (if haveInit \<and> isEOF E e then None
      else case stFromError E e of
        Some (c, m) \<Rightarrow> if strContains m noActiveOfferStr then None else Some e
      | None \<Rightarrow> Some e)"

definition configError :: "err_env \<Rightarrow> err \<Rightarrow> err" where
  "configError E e =
     (case stFromError E e of
        Some (c, m) \<Rightarrow> if c = Unimplemented \<or> c = InvalidArgument \<and> m = hostNotAllowedMsg then ErrNoWebRTCSignaler else e
      | None \<Rightarrow> e)"

section \<open>The dial\<close>

text \<open>
  What the signaling service and the peer connection answer in one dial.  \<open>wsErrCh\<close> is an error offered on
  \<^verbatim>\<open>errCh\<close>, \<open>wsDoneSent\<close> says that a candidate goroutine has already sent the end of the exchange.
\<close>

record webrtc_script =
  wsConfigErr :: "err option"
  wsPeerErr :: "err option"
  wsOfferErr :: "err option"
  wsLocalErr :: "err option"
  wsHostErr :: "err option"
  wsEncodeErr :: "err option"
  wsCallErr :: "err option"
  wsCtxErr :: "err option"
  wsReady :: bool
  wsErrCh :: "err option"
  wsPick :: nat
  wsDoneSent :: bool
  wsUpdateErr :: "err option"
  wsChCloseErr :: "err option"
  wsGracefulErr :: "err option"

text \<open>
  The wait for the call: the context of the dial has a deadline, so when nothing else happens it ends with that.
\<close>

definition doCall :: "err_env \<Rightarrow> webrtc_script \<Rightarrow> err option" where
  "doCall E S =
     (case goSelect (wsPick S)
        [map_option (\<lambda>e. Some (combineErr E e (wsChCloseErr S))) (wsCtxErr S),
         if wsReady S then Some None else None,
         map_option (\<lambda>e. Some (combineErr E e (wsChCloseErr S))) (wsErrCh S)] of
        Some r \<Rightarrow> r
      | None \<Rightarrow> Some (combineErr E CtxDeadlineExceeded (wsChCloseErr S)))"

text \<open>The update sent at most once, with the end of the exchange or its error.\<close>

definition sendDone :: "webrtc_script \<Rightarrow> err option" where
  "sendDone S = (if wsDoneSent S then None else wsUpdateErr S)"

text \<open>The named results of \<^verbatim>\<open>dialWebRTC\<close>: an error, or a channel to which the deferred functions may add an error.\<close>

datatype webrtc_result = WFailed err | WConn client_conn "err option"

text \<open>A return with an error after the peer connection exists: the deferred function closes it.\<close>

definition failPeer :: "err_env \<Rightarrow> webrtc_script \<Rightarrow> nat \<Rightarrow> err \<Rightarrow> dial_world \<Rightarrow> webrtc_result \<times> dial_world" where
  "failPeer E S i e w = (WFailed (combineErr E e (wsGracefulErr S)), w\<lparr>dwClosed := dwClosed w @ [i]\<rparr>)"

definition createOffer :: "dial_options \<Rightarrow> webrtc_script \<Rightarrow> err option" where
  "createOffer o' S =
     (if \<not> woDisableTrickleICE (doWebrtcOpts o') then
        (case wsOfferErr S of
           Some e \<Rightarrow> Some e
         | None \<Rightarrow> (case wsLocalErr S of Some e \<Rightarrow> Some e | None \<Rightarrow> wsHostErr S))
      else None)"

definition dialPeer :: "err_env \<Rightarrow> webrtc_script \<Rightarrow> string \<Rightarrow> dial_options \<Rightarrow> dial_world \<Rightarrow> webrtc_result \<times> dial_world" where
  "dialPeer E S host o' w =
     (case wsConfigErr S of
        Some e \<Rightarrow> (WFailed (configError E e), w)
      | None \<Rightarrow>
          (case wsPeerErr S of
             Some e \<Rightarrow> (WFailed e, w)
           | None \<Rightarrow>
               let i = length (dwConns w); w = w\<lparr>dwConns := dwConns w @ [MadeChannel host]\<rparr> in
               (case createOffer o' S of
                  Some e \<Rightarrow> failPeer E S i e w
                | None \<Rightarrow>
                    (case wsEncodeErr S of
                       Some e \<Rightarrow> failPeer E S i e w
                     | None \<Rightarrow>
                         (case wsCallErr S of
                            Some e \<Rightarrow> failPeer E S i e w
                          | None \<Rightarrow>
                              (case doCall E S of
                                 Some callErr \<Rightarrow>
                                   failPeer E S i (combineErr E callErr (sendDone S)) (w\<lparr>dwClosed := dwClosed w @ [i]\<rparr>)
                               | None \<Rightarrow>
                                   (case sendDone S of
                                      Some e \<Rightarrow> failPeer E S i e w
                                    | None \<Rightarrow> (WConn (ChannelConn i) None, w))))))))"

text \<open>The connection to the signaling server is closed on every way out, and its error is kept.\<close>

definition addErr :: "err_env \<Rightarrow> err option \<Rightarrow> webrtc_result \<Rightarrow> webrtc_result" where
  "addErr E closeErr r =
     (case r of
        WFailed e \<Rightarrow> WFailed (combineErr E e closeErr)
      | WConn c e \<Rightarrow> WConn c (merrCombine E [e, closeErr]))"

definition dialWebRTC ::
  "dial_env \<Rightarrow> webrtc_script \<Rightarrow> string \<Rightarrow> string \<Rightarrow> dial_options \<Rightarrow> dial_world \<Rightarrow> webrtc_result \<times> dial_world" where
  "dialWebRTC env S signalingServer host o' w =
     (case dialSignalingServer env signalingServer host o' w of
        (Inl e, w1) \<Rightarrow> (WFailed e, w1)
      | (Inr conn, w1) \<Rightarrow>
          (case dialPeer (deErr env) S host o' w1 of (r, w2) \<Rightarrow>
             (case closeConn env conn w2 of (closeErr, w3) \<Rightarrow> (addErr (deErr env) closeErr r, w3))))"

text \<open>What the callers make of the two results: a channel that comes with an error is dropped.\<close>

definition connOrErr :: "webrtc_result \<Rightarrow> err + client_conn" where
  "connOrErr r = (case r of WFailed e \<Rightarrow> Inl e | WConn c None \<Rightarrow> Inr c | WConn c (Some e) \<Rightarrow> Inl e)"

section \<open>No connection is left behind\<close>

lemma dialSignalingServer_keeps:
  assumes "deDialer env = None" "wfWorld w" "dialSignalingServer env server host o' w = (r, w')"
  shows "dialKeeps w (case r of Inl e \<Rightarrow> {} | Inr c \<Rightarrow> set (heldBy c)) w'"
proof -
  obtain r1 w1 where d: "dialDirectGRPC env server (signalingOptions host o') w = (r1, w1)"
    by fastforce
  show ?thesis
    using dialDirectGRPC_keeps [OF assms(1,2) d] assms(3) d
    by (auto simp: dialSignalingServer_def resultHolds_def split: sum.splits)
qed

definition peerHolds :: "webrtc_result \<Rightarrow> nat set" where
  "peerHolds r = (case r of WFailed e \<Rightarrow> {} | WConn c e \<Rightarrow> set (heldBy c))"

lemma peerHolds_addErr [simp]: "peerHolds (addErr E e r) = peerHolds r"
  by (cases r) (simp_all add: peerHolds_def addErr_def)

lemma closed_channel:
  assumes "dialKeeps w H w'" "wfWorld w'" "i = length (dwConns w')" "set cs = {i}"
  shows "dialKeeps w H (w'\<lparr>dwConns := dwConns w' @ [m], dwClosed := dwClosed w' @ cs\<rparr>)"
  using assms by (auto simp: dialKeeps_def wfWorld_def openConns_def prefix_def)

text \<open>The ways out of the dial once the signaling server is connected.\<close>

lemma dialPeer_cases:
  assumes "dialPeer E S host o' w = (r, w')"
  obtains e where "r = WFailed e" "w' = w"
  | e cs where "r = WFailed e" "set cs = {length (dwConns w)}"
      "w' = w\<lparr>dwConns := dwConns w @ [MadeChannel host], dwClosed := dwClosed w @ cs\<rparr>"
  | "r = WConn (ChannelConn (length (dwConns w))) None" "w' = w\<lparr>dwConns := dwConns w @ [MadeChannel host]\<rparr>"
proof -
  let ?i = "length (dwConns w)"
  have "(\<exists>e. r = WFailed e) \<and> w' = w \<or>
    (\<exists>e. r = WFailed e) \<and> (\<exists>cs. set cs = {?i} \<and> w' = w\<lparr>dwConns := dwConns w @ [MadeChannel host], dwClosed := dwClosed w @ cs\<rparr>) \<or>
    r = WConn (ChannelConn ?i) None \<and> w' = w\<lparr>dwConns := dwConns w @ [MadeChannel host]\<rparr>"
    using assms unfolding dialPeer_def failPeer_def Let_def
    by (auto split: option.splits intro: exI [of _ "[?i]"] exI [of _ "[?i, ?i]"])
  then show thesis
    using that by blast
qed

lemma dialPeer_keeps:
  assumes "dialKeeps w H w1" "dialPeer E S host o' w1 = (r, w2)"
  shows "dialKeeps w (peerHolds r \<union> H) w2 \<and> peerHolds r \<subseteq> {length (dwConns w1)}"
  using assms(2)
proof (cases rule: dialPeer_cases)
  case (2 e cs)
  have "wfWorld w1"
    using assms(1) by (simp add: dialKeeps_def)
  then show ?thesis
    using closed_channel [OF assms(1) _ refl 2(2), of "MadeChannel host"] 2(1,3) by (simp add: peerHolds_def)
next
  case 3
  then show ?thesis
    using dialKeeps_made [OF assms(1), of "MadeChannel host"] by (simp add: peerHolds_def)
qed (use assms(1) in \<open>simp add: peerHolds_def\<close>)

lemma dialWebRTC_keeps:
  assumes "deDialer env = None" "wfWorld w" "dialWebRTC env S server host o' w = (r, w')"
  shows "dialKeeps w (peerHolds r) w'"
proof -
  obtain r1 w1 where d: "dialSignalingServer env server host o' w = (r1, w1)"
    by fastforce
  note k = dialSignalingServer_keeps [OF assms(1,2) d]
  show ?thesis
  proof (cases r1)
    case (Inl e1)
    then show ?thesis
      using assms(3) d k by (auto simp: dialWebRTC_def peerHolds_def)
  next
    case (Inr conn)
    obtain r2 w2 where p: "dialPeer (deErr env) S host o' w1 = (r2, w2)"
      by fastforce
    then have w': "w' = snd (closeConn env conn w2)" "peerHolds r = peerHolds r2"
      using assms(3) d Inr by (auto simp: dialWebRTC_def split: prod.splits)
    have k1: "dialKeeps w (set (heldBy conn)) w1"
      using k Inr by simp
    note k2 = dialPeer_keeps [OF k1 p]
    have "peerHolds r2 \<inter> set (heldBy conn) = {}"
      using k1 k2 by (auto simp: dialKeeps_def)
    then show ?thesis
      using dialKeeps_close [OF assms(1), of w conn "peerHolds r2" w2] k2 w' by (simp add: Un_commute)
  qed
qed

text \<open>
  When closing the connection to the signaling server fails after the channel is up, the callers see an
  error and drop the channel, which stays open.
\<close>

lemma failed_signaling_close_drops_channel:
  assumes "dialSignalingServer env server host o' w = (Inr (GrpcConn i), w1)" "deCloseErr env i = Some ce"
    and "dialPeer (deErr env) S host o' w1 = (WConn (ChannelConn j) None, w2)" "merr_laws (deErr env)"
  shows "\<exists>e w'. dialWebRTC env S server host o' w = (WConn (ChannelConn j) (Some e), w') \<and>
    connOrErr (WConn (ChannelConn j) (Some e)) = Inl e \<and> dwClosed w' = dwClosed w2 @ [i]"
proof -
  obtain e where "merrCombine (deErr env) [None, Some ce] = Some e"
    using assms(4) unfolding merr_laws_def by fastforce
  then show ?thesis
    using assms by (simp add: dialWebRTC_def addErr_def connOrErr_def)
qed

end
