(* ===== verification/Dial.thy ===== *)
theory Dial
  imports WebrtcDial
begin

text \<open>
  The dial of an address: \<^verbatim>\<open>Dial\<close>, \<^verbatim>\<open>dialInner\<close>, \<^verbatim>\<open>dial\<close>, \<^verbatim>\<open>lookupMDNSCandidate\<close> and \<^verbatim>\<open>dialMulticastDNS\<close> of
  \<^verbatim>\<open>src/rpc/dial.go\<close>, with \<^verbatim>\<open>DialDirectGRPC\<close> and \<^verbatim>\<open>DialWebRTC\<close>.

  A dial tries mDNS and WebRTC in two goroutines and reads their results from a channel.  The schedule says
  which result arrives first and what the second goroutine sees of the shared context; the two goroutines
  share only the world, so their effects on it are put one after the other.  The dial that mDNS starts
  at the address it finds is the same dial without mDNS.
\<close>

section \<open>mDNS\<close>

text \<open>What the resolver of \<^verbatim>\<open>github.com/edaniels/zeroconf\<close> answers, by candidate.\<close>

record mdns_env =
  mrResolverErr :: "err option"
  mrLookupErr :: "string \<Rightarrow> err option"
  mrEntry :: "string \<Rightarrow> service_entry option"
  mrCtxErr :: "string \<Rightarrow> err option"
  mrPick :: nat
  mrEndErr :: "err option"

fun lookupCandidates :: "mdns_env \<Rightarrow> string list \<Rightarrow> err + service_entry" where
  "lookupCandidates M [] =
     (case mrEndErr M of Some e \<Rightarrow> Inl e | None \<Rightarrow> Inl (ErrText ''mDNS query failed to find a candidate''))"
| "lookupCandidates M (candidate # cs) =
     (case mrLookupErr M candidate of
        Some e \<Rightarrow> Inl e
      | None \<Rightarrow>
          (case goSelect (mrPick M) [map_option Inl (mrCtxErr M candidate), Some (Inr (mrEntry M candidate))] of
             Some (Inl e) \<Rightarrow> Inl e
           | Some (Inr (Some entry)) \<Rightarrow> Inr entry
           | _ \<Rightarrow> lookupCandidates M cs))"

definition lookupMDNSCandidate :: "mdns_env \<Rightarrow> string \<Rightarrow> err + service_entry" where
  "lookupMDNSCandidate M address =
     (case mrResolverErr M of
        Some e \<Rightarrow> Inl e
      | None \<Rightarrow> lookupCandidates M [address, map (\<lambda>c. if c = CHR ''.'' then CHR ''-'' else c) address])"

section \<open>The two attempts\<close>

record dial_result =
  drConn :: "client_conn option"
  drCached :: bool
  drErr :: "err option"
  drSkipDirect :: bool

definition connResult :: "client_conn \<Rightarrow> bool \<Rightarrow> dial_result" where
  "connResult c cached = \<lparr>drConn = Some c, drCached = cached, drErr = None, drSkipDirect = False\<rparr>"

definition errResult :: "err \<Rightarrow> bool \<Rightarrow> dial_result" where
  "errResult e skipDirect = \<lparr>drConn = None, drCached = False, drErr = Some e, drSkipDirect = skipDirect\<rparr>"

record dial_sched =
  scMdnsFirst :: bool
  scCtxErr :: "err option"
  scScript :: webrtc_script

definition webrtcTarget :: "string \<Rightarrow> dial_options \<Rightarrow> string" where
  "webrtcTarget originalAddress o' = woSignalingServerAddress (doWebrtcOpts o') @ ''->'' @ originalAddress"

definition webrtcAttempt ::
  "dial_env \<Rightarrow> dial_sched \<Rightarrow> string \<Rightarrow> string \<Rightarrow> dial_options \<Rightarrow> dial_world \<Rightarrow> dial_result \<times> dial_world" where
  "webrtcAttempt env sc address originalAddress o' w =
     (case webrtcOptions address o' of
        Inl e \<Rightarrow> (errResult e True, w)
      | Inr o1 \<Rightarrow>
          (case dialFunc env ''webrtc'' (webrtcTarget originalAddress o1) (cacheKey o1)
             (\<lambda>w. case dialWebRTC env (scScript sc) (woSignalingServerAddress (doWebrtcOpts o1)) originalAddress o1 w of
                    (r, w1) \<Rightarrow> (connOrErr r, w1)) w of
             (Inr (conn, cached), w1) \<Rightarrow> (connResult conn cached, w1)
           | (Inl e, w1) \<Rightarrow>
               if \<not> errorsIs e ErrNoWebRTCSignaler then (errResult e True, w1)
               else case scCtxErr sc of
                 Some ce \<Rightarrow> (errResult ce True, w1)
               | None \<Rightarrow> (errResult e False, w1)))"

section \<open>Collecting the results\<close>

record dial_acc =
  daConn :: "(client_conn \<times> bool) option"
  daFatal :: "err option"
  daNonFatal :: "err option"

definition noResults :: dial_acc where
  "noResults = \<lparr>daConn = None, daFatal = None, daNonFatal = None\<rparr>"

definition takeResult :: "dial_env \<Rightarrow> dial_result \<Rightarrow> dial_acc \<times> dial_world \<Rightarrow> dial_acc \<times> dial_world" where
  "takeResult env r aw =
     (case aw of (a, w) \<Rightarrow>
        (case (drErr r, drConn r) of
           (None, Some c) \<Rightarrow>
             (let w1 = (case daConn a of None \<Rightarrow> w | Some (old, _) \<Rightarrow> snd (closeConn env old w))
              in (a\<lparr>daConn := Some (c, drCached r)\<rparr>, w1))
         | (None, None) \<Rightarrow> (a, w)
         | (Some e, _) \<Rightarrow>
             if drSkipDirect r then (a\<lparr>daFatal := merrCombine (deErr env) [daFatal a, Some e]\<rparr>, w)
             else (a\<lparr>daNonFatal := merrCombine (deErr env) [daNonFatal a, Some e]\<rparr>, w)))"

section \<open>The dial\<close>

definition ErrConnectionOptionsExhausted :: err where
  "ErrConnectionOptionsExhausted = ErrText ''exhausted all connection options with no way to connect''"

text \<open>The scheme of the address: whether it is just a domain, and the options as the scheme sets them.\<close>

definition addressScheme :: "string \<Rightarrow> dial_options \<Rightarrow> bool \<times> dial_options" where
  "addressScheme address o' =
     (if hasPrefix address ''unix://'' then
        (False, (setWebrtcDisable True (setMdnsDisable True o'))\<lparr>doInsecure := True, doDisableDirect := False\<rparr>)
      else if CHR '':'' \<in> set address then (False, o')
      else (\<not> parseIPv4 address, o'))"

text \<open>
  The goroutines that are started, each a function of the world, in the order their results arrive.
\<close>

definition runAttempts ::
  "dial_sched \<Rightarrow> (dial_world \<Rightarrow> dial_result \<times> dial_world) option \<Rightarrow> (dial_world \<Rightarrow> dial_result \<times> dial_world) option \<Rightarrow>
    dial_world \<Rightarrow> dial_result list \<times> dial_world" where
  "runAttempts sc mdns webrtc w =
     (let attempts = (if scMdnsFirst sc then [mdns, webrtc] else [webrtc, mdns]) in
      fold (\<lambda>att (rs, w). case att of None \<Rightarrow> (rs, w) | Some f \<Rightarrow> (case f w of (r, w1) \<Rightarrow> (rs @ [r], w1))) attempts ([], w))"

definition dialAttempts ::
  "dial_env \<Rightarrow> dial_sched \<Rightarrow> (dial_options \<Rightarrow> dial_world \<Rightarrow> dial_result \<times> dial_world) \<Rightarrow> err option \<Rightarrow> string \<Rightarrow> string \<Rightarrow> dial_options \<Rightarrow> bool \<Rightarrow>
    dial_world \<Rightarrow> (err + client_conn \<times> bool) \<times> dial_world" where
  "dialAttempts env sc mdns ctxErr address originalAddress o0 tryLocal w =
     (case ctxErr of
        Some e \<Rightarrow> (Inl e, w)
      | None \<Rightarrow>
          (case addressScheme address o0 of (isJustDomain, o') \<Rightarrow>
           case runAttempts sc
             (if \<not> moDisable (doMdnsOptions o') \<and> tryLocal \<and> isJustDomain then Some (mdns o') else None)
             (if \<not> woDisable (doWebrtcOpts o') then Some (webrtcAttempt env sc address originalAddress o') else None) w of
             (results, w1) \<Rightarrow>
           case fold (takeResult env) results (noResults, w1) of (a, w2) \<Rightarrow>
             (case daConn a of
                Some cc \<Rightarrow> (Inr cc, w2)
              | None \<Rightarrow>
                  (case daFatal a of
                     Some e \<Rightarrow> (Inl e, w2)
                   | None \<Rightarrow>
                       if doDisableDirect o' then (Inl ErrConnectionOptionsExhausted, w2)
                       else case dialDirectGRPC env address o' w2 of
                         (Inl e, w3) \<Rightarrow> (Inl (combineErr (deErr env) e (daNonFatal a)), w3)
                       | (Inr cc, w3) \<Rightarrow> (Inr cc, w3)))))"

definition dialLocal ::
  "dial_env \<Rightarrow> dial_sched \<Rightarrow> err option \<Rightarrow> string \<Rightarrow> string \<Rightarrow> dial_options \<Rightarrow> dial_world \<Rightarrow> (err + client_conn \<times> bool) \<times> dial_world" where
  "dialLocal env sc ctxErr address originalAddress o' w =
     dialAttempts env sc (\<lambda>_ w. (errResult (ErrText ''not started'') False, w)) ctxErr address originalAddress o' False w"

definition dialMulticastDNS ::
  "dial_env \<Rightarrow> mdns_env \<Rightarrow> dial_sched \<Rightarrow> err option \<Rightarrow> string \<Rightarrow> dial_options \<Rightarrow> dial_world \<Rightarrow> (err + client_conn \<times> bool) \<times> dial_world" where
  "dialMulticastDNS env M sc ctxErr address o' w =
     (case lookupMDNSCandidate M address of
        Inl e \<Rightarrow> (Inl e, w)
      | Inr entry \<Rightarrow>
          if \<not> (entryHas ''grpc'' entry \<or> entryHas ''webrtc'' entry) \<or> seAddrIPv4 entry = [] then
            (Inl (ErrText (''mDNS query found a service without an IPv4 address that does not support grpc or webrtc: '' @
               goQuote (seServiceName entry))), w)
          else
            dialLocal env sc ctxErr (hd (seAddrIPv4 entry) @ CHR '':'' # showInt (sePort entry)) address
              (mdnsDialOptions address entry o') w)"

definition mdnsAttempt ::
  "dial_env \<Rightarrow> mdns_env \<Rightarrow> dial_sched \<Rightarrow> err option \<Rightarrow> string \<Rightarrow> dial_options \<Rightarrow> dial_world \<Rightarrow> dial_result \<times> dial_world" where
  "mdnsAttempt env M sc ctxErr address o' w =
     (case dialMulticastDNS env M sc ctxErr address o' w of
        (Inl e, w1) \<Rightarrow> (errResult e False, w1)
      | (Inr (conn, cached), w1) \<Rightarrow> (connResult conn cached, w1))"

text \<open>\<open>scIn\<close> and \<open>parErr\<close> are the schedule and the context of the dial inside the mDNS attempt.\<close>

definition dial ::
  "dial_env \<Rightarrow> mdns_env \<Rightarrow> dial_sched \<Rightarrow> err option \<Rightarrow> dial_sched \<Rightarrow> err option \<Rightarrow> string \<Rightarrow> string \<Rightarrow> dial_options \<Rightarrow> bool \<Rightarrow> dial_world \<Rightarrow>
    (err + client_conn \<times> bool) \<times> dial_world" where
  "dial env M scIn parErr sc ctxErr address originalAddress o' tryLocal w =
     dialAttempts env sc (mdnsAttempt env M scIn parErr address) ctxErr address originalAddress o' tryLocal w"

definition dialInner ::
  "dial_env \<Rightarrow> mdns_env \<Rightarrow> dial_sched \<Rightarrow> err option \<Rightarrow> dial_sched \<Rightarrow> err option \<Rightarrow> string \<Rightarrow> dial_options \<Rightarrow> dial_world \<Rightarrow>
    (err + client_conn) \<times> dial_world" where
  "dialInner env M scIn parErr sc ctxErr address o' w =
     (if address = [] then (Inl (ErrText ''address empty''), w)
      else
        case dialFunc env ''multi'' address (cacheKey o')
          (\<lambda>w. case dial env M scIn parErr sc ctxErr address address (defaultEntity address o') True w of
                 (Inl e, w1) \<Rightarrow> (Inl e, w1)
               | (Inr (c, _), w1) \<Rightarrow> (Inr c, w1)) w of
          (Inl e, w1) \<Rightarrow> (Inl e, w1)
        | (Inr (c, cached), w1) \<Rightarrow> (Inr c, w1))"

text \<open>The exported dials: the options are applied in order; the direct and the WebRTC dial then fix some of them.\<close>

definition DialOpts :: "dial_option list \<Rightarrow> dial_options" where
  "DialOpts opts = applyOptions opts"

definition DialDirectGRPCOpts :: "dial_option list \<Rightarrow> dial_options" where
  "DialDirectGRPCOpts opts = setMdnsDisable True (setWebrtcDisable True (applyOptions opts))"

definition DialWebRTCOpts :: "string \<Rightarrow> dial_option list \<Rightarrow> dial_options" where
  "DialWebRTCOpts signalingServer opts =
     (let o' = setWebrtcDisable False (applyOptions opts)
      in o'\<lparr>doWebrtcOpts := (doWebrtcOpts o')\<lparr>woSignalingServerAddress := signalingServer\<rparr>\<rparr>)"

section \<open>One connection is kept\<close>

definition drHolds :: "dial_result \<Rightarrow> nat set" where
  "drHolds r = (case (drErr r, drConn r) of (None, Some c) \<Rightarrow> set (heldBy c) | _ \<Rightarrow> {})"

definition accHolds :: "dial_acc \<Rightarrow> nat set" where
  "accHolds a = (case daConn a of None \<Rightarrow> {} | Some (c, _) \<Rightarrow> set (heldBy c))"

text \<open>The contract of an attempt.\<close>

definition attemptKeeps :: "(dial_world \<Rightarrow> dial_result \<times> dial_world) \<Rightarrow> bool" where
  "attemptKeeps f \<longleftrightarrow> (\<forall>w r w'. wfWorld w \<longrightarrow> f w = (r, w') \<longrightarrow> dialKeeps w (drHolds r) w')"

lemma drHolds_simps [simp]: "drHolds (connResult c cached) = set (heldBy c)" "drHolds (errResult e skip) = {}"
  by (simp_all add: drHolds_def connResult_def errResult_def)

lemma dialKeeps_trans:
  assumes "dialKeeps w H w1" "dialKeeps w1 H2 w2"
  shows "dialKeeps w (H \<union> H2) w2" "H \<inter> H2 = {}"
proof -
  have "length (dwConns w) \<le> length (dwConns w1)" "length (dwConns w1) \<le> length (dwConns w2)"
    using assms by (simp_all add: dialKeeps_def prefix_length_le)
  moreover have "prefix (dwConns w) (dwConns w2)"
    using assms by (auto simp: dialKeeps_def intro: prefix_order.trans)
  ultimately show "dialKeeps w (H \<union> H2) w2" "H \<inter> H2 = {}"
    using assms by (fastforce simp: dialKeeps_def subset_eq)+
qed

lemma takeResult_keeps:
  assumes "deDialer env = None" "dialKeeps w (accHolds a \<union> drHolds r \<union> H) w'" "accHolds a \<inter> (drHolds r \<union> H) = {}"
    and "takeResult env r (a, w') = (a', w'')"
  shows "dialKeeps w (accHolds a' \<union> H) w'' \<and> accHolds a' \<subseteq> accHolds a \<union> drHolds r"
proof (cases "\<exists>c. drErr r = None \<and> drConn r = Some c")
  case False
  then have "accHolds a' = accHolds a" "drHolds r = {}" "w'' = w'"
    using assms(4) by (auto simp: takeResult_def accHolds_def drHolds_def split: option.splits if_splits)
  then show ?thesis
    using assms(2) by simp
next
  case True
  then obtain c where c: "drErr r = None" "drConn r = Some c"
    by blast
  then have a': "accHolds a' = drHolds r"
    using assms(4) by (auto simp: takeResult_def accHolds_def drHolds_def Let_def)
  show ?thesis
  proof (cases "daConn a")
    case None
    then show ?thesis
      using assms(2,4) c a' by (auto simp: takeResult_def accHolds_def Let_def)
  next
    case (Some oc)
    then obtain old ca where old: "daConn a = Some (old, ca)"
      by (cases oc) auto
    then have "w'' = snd (closeConn env old w')"
      using assms(4) c by (auto simp: takeResult_def Let_def)
    moreover have "dialKeeps w (set (heldBy old) \<union> (drHolds r \<union> H)) w'"
      using assms(2) old by (simp add: accHolds_def Un_assoc)
    moreover have "(drHolds r \<union> H) \<inter> set (heldBy old) = {}"
      using assms(3) old by (auto simp: accHolds_def)
    ultimately show ?thesis
      using dialKeeps_close [OF assms(1)] a' by simp
  qed
qed

lemma two_attempts:
  assumes "attemptKeeps f" "attemptKeeps g" "wfWorld w" "f w = (r1, w1)" "g w1 = (r2, w2)"
  shows "dialKeeps w (drHolds r1 \<union> drHolds r2) w2 \<and> drHolds r1 \<inter> drHolds r2 = {}"
proof -
  have k1: "dialKeeps w (drHolds r1) w1"
    using assms(1,3,4) by (auto simp: attemptKeeps_def)
  then have k2: "dialKeeps w1 (drHolds r2) w2"
    using assms(2,5) by (auto simp: attemptKeeps_def dialKeeps_def)
  show ?thesis
    using dialKeeps_trans [OF k1 k2] by blast
qed

lemma runAttempts_keeps:
  assumes "runAttempts sc mdns webrtc w = (rs, w')" "wfWorld w"
    and "\<And>f. mdns = Some f \<Longrightarrow> attemptKeeps f" "\<And>f. webrtc = Some f \<Longrightarrow> attemptKeeps f"
  shows "rs = [] \<and> w' = w \<or> (\<exists>r. rs = [r] \<and> dialKeeps w (drHolds r) w') \<or>
    (\<exists>r1 r2. rs = [r1, r2] \<and> dialKeeps w (drHolds r1 \<union> drHolds r2) w' \<and> drHolds r1 \<inter> drHolds r2 = {})"
proof -
  have one: "\<exists>r. rs = [r] \<and> dialKeeps w (drHolds r) w'" if "attemptKeeps f" "(case f w of (r, w1) \<Rightarrow> ([r], w1)) = (rs, w')" for f
    using that assms(2) by (auto simp: attemptKeeps_def split: prod.splits)
  have two: "\<exists>r1 r2. rs = [r1, r2] \<and> dialKeeps w (drHolds r1 \<union> drHolds r2) w' \<and> drHolds r1 \<inter> drHolds r2 = {}"
    if "attemptKeeps f" "attemptKeeps g" "(case f w of (r1, w1) \<Rightarrow> case g w1 of (r2, w2) \<Rightarrow> ([r1, r2], w2)) = (rs, w')" for f g
    using that two_attempts [OF that(1,2) assms(2)] by (auto split: prod.splits)
  show ?thesis
    using assms(1) one two assms(3,4)
    by (cases mdns; cases webrtc; cases "scMdnsFirst sc") (auto simp: runAttempts_def split_beta)
qed

lemma collect_keeps:
  assumes "deDialer env = None" "wfWorld w"
    and "rs = [] \<and> w1 = w \<or> (\<exists>r. rs = [r] \<and> dialKeeps w (drHolds r) w1) \<or>
      (\<exists>r1 r2. rs = [r1, r2] \<and> dialKeeps w (drHolds r1 \<union> drHolds r2) w1 \<and> drHolds r1 \<inter> drHolds r2 = {})"
    and "fold (takeResult env) rs (noResults, w1) = (a, w2)"
  shows "dialKeeps w (accHolds a) w2"
proof -
  have none: "accHolds noResults = {}"
    by (simp add: accHolds_def noResults_def)
  consider "rs = []" "w1 = w" | r where "rs = [r]" "dialKeeps w (drHolds r) w1"
    | r1 r2 where "rs = [r1, r2]" "dialKeeps w (drHolds r1 \<union> drHolds r2) w1" "drHolds r1 \<inter> drHolds r2 = {}"
    using assms(3) by blast
  then show ?thesis
  proof cases
    case 1
    then show ?thesis
      using assms(2,4) none by (auto intro: dialKeeps_refl)
  next
    case (2 r)
    then show ?thesis
      using takeResult_keeps [OF assms(1), of w noResults r "{}" w1 a w2] assms(4) none by simp
  next
    case (3 r1 r2)
    obtain a1 w3 where s1: "takeResult env r1 (noResults, w1) = (a1, w3)"
      by fastforce
    then have s2: "takeResult env r2 (a1, w3) = (a, w2)"
      using assms(4) 3(1) by simp
    have k: "dialKeeps w (accHolds a1 \<union> drHolds r2) w3" "accHolds a1 \<subseteq> drHolds r1"
      using takeResult_keeps [OF assms(1) _ _ s1, of w "drHolds r2"] 3(2) none by auto
    then have "accHolds a1 \<inter> drHolds r2 = {}"
      using 3(3) by blast
    then show ?thesis
      using takeResult_keeps [OF assms(1) _ _ s2, of w "{}"] k(1) by simp
  qed
qed

lemma dialAttempts_keeps:
  assumes "deDialer env = None" "wfWorld w" "\<And>o'. attemptKeeps (mdns o')"
    and "\<And>a b o'. attemptKeeps (webrtcAttempt env sc a b o')"
    and "dialAttempts env sc mdns ctxErr address orig o0 tryLocal w = (r, w')"
  shows "dialKeeps w (resultHolds r) w'"
proof (cases ctxErr)
  case (Some e)
  then show ?thesis
    using assms(2,5) by (auto simp: dialAttempts_def resultHolds_def intro: dialKeeps_refl)
next
  case None
  obtain just o' where sch: "addressScheme address o0 = (just, o')"
    by fastforce
  obtain rs w1 where run: "runAttempts sc (if \<not> moDisable (doMdnsOptions o') \<and> tryLocal \<and> just then Some (mdns o') else None)
      (if \<not> woDisable (doWebrtcOpts o') then Some (webrtcAttempt env sc address orig o') else None) w = (rs, w1)"
    by fastforce
  obtain a w2 where col: "fold (takeResult env) rs (noResults, w1) = (a, w2)"
    by fastforce
  have k: "dialKeeps w (accHolds a) w2"
    by (rule collect_keeps [OF assms(1,2) runAttempts_keeps [OF run assms(2)] col])
      (auto simp: assms(3,4) split: if_splits)
  note dial = assms(5) [unfolded dialAttempts_def None sch, simplified, unfolded run, simplified, unfolded col, simplified]
  show ?thesis
  proof (cases "daConn a = None \<and> daFatal a = None \<and> \<not> doDisableDirect o'")
    case False
    then show ?thesis
      using dial k by (auto simp: accHolds_def resultHolds_def split: option.splits)
  next
    case True
    then have k2: "dialKeeps w {} w2" "wfWorld w2"
      using k by (simp_all add: accHolds_def dialKeeps_def)
    obtain r3 w3 where d: "dialDirectGRPC env address o' w2 = (r3, w3)"
      by fastforce
    then have "resultHolds r = resultHolds r3" "w' = w3"
      using dial True by (auto simp: resultHolds_def split: sum.splits)
    then show ?thesis
      using dialKeeps_trans(1) [OF k2(1) dialDirectGRPC_keeps [OF assms(1) k2(2) d]] by simp
  qed
qed

text \<open>Closing never fails; then the channel of a WebRTC dial comes without an error.\<close>

definition silentCloses :: "dial_env \<Rightarrow> bool" where
  "silentCloses env \<longleftrightarrow> deDialer env = None \<and> (\<forall>i. deCloseErr env i = None) \<and> merr_laws (deErr env)"

lemma closeConn_silent: "silentCloses env \<Longrightarrow> fst (closeConn env c w) = None"
  by (induction c arbitrary: w) (auto simp: silentCloses_def merr_laws_def split_beta)

lemma dialWebRTC_silent:
  assumes "silentCloses env" "dialWebRTC env S server host o' w = (r, w')"
  shows "set (case connOrErr r of Inl e \<Rightarrow> [] | Inr c \<Rightarrow> heldBy c) = peerHolds r"
proof (cases r)
  case (WConn c e)
  obtain r1 w1 where d: "dialSignalingServer env server host o' w = (r1, w1)"
    by fastforce
  then obtain conn where conn: "r1 = Inr conn"
    using assms(2) WConn by (cases r1) (auto simp: dialWebRTC_def)
  obtain r2 w2 where p: "dialPeer (deErr env) S host o' w1 = (r2, w2)"
    by fastforce
  have "fst (closeConn env conn w2) = None"
    by (rule closeConn_silent [OF assms(1)])
  then have r: "r = addErr (deErr env) None r2"
    using assms(2) d conn p by (auto simp: dialWebRTC_def split: prod.splits)
  have "e = None"
    using p
  proof (cases rule: dialPeer_cases)
    case 3
    then show ?thesis
      using r WConn assms(1) by (simp add: addErr_def silentCloses_def merr_laws_def)
  qed (use r WConn in \<open>simp_all add: addErr_def\<close>)
  then show ?thesis
    using WConn by (simp add: connOrErr_def peerHolds_def)
qed (simp add: connOrErr_def peerHolds_def)

lemma webrtcAttempt_keeps:
  assumes "silentCloses env"
  shows "attemptKeeps (webrtcAttempt env sc address orig o')"
  unfolding attemptKeeps_def
proof (intro allI impI)
  fix w r w'
  assume wf: "wfWorld w" and att: "webrtcAttempt env sc address orig o' w = (r, w')"
  have none: "deDialer env = None"
    using assms by (simp add: silentCloses_def)
  show "dialKeeps w (drHolds r) w'"
  proof (cases "webrtcOptions address o'")
    case (Inl e)
    then show ?thesis
      using att wf by (auto simp: webrtcAttempt_def intro: dialKeeps_refl)
  next
    case (Inr o1)
    obtain x w1 where d: "dialWebRTC env (scScript sc) (woSignalingServerAddress (doWebrtcOpts o1)) orig o1 w = (x, w1)"
      by fastforce
    have "drHolds r = set (case connOrErr x of Inl e \<Rightarrow> [] | Inr c \<Rightarrow> heldBy c)" "w' = w1"
      using att Inr d none by (auto simp: webrtcAttempt_def dialFunc_def split: sum.splits if_splits option.splits)
    then show ?thesis
      using dialWebRTC_keeps [OF none wf d] dialWebRTC_silent [OF assms d] by simp
  qed
qed

lemma dialMulticastDNS_keeps:
  assumes "silentCloses env" "wfWorld w" "dialMulticastDNS env M sc ctxErr address o' w = (r, w')"
  shows "dialKeeps w (resultHolds r) w'"
proof (cases "r = fst (dialMulticastDNS env M sc ctxErr address o' w) \<and> w' = w \<and> (\<exists>e. r = Inl e)")
  case True
  then show ?thesis
    using assms(2) by (auto simp: resultHolds_def intro: dialKeeps_refl)
next
  case False
  then obtain a b o1 where "dialLocal env sc ctxErr a b o1 w = (r, w')"
    using assms(3) by (auto simp: dialMulticastDNS_def split: sum.splits if_splits)
  then show ?thesis
    unfolding dialLocal_def
    by (rule dialAttempts_keeps [rotated 4])
      (use assms(1,2) webrtcAttempt_keeps in \<open>auto simp: silentCloses_def attemptKeeps_def intro: dialKeeps_refl\<close>)
qed

lemma mdnsAttempt_keeps:
  assumes "silentCloses env"
  shows "attemptKeeps (mdnsAttempt env M sc ctxErr address o')"
  unfolding attemptKeeps_def
proof (intro allI impI)
  fix w r w'
  assume wf: "wfWorld w" and att: "mdnsAttempt env M sc ctxErr address o' w = (r, w')"
  obtain x w1 where d: "dialMulticastDNS env M sc ctxErr address o' w = (x, w1)"
    by fastforce
  then have "drHolds r = resultHolds x" "w' = w1"
    using att by (auto simp: mdnsAttempt_def resultHolds_def split: sum.splits)
  then show "dialKeeps w (drHolds r) w'"
    using dialMulticastDNS_keeps [OF assms wf d] by simp
qed

lemma dial_keeps:
  assumes "silentCloses env" "wfWorld w"
    and "dial env M scIn parErr sc ctxErr address orig o' tryLocal w = (r, w')"
  shows "dialKeeps w (resultHolds r) w'"
  by (rule dialAttempts_keeps [OF _ assms(2) mdnsAttempt_keeps webrtcAttempt_keeps assms(3) [unfolded dial_def]])
    (use assms(1) in \<open>simp_all add: silentCloses_def\<close>)


text \<open>
  When both attempts succeed it is the later connection that is used and the earlier one that is closed.
\<close>

lemma later_connection_wins:
  "fold (takeResult env) [connResult c1 b1, connResult c2 b2] (noResults, w) =
     (noResults\<lparr>daConn := Some (c2, b2)\<rparr>, snd (closeConn env c1 w))"
  by (simp add: takeResult_def connResult_def noResults_def)

section \<open>A dial to look at\<close>

definition demoScript :: webrtc_script where
  "demoScript =
     \<lparr>wsConfigErr = None, wsPeerErr = None, wsOfferErr = None, wsLocalErr = None, wsHostErr = None, wsEncodeErr = None,
      wsCallErr = None, wsCtxErr = None, wsReady = True, wsErrCh = None, wsPick = 0, wsDoneSent = False, wsUpdateErr = None,
      wsChCloseErr = None, wsGracefulErr = None\<rparr>"

definition demoSched :: dial_sched where
  "demoSched = \<lparr>scMdnsFirst = False, scCtxErr = None, scScript = demoScript\<rparr>"

definition demoMdns :: mdns_env where
  "demoMdns =
     \<lparr>mrResolverErr = None, mrLookupErr = (\<lambda>_. None), mrEntry = (\<lambda>_. None), mrCtxErr = (\<lambda>_. None), mrPick = 0, mrEndErr = None\<rparr>"

definition insecureDial :: dial_options where
  "insecureDial = applyOptions [WithInsecure]"

lemma insecureDial_eq: "insecureDial = zeroDialOptions\<lparr>doInsecure := True\<rparr>"
  by (simp add: insecureDial_def applyOptions_def WithInsecure_def)

text \<open>
  A dial of \<^verbatim>\<open>robot:8080\<close> over WebRTC without security: the signaling connection is number 0 and closed at the
  end, the channel is number 1.
\<close>

definition demoAddress :: string where
  "demoAddress = hostPort ''robot'' 8080"

lemma demoAddress_target:
  "getWebRTCTargetFromAddressWithDefaults demoAddress = Inr (''robot'', 8080)" "CHR '':'' \<in> set demoAddress"
  "\<not> hasPrefix demoAddress ''unix://''" "demoAddress \<noteq> []"
  using target_parses [of "''robot''" 8080]
  by (simp_all add: demoAddress_def strContains_char hasPrefix_def hostPort_def)

definition demoFixed :: dial_options where
  "demoFixed = fixupWebRTCOptions ''robot'' 8080 (defaultEntity demoAddress insecureDial)"

lemma demo_webrtcOptions: "webrtcOptions demoAddress (defaultEntity demoAddress insecureDial) = Inr demoFixed"
  by (simp add: webrtcOptions_def demoAddress_target insecureDial_eq zeroDialOptions_def zeroWebRTCOptions_def demoFixed_def
      fixupWebRTCOptions_def defaultEntity_def orElse_def Let_def)

lemma demo_signaling:
  "\<exists>p. dialSignalingServer plainServerEnv demoAddress demoAddress demoFixed emptyWorld =
     (Inr (GrpcConn 0), \<lparr>dwConns = [MadeGrpc demoAddress p], dwClosed = []\<rparr>)"
  by (simp add: dialSignalingServer_def dialDirectGRPC_eq chooseTransport_def signalingOptions_def demoFixed_def insecureDial_eq
      zeroDialOptions_def zeroWebRTCOptions_def fixupWebRTCOptions_def defaultEntity_def orElse_def Let_def noCredentials_def
      directAuth_def dialPlan_def grpcDialContext_def plainServerEnv_def emptyWorld_def directPlan_def demoAddress_target)

lemma demo_webrtc:
  "\<exists>p. dialWebRTC plainServerEnv demoScript demoAddress demoAddress demoFixed emptyWorld =
     (WConn (ChannelConn 1) None, \<lparr>dwConns = [MadeGrpc demoAddress p, MadeChannel demoAddress], dwClosed = [0]\<rparr>)"
proof -
  have "merrCombine plainErrEnv [None, None] = None"
    using plain_merr_laws by (simp add: merr_laws_def)
  moreover have "deErr plainServerEnv = plainErrEnv" "deCloseErr plainServerEnv 0 = None"
    by (simp_all add: plainServerEnv_def)
  moreover have "doCall plainErrEnv demoScript = None" "createOffer demoFixed demoScript = None"
    by (simp_all add: doCall_def goSelect_def createOffer_def demoScript_def)
  moreover have "sendDone demoScript = None"
    by (simp add: sendDone_def demoScript_def)
  ultimately show ?thesis
    using demo_signaling by (auto simp: dialWebRTC_def dialPeer_def demoScript_def addErr_def)
qed

lemma demo_dial_run:
  "\<exists>p. dialInner plainServerEnv demoMdns demoSched None demoSched None demoAddress insecureDial emptyWorld =
     (Inr (ChannelConn 1), \<lparr>dwConns = [MadeGrpc demoAddress p, MadeChannel demoAddress], dwClosed = [0]\<rparr>)"
proof -
  have s: "scScript demoSched = demoScript" "\<not> scMdnsFirst demoSched"
    by (simp_all add: demoSched_def)
  have o: "addressScheme demoAddress (defaultEntity demoAddress insecureDial) = (False, defaultEntity demoAddress insecureDial)"
    "\<not> woDisable (doWebrtcOpts (defaultEntity demoAddress insecureDial))"
    by (simp_all add: addressScheme_def demoAddress_target insecureDial_eq zeroDialOptions_def zeroWebRTCOptions_def defaultEntity_def)
  have a: "woSignalingServerAddress (doWebrtcOpts demoFixed) = demoAddress"
    by (simp add: demoFixed_def fixupWebRTCOptions_def Let_def demoAddress_def)
  show ?thesis
    using demo_webrtc
    by (auto simp: dialInner_def dialFunc_def demoAddress_target dial_def dialAttempts_def o a runAttempts_def s webrtcAttempt_def
        demo_webrtcOptions connOrErr_def takeResult_def noResults_def connResult_def)
qed


end
