(* ===== verification/ServerAuth.thy ===== *)
theory ServerAuth
  imports GoErrors
begin

text \<open>
  Authentication on the server: \<^verbatim>\<open>src/rpc/server_auth.go\<close>, the handlers of \<^verbatim>\<open>src/rpc/auth.go\<close> and the
  context values of \<^verbatim>\<open>src/rpc/context.go\<close>.

  Tokens are made and read by \<^verbatim>\<open>github.com/golang-jwt/jwt\<close>, whose functions are the fields of
  \<open>jwt_lib\<close>.  What the server relies on is \<open>jwt_sound\<close> (a token is only accepted with a key its key
  function gave for it, with a method among the valid ones and a signature that the key verifies) and
  \<open>jwt_complete\<close> (a token signed with a private key is accepted with the public key that belongs to
  it).  \<^verbatim>\<open>subtle.ConstantTimeCompare\<close> is equality of byte strings.  A call of a handler that the
  application supplies is a function of the context.
\<close>

section \<open>Contexts\<close>

record 'd entity_info =
  entEntity :: string
  entData :: "'d option"

record certificate =
  certDNSNames :: "string list"
  certIssuer :: string
  certSerial :: int

text \<open>
  What a call's context carries: the incoming metadata, the verified chains of a TLS peer, and the
  values the package attaches.
\<close>

record 'd rpc_ctx =
  ctxMD :: "(string, string list) gomap option"
  ctxChains :: "certificate list list option"
  ctxHost :: "string option"
  ctxDialer :: "nat option"
  ctxPeerConnection :: "nat option"
  ctxEntity :: "'d entity_info option"

definition contextWithHost :: "'d rpc_ctx \<Rightarrow> string \<Rightarrow> 'd rpc_ctx" where
  "contextWithHost ctx host = ctx\<lparr>ctxHost := Some host\<rparr>"

definition contextHost :: "'d rpc_ctx \<Rightarrow> string" where
  "contextHost ctx = (case ctxHost ctx of None \<Rightarrow> [] | Some h \<Rightarrow> h)"

definition ContextWithDialer :: "'d rpc_ctx \<Rightarrow> nat \<Rightarrow> 'd rpc_ctx" where
  "ContextWithDialer ctx d = ctx\<lparr>ctxDialer := Some d\<rparr>"

definition contextDialer :: "'d rpc_ctx \<Rightarrow> nat option" where
  "contextDialer ctx = ctxDialer ctx"

definition contextWithPeerConnection :: "'d rpc_ctx \<Rightarrow> nat \<Rightarrow> 'd rpc_ctx" where
  "contextWithPeerConnection ctx pc = ctx\<lparr>ctxPeerConnection := Some pc\<rparr>"

definition ContextPeerConnection :: "'d rpc_ctx \<Rightarrow> nat option" where
  "ContextPeerConnection ctx = ctxPeerConnection ctx"

definition ContextWithAuthEntity :: "'d rpc_ctx \<Rightarrow> 'd entity_info \<Rightarrow> 'd rpc_ctx" where
  "ContextWithAuthEntity ctx ent = ctx\<lparr>ctxEntity := Some ent\<rparr>"

definition ContextAuthEntity :: "'d rpc_ctx \<Rightarrow> 'd entity_info option" where
  "ContextAuthEntity ctx =
     (case ctxEntity ctx of None \<Rightarrow> None | Some ent \<Rightarrow> if entEntity ent = [] then None else Some ent)"

text \<open>The variant that panics (\<^const>\<open>None\<close>) when there is no entity.\<close>

definition MustContextAuthEntity :: "'d rpc_ctx \<Rightarrow> 'd entity_info option" where
  "MustContextAuthEntity ctx = (case ContextAuthEntity ctx of None \<Rightarrow> None | Some ent \<Rightarrow> Some ent)"

section \<open>Checking credentials\<close>

definition errInvalidCredentials :: err where
  "errInvalidCredentials = ErrStatus Unauthenticated ''invalid credentials''"

definition errCannotAuthEntity :: err where
  "errCannotAuthEntity = ErrStatus Unauthenticated ''cannot authenticate entity''"

type_synonym auth_md = "(string, string) gomap"

definition MakeEntitiesChecker :: "string list \<Rightarrow> string list \<Rightarrow> err option" where
  "MakeEntitiesChecker forEntities entities =
     (if list_ex (\<lambda>recvEntity. list_ex (\<lambda>checkEntity. recvEntity = checkEntity) forEntities) entities then None
      else Some errCannotAuthEntity)"

text \<open>Making a handler without a payload panics: \<^const>\<open>None\<close>.\<close>

definition MakeSimpleMultiAuthHandler ::
  "string list \<Rightarrow> string list \<Rightarrow> (string \<Rightarrow> string \<Rightarrow> err + auth_md) option" where
  "MakeSimpleMultiAuthHandler forEntities expectedPayloads =
     (if expectedPayloads = [] then None
      else Some (\<lambda>entity payload.
        case MakeEntitiesChecker forEntities [entity] of
          Some e \<Rightarrow> if errorsIs e errCannotAuthEntity then Inl errInvalidCredentials else Inl e
        | None \<Rightarrow>
            if list_ex (\<lambda>expected. payload = expected) expectedPayloads then Inr []
            else Inl errInvalidCredentials))"

definition MakeSimpleAuthHandler :: "string list \<Rightarrow> string \<Rightarrow> (string \<Rightarrow> string \<Rightarrow> err + auth_md) option" where
  "MakeSimpleAuthHandler forEntities expectedPayload = MakeSimpleMultiAuthHandler forEntities [expectedPayload]"

definition MakeSimpleMultiAuthPairHandler ::
  "(string, string) gomap \<Rightarrow> (string \<Rightarrow> string \<Rightarrow> err + auth_md) option" where
  "MakeSimpleMultiAuthPairHandler expectedPayloads =
     (if expectedPayloads = [] then None
      else Some (\<lambda>entity payload.
        case mget expectedPayloads entity of
          None \<Rightarrow> Inl errInvalidCredentials
        | Some expected \<Rightarrow> if expected = payload then Inr [] else Inl errInvalidCredentials))"

section \<open>Tokens\<close>

text \<open>The claims of a token; \<open>clExpires\<close> stands for the registered times, which only the library reads.\<close>

record jwt_claims =
  clSubject :: string
  clAudience :: "string list"
  clIssuer :: string
  clIssuedAt :: int
  clExpires :: "int option"
  clID :: string
  clCredsType :: string
  clAuthMD :: "auth_md option"

definition Entity :: "jwt_claims \<Rightarrow> string" where
  "Entity c = clSubject c"

definition CredentialsType :: "jwt_claims \<Rightarrow> string" where
  "CredentialsType c = clCredsType c"

definition Metadata :: "jwt_claims \<Rightarrow> auth_md option" where
  "Metadata c =
     (case clAuthMD c of
        None \<Rightarrow> None
      | Some md \<Rightarrow> if md = [] then None else Some (fold (\<lambda>(k, v) m. mput k v m) md []))"

record jwt_token =
  tokKid :: "string option"
  tokMethod :: string
  tokClaims :: jwt_claims

record ('priv, 'pub) jwt_lib =
  parseWithClaims :: "string \<Rightarrow> (jwt_token \<Rightarrow> err + 'pub) \<Rightarrow> string list \<Rightarrow> err + jwt_token"
  signedString :: "jwt_token \<Rightarrow> 'priv \<Rightarrow> err + string"
  verifyAudience :: "string list \<Rightarrow> string \<Rightarrow> bool \<Rightarrow> bool"
  audienceUnmarshal :: "string \<Rightarrow> err option"
  claimsValid :: "jwt_claims \<Rightarrow> err option"
  isRSA :: "string \<Rightarrow> bool"
  isEd25519 :: "string \<Rightarrow> bool"

definition validSigningMethods :: "string list" where
  "validSigningMethods =
     [''ES256'', ''ES512'', ''HS512'', ''PS256'', ''RS512'', ''PS384'', ''PS512'', ''RS384'', ''ES384'',
      ''EdDSA'', ''HS256'', ''HS384'', ''RS256'']"

text \<open>The three makers of a \<^verbatim>\<open>TokenVerificationKeyProvider\<close>.\<close>

definition MakeRSAPublicKeyProvider :: "('priv, 'pub) jwt_lib \<Rightarrow> 'pub \<Rightarrow> jwt_token \<Rightarrow> err + 'pub" where
  "MakeRSAPublicKeyProvider J pubKey token =
     (if \<not> isRSA J (tokMethod token) then Inl (ErrText (''unexpected signing method '' @ goQuote (tokMethod token)))
      else Inr pubKey)"

definition MakeEd25519PublicKeyProvider :: "('priv, 'pub) jwt_lib \<Rightarrow> 'pub \<Rightarrow> jwt_token \<Rightarrow> err + 'pub" where
  "MakeEd25519PublicKeyProvider J pubKey token =
     (if \<not> isEd25519 J (tokMethod token) then Inl (ErrText (''unexpected signing method '' @ goQuote (tokMethod token)))
      else Inr pubKey)"

definition oidcTokenVerificationKey :: "(string \<Rightarrow> string \<Rightarrow> err + 'pub) \<Rightarrow> jwt_token \<Rightarrow> err + 'pub" where
  "oidcTokenVerificationKey lookupKey token =
     (case tokKid token of
        None \<Rightarrow> Inl (ErrText ''kid header not in token header'')
      | Some keyID \<Rightarrow> lookupKey keyID (tokMethod token))"

section \<open>The server\<close>

record ('pub, 'd) cred_auth_handlers =
  hAuth :: "('d rpc_ctx \<Rightarrow> string \<Rightarrow> string \<Rightarrow> err + auth_md) option"
  hEntityData :: "('d rpc_ctx \<Rightarrow> jwt_claims \<Rightarrow> err + 'd option) option"
  hKeyProvider :: "('d rpc_ctx \<Rightarrow> jwt_token \<Rightarrow> err + 'pub) option"

record ('priv, 'pub) auth_key_data =
  akID :: string
  akMethod :: "string option"
  akPrivate :: 'priv
  akPublic :: 'pub

record ('priv, 'pub, 'd) auth_server =
  asHandlers :: "(string, ('pub, 'd) cred_auth_handlers) gomap"
  asKeys :: "(string, ('priv, 'pub) auth_key_data) gomap"
  asSigningKey :: "('priv, 'pub) auth_key_data"
  asAudience :: "string list"
  asIssuer :: string
  asPublicMethods :: "(string, bool) gomap"
  asExemptMethods :: "(string, bool) gomap"
  asTLSHandler :: "('d rpc_ctx \<Rightarrow> string list \<Rightarrow> err option) option"
  asAuthTo :: "'d rpc_ctx \<Rightarrow> string \<Rightarrow> err + auth_md"
  asEnsureAuthed :: "('d rpc_ctx \<Rightarrow> err + 'd rpc_ctx) option"

definition authHandlers :: "('priv, 'pub, 'd) auth_server \<Rightarrow> string \<Rightarrow> err + ('pub, 'd) cred_auth_handlers" where
  "authHandlers ss forType =
     (case mget (asHandlers ss) forType of
        None \<Rightarrow> Inl (ErrStatus InvalidArgument (''do not know how to handle credential type '' @ goQuote forType))
      | Some h \<Rightarrow> Inr h)"

definition signAccessTokenForEntity ::
  "('priv, 'pub) jwt_lib \<Rightarrow> ('priv, 'pub, 'd) auth_server \<Rightarrow> int \<Rightarrow> string \<Rightarrow> string \<Rightarrow> string list \<Rightarrow> string \<Rightarrow>
    auth_md \<Rightarrow> err + string" where
  "signAccessTokenForEntity J ss now uuid forType audience entity authMD =
     (let token =
        \<lparr>tokKid = Some (akID (asSigningKey ss)),
         tokMethod = (case akMethod (asSigningKey ss) of None \<Rightarrow> [] | Some mt \<Rightarrow> mt),
         tokClaims = \<lparr>clSubject = entity, clAudience = audience, clIssuer = asIssuer ss, clIssuedAt = now,
           clExpires = None, clID = uuid, clCredsType = forType, clAuthMD = Some authMD\<rparr>\<rparr>
      in case signedString J token (akPrivate (asSigningKey ss)) of
           Inl e \<Rightarrow> Inl (ErrStatus PermissionDenied ''failed to authenticate'')
         | Inr s \<Rightarrow> Inr s)"

definition MetadataFieldAuthorization :: string where
  "MetadataFieldAuthorization = ''authorization''"

definition AuthorizationValuePrefixBearer :: string where
  "AuthorizationValuePrefixBearer = ''Bearer ''"

definition mdValues :: "(string, string list) gomap \<Rightarrow> string \<Rightarrow> string list" where
  "mdValues md key = (case mget md key of None \<Rightarrow> [] | Some vs \<Rightarrow> vs)"

text \<open>A request to authenticate: the entity and, unless they are missing, the type and payload of credentials.\<close>

record auth_request =
  arEntity :: string
  arCredentials :: "(string \<times> string) option"

definition Authenticate ::
  "('priv, 'pub) jwt_lib \<Rightarrow> err_env \<Rightarrow> int \<Rightarrow> string \<Rightarrow> ('priv, 'pub, 'd) auth_server \<Rightarrow> 'd rpc_ctx \<Rightarrow> auth_request \<Rightarrow>
    err + string" where
  "Authenticate J E now uuid ss ctx req =
     (case ctxMD ctx of
        None \<Rightarrow> Inl (ErrText ''expected metadata'')
      | Some md \<Rightarrow>
          if mdValues md MetadataFieldAuthorization \<noteq> [] then
            Inl (ErrStatus InvalidArgument ''already authenticated; cannot re-authenticate'')
          else case arCredentials req of
            None \<Rightarrow> Inl (ErrStatus InvalidArgument ''credentials required'')
          | Some (forType, payload) \<Rightarrow>
              (case authHandlers ss forType of
                 Inl e \<Rightarrow> Inl e
               | Inr handlers \<Rightarrow>
                   (case hAuth handlers of
                      None \<Rightarrow> Inl (ErrStatus Unimplemented (''direct authentication not supported for '' @ goQuote forType))
                    | Some h \<Rightarrow>
                        (case h ctx (arEntity req) payload of
                           Inl e \<Rightarrow>
                             if stFromError E e \<noteq> None then Inl e
                             else Inl (ErrStatus PermissionDenied (''failed to authenticate: '' @ errText E e))
                         | Inr authMD \<Rightarrow>
                             signAccessTokenForEntity J ss now uuid forType (asAudience ss) (arEntity req) authMD))))"

definition CredentialsTypeExternal :: string where
  "CredentialsTypeExternal = ''external''"

definition AuthenticateTo ::
  "('priv, 'pub) jwt_lib \<Rightarrow> int \<Rightarrow> string \<Rightarrow> ('priv, 'pub, 'd) auth_server \<Rightarrow> 'd rpc_ctx \<Rightarrow> string \<Rightarrow> err + string" where
  "AuthenticateTo J now uuid ss ctx toEntity =
     (case ContextAuthEntity ctx of
        None \<Rightarrow> Inl (ErrStatus Internal ''entity should be available'')
      | Some entity \<Rightarrow>
          (case asAuthTo ss ctx toEntity of
             Inl e \<Rightarrow> Inl e
           | Inr authMD \<Rightarrow>
               signAccessTokenForEntity J ss now uuid CredentialsTypeExternal [toEntity] (entEntity entity) authMD))"

definition tokenFromContext :: "'d rpc_ctx \<Rightarrow> err + string" where
  "tokenFromContext ctx =
     (case ctxMD ctx of
        None \<Rightarrow> Inl (ErrStatus Unauthenticated ''authentication required'')
      | Some md \<Rightarrow>
          (let authHeader = mdValues md MetadataFieldAuthorization in
           if length authHeader \<noteq> 1 then Inl (ErrStatus Unauthenticated ''authentication required'')
           else if \<not> hasPrefix (hd authHeader) AuthorizationValuePrefixBearer then
             Inl (ErrStatus Unauthenticated (''expected authorization header with prefix: '' @ AuthorizationValuePrefixBearer))
           else Inr (drop (length AuthorizationValuePrefixBearer) (hd authHeader))))"

definition errNotTLSAuthed :: err where
  "errNotTLSAuthed = ErrText ''not authenticated via TLS''"

definition verifiedCert :: "'d rpc_ctx \<Rightarrow> certificate option" where
  "verifiedCert ctx =
     (case ctxChains ctx of
        None \<Rightarrow> None
      | Some verifiedChains \<Rightarrow>
          if verifiedChains \<noteq> [] \<and> hd verifiedChains \<noteq> [] then Some (hd (hd verifiedChains)) else None)"

text \<open>The check of a call without a token: \<open>e\<close> is why there is none.\<close>

definition tlsAuthed ::
  "err_env \<Rightarrow> ('priv, 'pub, 'd) auth_server \<Rightarrow> 'd rpc_ctx \<Rightarrow> err \<Rightarrow> err + 'd rpc_ctx" where
  "tlsAuthed E ss ctx e =
     (case asTLSHandler ss of
        None \<Rightarrow> Inl e
      | Some tls \<Rightarrow>
          (case verifiedCert ctx of
             None \<Rightarrow> Inl e
           | Some cert \<Rightarrow>
               (case tls ctx (certDNSNames cert) of
                  None \<Rightarrow>
                    Inr (ContextWithAuthEntity ctx
                      \<lparr>entEntity = certIssuer cert @ '':'' @ showInt (certSerial cert), entData = None\<rparr>)
                | Some tlsErr \<Rightarrow>
                    if \<not> errorsIs tlsErr errNotTLSAuthed then
                      Inl (case merrCombine E [Some e, Some tlsErr] of None \<Rightarrow> e | Some x \<Rightarrow> x)
                    else Inl e)))"

text \<open>The key function given to the parser.\<close>

definition verificationKey :: "('priv, 'pub, 'd) auth_server \<Rightarrow> 'd rpc_ctx \<Rightarrow> jwt_token \<Rightarrow> err + 'pub" where
  "verificationKey ss ctx token =
     (case authHandlers ss (CredentialsType (tokClaims token)) of
        Inl e \<Rightarrow> Inl e
      | Inr handlers \<Rightarrow>
          (case hKeyProvider handlers of
             Some provider \<Rightarrow> provider ctx token
           | None \<Rightarrow>
               (case tokKid token of
                  None \<Rightarrow> Inl (ErrText ''kid header not in token header'')
                | Some keyID \<Rightarrow>
                    (case mget (asKeys ss) keyID of
                       None \<Rightarrow> Inl (ErrText (''this server did not sign this JWT with kid '' @ goQuote keyID))
                     | Some keyData \<Rightarrow>
                         (case akMethod keyData of
                            None \<Rightarrow> Inl (ErrText ''internal server error'')
                          | Some mt \<Rightarrow>
                              if tokMethod token \<noteq> mt then
                                Inl (ErrText (''unexpected signing method '' @ goQuote (tokMethod token)))
                              else Inr (akPublic keyData))))))"

definition audienceError :: "('priv, 'pub) jwt_lib \<Rightarrow> err" where
  "audienceError J =
     (let claimAudience = [] in
      case audienceUnmarshal J claimAudience of
        Some e \<Rightarrow> ErrStatus Unauthenticated ''invalid audience''
      | None \<Rightarrow> ErrStatus Unauthenticated (''invalid audience (registered aud claim: '' @ claimAudience @ '')''))"

definition entityOf ::
  "err_env \<Rightarrow> 'd rpc_ctx \<Rightarrow> ('pub, 'd) cred_auth_handlers \<Rightarrow> jwt_claims \<Rightarrow> err + 'd rpc_ctx" where
  "entityOf E ctx handlers claims =
     (case hEntityData handlers of
        None \<Rightarrow> Inr (ContextWithAuthEntity ctx \<lparr>entEntity = Entity claims, entData = None\<rparr>)
      | Some load \<Rightarrow>
          (case load ctx claims of
             Inl e \<Rightarrow>
               if stFromError E e \<noteq> None then Inl e
               else Inl (ErrStatus Internal (''failed to load entity data: '' @ errText E e))
           | Inr d \<Rightarrow> Inr (ContextWithAuthEntity ctx \<lparr>entEntity = Entity claims, entData = d\<rparr>)))"

text \<open>
  The handlers used at the end are those the key function found for the claims of the accepted token.
\<close>

definition ensureAuthed ::
  "('priv, 'pub) jwt_lib \<Rightarrow> err_env \<Rightarrow> ('priv, 'pub, 'd) auth_server \<Rightarrow> 'd rpc_ctx \<Rightarrow> err + 'd rpc_ctx" where
  "ensureAuthed J E ss ctx =
     (case asEnsureAuthed ss of
        Some h \<Rightarrow> h ctx
      | None \<Rightarrow>
          (case tokenFromContext ctx of
             Inl e \<Rightarrow> tlsAuthed E ss ctx e
           | Inr tokenString \<Rightarrow>
               (case parseWithClaims J tokenString (verificationKey ss ctx) validSigningMethods of
                  Inl e \<Rightarrow> Inl (ErrStatus Unauthenticated (''unauthenticated: '' @ errText E e))
                | Inr token \<Rightarrow>
                    (let claims = tokClaims token in
                     if \<not> list_ex (\<lambda>allowdAud. verifyAudience J (clAudience claims) allowdAud True) (asAudience ss) then
                       Inl (audienceError J)
                     else case claimsValid J claims of
                       Some e \<Rightarrow> Inl (ErrStatus Unauthenticated (''unauthenticated: '' @ errText E e))
                     | None \<Rightarrow>
                         if Entity claims = [] then Inl (ErrStatus Unauthenticated ''expected entity (sub) in claims'')
                         else case authHandlers ss (CredentialsType claims) of
                           Inl e \<Rightarrow> Inl e
                         | Inr handlers \<Rightarrow> entityOf E ctx handlers claims))))"

definition tryAuth ::
  "('priv, 'pub) jwt_lib \<Rightarrow> err_env \<Rightarrow> ('priv, 'pub, 'd) auth_server \<Rightarrow> 'd rpc_ctx \<Rightarrow> err + 'd rpc_ctx" where
  "tryAuth J E ss ctx =
     (case ensureAuthed J E ss ctx of
        Inl e \<Rightarrow>
          if (case stFromError E e of None \<Rightarrow> Unknown | Some st \<Rightarrow> fst st) \<noteq> Unauthenticated then Inl e
          else Inr ctx
      | Inr nextCtx \<Rightarrow> Inr nextCtx)"

definition flagged :: "(string, bool) gomap \<Rightarrow> string \<Rightarrow> bool" where
  "flagged m k = (mget m k = Some True)"

definition isPublicMethod :: "('priv, 'pub, 'd) auth_server \<Rightarrow> string \<Rightarrow> bool" where
  "isPublicMethod ss fullMethod = flagged (asPublicMethods ss) fullMethod"

definition authUnaryInterceptor ::
  "('priv, 'pub) jwt_lib \<Rightarrow> err_env \<Rightarrow> ('priv, 'pub, 'd) auth_server \<Rightarrow> 'd rpc_ctx \<Rightarrow> 'q \<Rightarrow> string \<Rightarrow>
    ('d rpc_ctx \<Rightarrow> 'q \<Rightarrow> err + 'r) \<Rightarrow> err + 'r" where
  "authUnaryInterceptor J E ss ctx req fullMethod handler =
     (if flagged (asExemptMethods ss) fullMethod then handler ctx req
      else if isPublicMethod ss fullMethod then
        (case tryAuth J E ss ctx of
           Inl e \<Rightarrow> Inl e
         | Inr nextCtx \<Rightarrow> handler nextCtx req)
      else
        (case ensureAuthed J E ss ctx of
           Inl e \<Rightarrow> Inl e
         | Inr nextCtx \<Rightarrow> handler nextCtx req))"

text \<open>
  The handler of a stream is called with the service and the stream, here the stream's context.  For a
  public method the first argument is the context: \<open>CtxArg\<close>.
\<close>

datatype ('s, 'd) srv_arg = SrvArg 's | CtxArg "'d rpc_ctx"

definition authStreamInterceptor ::
  "('priv, 'pub) jwt_lib \<Rightarrow> err_env \<Rightarrow> ('priv, 'pub, 'd) auth_server \<Rightarrow> 's \<Rightarrow> 'd rpc_ctx \<Rightarrow> string \<Rightarrow>
    (('s, 'd) srv_arg \<Rightarrow> 'd rpc_ctx \<Rightarrow> err option) \<Rightarrow> err option" where
  "authStreamInterceptor J E ss srv ctx fullMethod handler =
     (if flagged (asExemptMethods ss) fullMethod then handler (SrvArg srv) ctx
      else if isPublicMethod ss fullMethod then
        (case tryAuth J E ss ctx of
           Inl e \<Rightarrow> Some e
         | Inr nextCtx \<Rightarrow> handler (CtxArg nextCtx) nextCtx)
      else
        (case ensureAuthed J E ss ctx of
           Inl e \<Rightarrow> Some e
         | Inr nextCtx \<Rightarrow> handler (SrvArg srv) nextCtx))"

section \<open>What is relied on of the token library\<close>

text \<open>\<open>sigOK s mt key\<close> says that the signature of the token \<open>s\<close> is verified by \<open>key\<close> with the method \<open>mt\<close>.\<close>

definition jwt_sound :: "('priv, 'pub) jwt_lib \<Rightarrow> (string \<Rightarrow> string \<Rightarrow> 'pub \<Rightarrow> bool) \<Rightarrow> bool" where
  "jwt_sound J sigOK \<longleftrightarrow>
     (\<forall>s kf ms t. parseWithClaims J s kf ms = Inr t \<longrightarrow>
        tokMethod t \<in> set ms \<and> (\<exists>key. kf t = Inr key \<and> sigOK s (tokMethod t) key)) \<and>
     (\<forall>aud a. verifyAudience J aud a True \<longrightarrow> a \<in> set aud)"

definition jwt_complete :: "('priv, 'pub) jwt_lib \<Rightarrow> ('priv \<Rightarrow> 'pub \<Rightarrow> bool) \<Rightarrow> bool" where
  "jwt_complete J keyPair \<longleftrightarrow>
     (\<forall>t priv s kf ms pub. signedString J t priv = Inr s \<and> kf t = Inr pub \<and> keyPair priv pub \<and> tokMethod t \<in> set ms \<and>
        claimsValid J (tokClaims t) = None \<longrightarrow> parseWithClaims J s kf ms = Inr t) \<and>
     (\<forall>aud a. a \<in> set aud \<and> a \<noteq> [] \<longrightarrow> verifyAudience J aud a True)"

text \<open>A token issued now without an expiry is in force.\<close>

definition jwt_fresh :: "('priv, 'pub) jwt_lib \<Rightarrow> int \<Rightarrow> bool" where
  "jwt_fresh J now \<longleftrightarrow> (\<forall>c. clExpires c = None \<and> clIssuedAt c = now \<longrightarrow> claimsValid J c = None)"

section \<open>No private call without an identity\<close>

text \<open>
  The entity of a call comes from a token or from a certificate.  By token: the authorization header
  carries one bearer token, signed for a key this server accepts for the token's kind of credentials
  (the key of the provider of that kind, or one of the server's own keys with its method), meant for
  this server, in force, and naming the entity.
\<close>

definition ownKey :: "('priv, 'pub, 'd) auth_server \<Rightarrow> jwt_token \<Rightarrow> 'pub \<Rightarrow> bool" where
  "ownKey ss t key \<longleftrightarrow>
     (\<exists>kid k. tokKid t = Some kid \<and> mget (asKeys ss) kid = Some k \<and> akMethod k = Some (tokMethod t) \<and> akPublic k = key)"

definition byToken ::
  "('priv, 'pub) jwt_lib \<Rightarrow> (string \<Rightarrow> string \<Rightarrow> 'pub \<Rightarrow> bool) \<Rightarrow> ('priv, 'pub, 'd) auth_server \<Rightarrow> 'd rpc_ctx \<Rightarrow> string \<Rightarrow> bool" where
  "byToken J sigOK ss ctx entity \<longleftrightarrow>
     (\<exists>md s t key h. ctxMD ctx = Some md \<and> mget md ''authorization'' = Some [''Bearer '' @ s] \<and>
        mget (asHandlers ss) (clCredsType (tokClaims t)) = Some h \<and>
        (case hKeyProvider h of Some provider \<Rightarrow> provider ctx t = Inr key | None \<Rightarrow> ownKey ss t key) \<and>
        sigOK s (tokMethod t) key \<and> tokMethod t \<in> set validSigningMethods \<and>
        set (clAudience (tokClaims t)) \<inter> set (asAudience ss) \<noteq> {} \<and> claimsValid J (tokClaims t) = None \<and>
        clSubject (tokClaims t) = entity \<and> entity \<noteq> [])"

definition byCertificate :: "('priv, 'pub, 'd) auth_server \<Rightarrow> 'd rpc_ctx \<Rightarrow> string \<Rightarrow> bool" where
  "byCertificate ss ctx entity \<longleftrightarrow>
     (\<exists>tls cert chain rest. asTLSHandler ss = Some tls \<and> ctxChains ctx = Some ((cert # chain) # rest) \<and>
        tls ctx (certDNSNames cert) = None \<and> entity = certIssuer cert @ '':'' @ showInt (certSerial cert))"

lemma tokenFromContext_Inr:
  assumes "tokenFromContext ctx = Inr s"
  obtains md where "ctxMD ctx = Some md" "mget md ''authorization'' = Some [''Bearer '' @ s]"
proof -
  obtain md where md: "ctxMD ctx = Some md"
    using assms by (auto simp: tokenFromContext_def split: option.splits)
  define vs where "vs = mdValues md ''authorization''"
  have vs: "length vs = 1" "prefix ''Bearer '' (hd vs)" "s = drop (length ''Bearer '') (hd vs)"
    using assms md unfolding vs_def
    by (auto simp: tokenFromContext_def hasPrefix_def MetadataFieldAuthorization_def AuthorizationValuePrefixBearer_def
        Let_def split: if_splits)
  then obtain x where x: "vs = [x]"
    by (cases vs) auto
  then have "x = ''Bearer '' @ s"
    using vs by (auto simp: prefix_def)
  then have "mget md ''authorization'' = Some [''Bearer '' @ s]"
    using x by (auto simp: vs_def mdValues_def split: option.splits)
  then show thesis
    using that md by blast
qed

lemma verificationKey_Inr:
  assumes "verificationKey ss ctx t = Inr key"
  obtains h where "mget (asHandlers ss) (clCredsType (tokClaims t)) = Some h"
    "case hKeyProvider h of Some provider \<Rightarrow> provider ctx t = Inr key | None \<Rightarrow> ownKey ss t key"
  using assms
  by (auto simp: verificationKey_def authHandlers_def CredentialsType_def ownKey_def
      split: sum.splits option.splits if_splits)

lemma entityOf_Inr:
  "entityOf E ctx h claims = Inr ctx' \<Longrightarrow> \<exists>d. ctx' = ctx\<lparr>ctxEntity := Some \<lparr>entEntity = clSubject claims, entData = d\<rparr>\<rparr>"
  by (auto simp: entityOf_def ContextWithAuthEntity_def Entity_def split: option.splits sum.splits if_splits)

lemma ensureAuthed_token:
  fixes ss :: "('priv, 'pub, 'd) auth_server"
  assumes "jwt_sound J sigOK" "asEnsureAuthed ss = None" "tokenFromContext ctx = Inr s" "ensureAuthed J E ss ctx = Inr ctx'"
  shows "\<exists>ent. ctx' = ctx\<lparr>ctxEntity := Some ent\<rparr> \<and> byToken J sigOK ss ctx (entEntity ent)"
proof -
  obtain t where p: "parseWithClaims J s (verificationKey ss ctx) validSigningMethods = Inr t"
    using assms(2-4) by (auto simp: ensureAuthed_def split: sum.splits)
  have t2: "list_ex (\<lambda>a. verifyAudience J (clAudience (tokClaims t)) a True) (asAudience ss)"
    "claimsValid J (tokClaims t) = None" "clSubject (tokClaims t) \<noteq> []"
    and ent: "\<exists>h :: ('pub, 'd) cred_auth_handlers. entityOf E ctx h (tokClaims t) = Inr ctx'"
    using assms(2-4) p
    by (auto simp: ensureAuthed_def Let_def Entity_def split: sum.splits if_splits option.splits)
  obtain h :: "('pub, 'd) cred_auth_handlers" where "entityOf E ctx h (tokClaims t) = Inr ctx'"
    using ent by blast
  note t = p t2 this
  obtain key where key: "verificationKey ss ctx t = Inr key" "sigOK s (tokMethod t) key"
    "tokMethod t \<in> set validSigningMethods"
    using assms(1) t(1) unfolding jwt_sound_def by blast
  obtain h' where h': "mget (asHandlers ss) (clCredsType (tokClaims t)) = Some h'"
    "case hKeyProvider h' of Some provider \<Rightarrow> provider ctx t = Inr key | None \<Rightarrow> ownKey ss t key"
    using verificationKey_Inr [OF key(1)] .
  obtain a where "a \<in> set (asAudience ss)" "verifyAudience J (clAudience (tokClaims t)) a True"
    using t(2) by (auto simp: list_ex_iff)
  then have aud: "set (clAudience (tokClaims t)) \<inter> set (asAudience ss) \<noteq> {}"
    using assms(1) unfolding jwt_sound_def by blast
  obtain md where md: "ctxMD ctx = Some md" "mget md ''authorization'' = Some [''Bearer '' @ s]"
    using tokenFromContext_Inr [OF assms(3)] .
  obtain d where "ctx' = ctx\<lparr>ctxEntity := Some \<lparr>entEntity = clSubject (tokClaims t), entData = d\<rparr>\<rparr>"
    using entityOf_Inr [OF t(5)] by blast
  moreover have "byToken J sigOK ss ctx (clSubject (tokClaims t))"
    unfolding byToken_def using md h' key(2,3) aud t(3,4) by blast
  ultimately show ?thesis
    by (metis entity_info.select_convs(1))
qed

lemma tlsAuthed_Inr:
  assumes "tlsAuthed E ss ctx e = Inr ctx'"
  shows "\<exists>ent. ctx' = ctx\<lparr>ctxEntity := Some ent\<rparr> \<and> byCertificate ss ctx (entEntity ent)"
proof -
  obtain tls cert where tls: "asTLSHandler ss = Some tls" "verifiedCert ctx = Some cert" "tls ctx (certDNSNames cert) = None"
    "ctx' = ctx\<lparr>ctxEntity := Some \<lparr>entEntity = certIssuer cert @ '':'' @ showInt (certSerial cert), entData = None\<rparr>\<rparr>"
    using assms by (auto simp: tlsAuthed_def ContextWithAuthEntity_def split: option.splits if_splits)
  from tls(2) obtain chain rest where "ctxChains ctx = Some ((cert # chain) # rest)"
    by (auto simp: verifiedCert_def neq_Nil_conv split: option.splits if_splits)
  with tls(1,3) have "byCertificate ss ctx (certIssuer cert @ '':'' @ showInt (certSerial cert))"
    unfolding byCertificate_def by blast
  with tls(4) show ?thesis
    by (metis entity_info.select_convs(1))
qed

lemma ensureAuthed_identity:
  assumes "jwt_sound J sigOK" "asEnsureAuthed ss = None" "ensureAuthed J E ss ctx = Inr ctx'"
  shows "\<exists>ent. ctx' = ctx\<lparr>ctxEntity := Some ent\<rparr> \<and>
    (byToken J sigOK ss ctx (entEntity ent) \<or> byCertificate ss ctx (entEntity ent))"
proof (cases "tokenFromContext ctx")
  case (Inl e)
  then show ?thesis
    using assms(2,3) tlsAuthed_Inr [of E ss ctx e ctx'] by (auto simp: ensureAuthed_def)
next
  case (Inr s)
  then show ?thesis
    using ensureAuthed_token [OF assms(1,2) Inr assms(3)] by blast
qed

lemma entity_nonempty: "byToken J sigOK ss ctx x \<or> byCertificate ss ctx x \<Longrightarrow> x \<noteq> []"
  by (auto simp: byToken_def byCertificate_def)


section \<open>Issued tokens are accepted\<close>

definition bearerCtx :: "'d rpc_ctx \<Rightarrow> string \<Rightarrow> 'd rpc_ctx" where
  "bearerCtx ctx s = ctx\<lparr>ctxMD := Some [(''authorization'', [''Bearer '' @ s])]\<rparr>"

lemma tokenFromContext_bearer [simp]: "tokenFromContext (bearerCtx ctx s) = Inr s"
  by (simp add: tokenFromContext_def bearerCtx_def mdValues_def MetadataFieldAuthorization_def
      AuthorizationValuePrefixBearer_def hasPrefix_def Let_def)

text \<open>The server has its signing key among its own keys, under the key's identifier and with a valid method.\<close>

definition signingReady :: "('priv \<Rightarrow> 'pub \<Rightarrow> bool) \<Rightarrow> ('priv, 'pub, 'd) auth_server \<Rightarrow> bool" where
  "signingReady keyPair ss \<longleftrightarrow>
     (let k = asSigningKey ss in
      mget (asKeys ss) (akID k) = Some k \<and> keyPair (akPrivate k) (akPublic k) \<and>
      (\<exists>mt \<in> set validSigningMethods. akMethod k = Some mt))"

definition signedToken ::
  "('priv, 'pub, 'd) auth_server \<Rightarrow> int \<Rightarrow> string \<Rightarrow> string \<Rightarrow> string list \<Rightarrow> string \<Rightarrow> auth_md \<Rightarrow> string \<Rightarrow> jwt_token" where
  "signedToken ss now uuid forType audience entity authMD mt =
     \<lparr>tokKid = Some (akID (asSigningKey ss)), tokMethod = mt,
      tokClaims = \<lparr>clSubject = entity, clAudience = audience, clIssuer = asIssuer ss, clIssuedAt = now,
        clExpires = None, clID = uuid, clCredsType = forType, clAuthMD = Some authMD\<rparr>\<rparr>"

text \<open>Any server that gives the parser a key belonging to the signing key accepts the token.\<close>

lemma signed_token_accepted:
  assumes "jwt_complete J keyPair" "akMethod (asSigningKey ss) = Some mt" "mt \<in> set validSigningMethods"
    and "signAccessTokenForEntity J ss now uuid forType audience entity authMD = Inr s"
    and server: "asEnsureAuthed ss2 = None" "mget (asHandlers ss2) forType = Some h"
    and key: "verificationKey ss2 (bearerCtx ctx s) (signedToken ss now uuid forType audience entity authMD mt) = Inr pub"
      "keyPair (akPrivate (asSigningKey ss)) pub"
    and "\<exists>a \<in> set audience. a \<in> set (asAudience ss2) \<and> a \<noteq> []" "entity \<noteq> []"
    and valid: "jwt_fresh J now"
  shows "\<exists>claims. clSubject claims = entity \<and> clAuthMD claims = Some authMD \<and>
    ensureAuthed J E ss2 (bearerCtx ctx s) = entityOf E (bearerCtx ctx s) h claims"
proof -
  define t where "t = signedToken ss now uuid forType audience entity authMD mt"
  have sig: "signedString J t (akPrivate (asSigningKey ss)) = Inr s"
    using assms(2,4) by (auto simp: signAccessTokenForEntity_def signedToken_def t_def split: sum.splits)
  have ok: "claimsValid J (tokClaims t) = None"
    using valid by (simp add: jwt_fresh_def t_def signedToken_def)
  have "tokMethod t \<in> set validSigningMethods"
    using assms(3) by (simp add: t_def signedToken_def)
  then have "parseWithClaims J s (verificationKey ss2 (bearerCtx ctx s)) validSigningMethods = Inr t"
    using assms(1) sig key ok unfolding jwt_complete_def t_def by blast
  moreover obtain a where a: "a \<in> set audience" "a \<in> set (asAudience ss2)" "a \<noteq> []"
    using assms(9) by blast
  have "verifyAudience J audience a True"
    using assms(1) a(1,3) by (simp add: jwt_complete_def)
  then have "list_ex (\<lambda>a. verifyAudience J (clAudience (tokClaims t)) a True) (asAudience ss2)"
    using a(2) by (auto simp: list_ex_iff t_def signedToken_def)
  ultimately have "ensureAuthed J E ss2 (bearerCtx ctx s) = entityOf E (bearerCtx ctx s) h (tokClaims t)"
    using server ok assms(10)
    by (simp add: ensureAuthed_def authHandlers_def CredentialsType_def Entity_def t_def signedToken_def)
  then show ?thesis
    by (intro exI [of _ "tokClaims t"]) (simp add: t_def signedToken_def)
qed

lemma issued_token_accepted:
  assumes "jwt_complete J keyPair" "signingReady keyPair ss"
    and "signAccessTokenForEntity J ss now uuid forType audience entity authMD = Inr s"
    and server: "asEnsureAuthed ss2 = None" "asKeys ss2 = asKeys ss" "mget (asHandlers ss2) forType = Some h" "hKeyProvider h = None"
    and "\<exists>a \<in> set audience. a \<in> set (asAudience ss2) \<and> a \<noteq> []" "entity \<noteq> []"
    and valid: "jwt_fresh J now"
  shows "\<exists>claims. clSubject claims = entity \<and> clAuthMD claims = Some authMD \<and>
    ensureAuthed J E ss2 (bearerCtx ctx s) = entityOf E (bearerCtx ctx s) h claims"
proof -
  obtain mt where k: "mget (asKeys ss) (akID (asSigningKey ss)) = Some (asSigningKey ss)"
    "keyPair (akPrivate (asSigningKey ss)) (akPublic (asSigningKey ss))"
    "akMethod (asSigningKey ss) = Some mt" "mt \<in> set validSigningMethods"
    using assms(2) by (auto simp: signingReady_def Let_def)
  have "verificationKey ss2 (bearerCtx ctx s) (signedToken ss now uuid forType audience entity authMD mt) =
      Inr (akPublic (asSigningKey ss))"
    using server k by (simp add: verificationKey_def authHandlers_def CredentialsType_def signedToken_def)
  from signed_token_accepted [OF assms(1) k(3,4) assms(3) server(1,3) this k(2) assms(8,9) valid]
  show ?thesis .
qed


section \<open>A server to look at\<close>

definition demoToken :: jwt_token where
  "demoToken =
     \<lparr>tokKid = Some ''k1'', tokMethod = ''EdDSA'',
      tokClaims = \<lparr>clSubject = ''alice'', clAudience = [''robot''], clIssuer = ''me'', clIssuedAt = 5, clExpires = None,
        clID = ''u'', clCredsType = ''api-key'', clAuthMD = Some []\<rparr>\<rparr>"

definition demoJWT :: "(nat, nat) jwt_lib" where
  "demoJWT =
     \<lparr>parseWithClaims = (\<lambda>s kf ms.
        if s = ''tok'' \<and> tokMethod demoToken \<in> set ms then
          (case kf demoToken of Inl e \<Rightarrow> Inl e | Inr key \<Rightarrow> if key = 7 then Inr demoToken else Inl (ErrText ''signature''))
        else Inl (ErrText ''malformed'')),
      signedString = (\<lambda>t priv. if t = demoToken then Inr ''tok'' else Inl (ErrText ''sign'')),
      verifyAudience = (\<lambda>aud a req. a \<in> set aud), audienceUnmarshal = (\<lambda>_. Some (ErrText ''eof'')),
      claimsValid = (\<lambda>c. None), isRSA = (\<lambda>_. False), isEd25519 = (\<lambda>m. m = ''EdDSA'')\<rparr>"

definition demoSig :: "string \<Rightarrow> string \<Rightarrow> nat \<Rightarrow> bool" where
  "demoSig s mt key \<longleftrightarrow> s = ''tok'' \<and> key = 7"

definition demoPair :: "nat \<Rightarrow> nat \<Rightarrow> bool" where
  "demoPair priv pub \<longleftrightarrow> pub = 7"

lemma demoJWT_laws: "jwt_sound demoJWT demoSig" "jwt_complete demoJWT demoPair" "jwt_fresh demoJWT 5"
  by (auto simp: jwt_sound_def jwt_complete_def jwt_fresh_def demoJWT_def demoSig_def demoPair_def
      split: if_splits sum.splits)

definition demoAuthServer :: "(nat, nat, nat) auth_server" where
  "demoAuthServer =
     \<lparr>asHandlers = [(''api-key'', \<lparr>hAuth = Some (\<lambda>_. the (MakeSimpleAuthHandler [''alice''] ''secret'')), hEntityData = None,
        hKeyProvider = None\<rparr>)],
      asKeys = [(''k1'', \<lparr>akID = ''k1'', akMethod = Some ''EdDSA'', akPrivate = 3, akPublic = 7\<rparr>)],
      asSigningKey = \<lparr>akID = ''k1'', akMethod = Some ''EdDSA'', akPrivate = 3, akPublic = 7\<rparr>,
      asAudience = [''robot''], asIssuer = ''me'', asPublicMethods = [], asExemptMethods = [(''/auth'', True)],
      asTLSHandler = None, asAuthTo = (\<lambda>_ _. Inr []), asEnsureAuthed = None\<rparr>"

definition demoCtx :: "nat rpc_ctx" where
  "demoCtx = \<lparr>ctxMD = Some [], ctxChains = None, ctxHost = None, ctxDialer = None, ctxPeerConnection = None, ctxEntity = None\<rparr>"

definition demoRequest :: auth_request where
  "demoRequest = \<lparr>arEntity = ''alice'', arCredentials = Some (''api-key'', ''secret'')\<rparr>"



text \<open>
  The handler of a public stream is called with the context in place of the service, which generated
  gRPC handlers convert back to the service they belong to.
\<close>

lemma public_stream_handler_gets_context:
  assumes "\<not> flagged (asExemptMethods ss) m" "isPublicMethod ss m" "tryAuth J E ss ctx = Inr ctx'"
  shows "authStreamInterceptor J E ss srv ctx m handler = handler (CtxArg ctx') ctx'"
  using assms by (simp add: authStreamInterceptor_def)

end
