(* ===== verification/ClientAuth.thy ===== *)
theory ClientAuth
  imports ServerAuth DialOptions
begin

text \<open>
  Authentication on the client: \<^verbatim>\<open>staticPerRPCJWTCredentials\<close> and \<^verbatim>\<open>perRPCJWTCredentials\<close> of \<^verbatim>\<open>src/rpc/dialer.go\<close>
  and \<^verbatim>\<open>UnaryClientInvalidAuthInterceptor\<close> of \<^verbatim>\<open>src/rpc/client_interceptors.go\<close>, and their composition with the
  server of the theory of server authentication.

  \<^verbatim>\<open>authenticate\<close> holds the lock of the credentials from its second look at the token to its return, so it is
  one step.  The connection it calls over is an \<open>auth_peer\<close>, the two methods of the authentication services;
  \<open>serverPeer\<close> is the one that a server offers.
\<close>

section \<open>The credentials\<close>

record rpc_creds =
  rcEntity :: string
  rcExternalAuthToEntity :: string
  rcCreds :: credentials
  rcAccessToken :: string
  rcExternalAuthMaterial :: string

text \<open>The second argument of the second method is the value of the authorization header sent along.\<close>

record auth_peer =
  apAuthenticate :: "auth_request \<Rightarrow> err + string"
  apAuthenticateTo :: "string \<Rightarrow> string \<Rightarrow> err + string"

definition firstToken :: "auth_peer \<Rightarrow> rpc_creds \<Rightarrow> err + string" where
  "firstToken peer creds =
     (if rcExternalAuthMaterial creds = [] then
        apAuthenticate peer \<lparr>arEntity = rcEntity creds,
          arCredentials = Some (crType (rcCreds creds), crPayload (rcCreds creds))\<rparr>
      else Inr (rcExternalAuthMaterial creds))"

definition authenticate :: "auth_peer \<Rightarrow> rpc_creds \<Rightarrow> (err + string) \<times> rpc_creds" where
  "authenticate peer creds =
     (if rcAccessToken creds \<noteq> [] then (Inr (rcAccessToken creds), creds)
      else case firstToken peer creds of
        Inl e \<Rightarrow> (Inl e, creds)
      | Inr accessToken \<Rightarrow>
          if rcExternalAuthToEntity creds = [] then (Inr accessToken, creds\<lparr>rcAccessToken := accessToken\<rparr>)
          else case apAuthenticateTo peer (''Bearer '' @ accessToken) (rcExternalAuthToEntity creds) of
            Inl e \<Rightarrow> (Inl e, creds)
          | Inr t \<Rightarrow> (Inr t, creds\<lparr>rcAccessToken := t\<rparr>))"

type_synonym headers = "(string \<times> string) list"

definition toAuthService :: "string list \<Rightarrow> bool" where
  "toAuthService uri = list_ex (\<lambda>u. hasSuffix u ''/proto.rpc.v1.AuthService'') uri"

definition GetRequestMetadata :: "auth_peer \<Rightarrow> string list \<Rightarrow> rpc_creds \<Rightarrow> (err + headers) \<times> rpc_creds" where
  "GetRequestMetadata peer uri creds =
     (if toAuthService uri then (Inr [], creds)
      else case authenticate peer creds of
        (Inl e, creds1) \<Rightarrow> (Inl e, creds1)
      | (Inr accessToken, creds1) \<Rightarrow> (Inr [(''Authorization'', ''Bearer '' @ accessToken)], creds1))"

definition staticGetRequestMetadata :: "string list \<Rightarrow> string \<Rightarrow> headers" where
  "staticGetRequestMetadata uri authMaterial =
     (if toAuthService uri then [] else [(''Authorization'', ''Bearer '' @ authMaterial)])"

definition RequireTransportSecurity :: bool where
  "RequireTransportSecurity = False"

text \<open>
  The interceptor after a call, with the credentials it was made for; \<open>code\<close> is the status code of the call's
  error.  Clearing the token of nil credentials is a panic, \<^const>\<open>None\<close>.
\<close>

definition UnaryClientInvalidAuthInterceptor :: "grpc_code \<Rightarrow> rpc_creds option \<Rightarrow> rpc_creds option option" where
  "UnaryClientInvalidAuthInterceptor code creds =
     (if code = Unauthenticated \<or> code = PermissionDenied \<and> creds \<noteq> None then
        (case creds of None \<Rightarrow> None | Some c \<Rightarrow> Some (Some (c\<lparr>rcAccessToken := []\<rparr>)))
      else Some creds)"

lemma interceptor_panics_without_credentials: "UnaryClientInvalidAuthInterceptor Unauthenticated None = None"
  by (simp add: UnaryClientInvalidAuthInterceptor_def)

section \<open>The token is kept and given up\<close>

lemma authenticate_keeps:
  assumes "authenticate peer creds = (Inr t, creds')" "t \<noteq> []"
  shows "authenticate peer2 creds' = (Inr t, creds')"
  using assms by (auto simp: authenticate_def split: if_splits sum.splits)

lemma authenticate_failed: "authenticate peer creds = (Inl e, creds') \<Longrightarrow> creds' = creds"
  by (auto simp: authenticate_def split: if_splits sum.splits)

text \<open>After a rejected call the next request authenticates anew.\<close>

lemma rejected_call_reauthenticates:
  assumes "code = Unauthenticated \<or> code = PermissionDenied"
  shows "\<exists>c. UnaryClientInvalidAuthInterceptor code (Some creds) = Some (Some c) \<and>
    authenticate peer c = authenticate peer (creds\<lparr>rcAccessToken := []\<rparr>)"
  using assms by (auto simp: UnaryClientInvalidAuthInterceptor_def)

section \<open>Over the wire\<close>

text \<open>gRPC sends metadata keys in lower case.\<close>

definition lowerChar :: "char \<Rightarrow> char" where
  "lowerChar c = (if 65 \<le> (of_char c :: nat) \<and> (of_char c :: nat) \<le> 90 then char_of ((of_char c :: nat) + 32) else c)"

definition wireMD :: "headers \<Rightarrow> (string, string list) gomap" where
  "wireMD hs = fold (\<lambda>(k, v) m. mput (map lowerChar k) (mdValues m (map lowerChar k) @ [v]) m) hs []"

lemma lower_authorization: "map lowerChar ''Authorization'' = ''authorization''" "map lowerChar ''authorization'' = ''authorization''"
  by code_simp+

lemma wireMD_authorization: "wireMD [(''Authorization'', v)] = [(''authorization'', [v])]" "wireMD [(''authorization'', v)] = [(''authorization'', [v])]"
  unfolding wireMD_def by (simp_all only: fold_simps prod.case lower_authorization) (simp_all add: mdValues_def)

definition sentCtx :: "'d rpc_ctx \<Rightarrow> headers \<Rightarrow> 'd rpc_ctx" where
  "sentCtx ctx hs = ctx\<lparr>ctxMD := Some (wireMD hs)\<rparr>"

lemma sentCtx_bearer: "sentCtx ctx [(''Authorization'', ''Bearer '' @ s)] = bearerCtx ctx s"
  by (simp add: sentCtx_def wireMD_authorization bearerCtx_def)

definition authMethod :: string where
  "authMethod = ''/proto.rpc.v1.AuthService/Authenticate''"

definition authToMethod :: string where
  "authToMethod = ''/proto.rpc.v1.ExternalAuthService/AuthenticateTo''"

definition serverPeer ::
  "('priv, 'pub) jwt_lib \<Rightarrow> err_env \<Rightarrow> int \<Rightarrow> string \<Rightarrow> ('priv, 'pub, 'd) auth_server \<Rightarrow> 'd rpc_ctx \<Rightarrow> auth_peer" where
  "serverPeer J E now uuid ss ctx =
     \<lparr>apAuthenticate = (\<lambda>req. authUnaryInterceptor J E ss (sentCtx ctx []) req authMethod
        (\<lambda>ctx req. Authenticate J E now uuid ss ctx req)),
      apAuthenticateTo = (\<lambda>header toEntity. authUnaryInterceptor J E ss (sentCtx ctx [(''authorization'', header)]) toEntity authToMethod
        (\<lambda>ctx e. AuthenticateTo J now uuid ss ctx e))\<rparr>"

lemma sentCtx_header: "sentCtx ctx [(''authorization'', ''Bearer '' @ s)] = bearerCtx ctx s"
  by (simp add: sentCtx_def wireMD_authorization bearerCtx_def)

section \<open>A client with credentials is let in\<close>

text \<open>
  The server knows the client: the handler of the type of the credentials accepts them, the method to
  authenticate is exempt, and the server signs with one of its own keys.
\<close>

definition knowsClient :: "('priv \<Rightarrow> 'pub \<Rightarrow> bool) \<Rightarrow> ('priv, 'pub, 'd) auth_server \<Rightarrow> rpc_creds \<Rightarrow> bool" where
  "knowsClient keyPair ss creds \<longleftrightarrow>
     asEnsureAuthed ss = None \<and> signingReady keyPair ss \<and> flagged (asExemptMethods ss) authMethod \<and>
     rcEntity creds \<noteq> [] \<and> (\<exists>a \<in> set (asAudience ss). a \<noteq> []) \<and>
     (\<exists>h auth. mget (asHandlers ss) (crType (rcCreds creds)) = Some h \<and> hKeyProvider h = None \<and> hEntityData h = None \<and>
        hAuth h = Some auth \<and> (\<forall>ctx. \<exists>md. auth ctx (rcEntity creds) (crPayload (rcCreds creds)) = Inr md))"

definition jwt_nonempty :: "('priv, 'pub) jwt_lib \<Rightarrow> bool" where
  "jwt_nonempty J \<longleftrightarrow> (\<forall>t priv. signedString J t priv \<noteq> Inr [])"

lemma signAccessToken_nonempty:
  "jwt_nonempty J \<Longrightarrow> signAccessTokenForEntity J ss now uuid forType audience entity authMD = Inr s \<Longrightarrow> s \<noteq> []"
  by (auto simp: signAccessTokenForEntity_def jwt_nonempty_def Let_def split: sum.splits)

text \<open>The entity a server puts into the context of a request that carries the token \<open>s\<close>.\<close>

definition letsIn ::
  "('priv, 'pub) jwt_lib \<Rightarrow> err_env \<Rightarrow> ('priv, 'pub, 'd) auth_server \<Rightarrow> string \<Rightarrow> string \<Rightarrow> bool" where
  "letsIn J E ss s entity \<longleftrightarrow>
     (\<forall>ctx. ensureAuthed J E ss (bearerCtx ctx s) =
        Inr (ContextWithAuthEntity (bearerCtx ctx s) \<lparr>entEntity = entity, entData = None\<rparr>))"

lemma letsIn_call:
  assumes "letsIn J E ss s entity" "\<not> flagged (asExemptMethods ss) fullMethod"
  shows "authUnaryInterceptor J E ss (bearerCtx ctx s) req fullMethod handler =
    handler (ContextWithAuthEntity (bearerCtx ctx s) \<lparr>entEntity = entity, entData = None\<rparr>) req"
  using assms by (simp add: letsIn_def authUnaryInterceptor_def tryAuth_def)

text \<open>The first token: the server issues it, unless the library does not sign, and accepts it as the client's entity.\<close>

lemma firstToken_accepted:
  assumes "jwt_complete J keyPair" "jwt_fresh J now" "jwt_nonempty J"
    and "knowsClient keyPair ss creds" "rcExternalAuthMaterial creds = []"
  shows "(\<exists>md e. firstToken (serverPeer J E now uuid ss ctx) creds = Inl e \<and>
      signAccessTokenForEntity J ss now uuid (crType (rcCreds creds)) (asAudience ss) (rcEntity creds) md = Inl e) \<or>
    (\<exists>s. firstToken (serverPeer J E now uuid ss ctx) creds = Inr s \<and> s \<noteq> [] \<and> letsIn J E ss s (rcEntity creds))"
proof -
  obtain h auth where h: "mget (asHandlers ss) (crType (rcCreds creds)) = Some h" "hKeyProvider h = None" "hEntityData h = None"
    "hAuth h = Some auth" "\<forall>ctx. \<exists>md. auth ctx (rcEntity creds) (crPayload (rcCreds creds)) = Inr md"
    using assms(4) unfolding knowsClient_def by blast
  have k: "asEnsureAuthed ss = None" "signingReady keyPair ss" "flagged (asExemptMethods ss) authMethod" "rcEntity creds \<noteq> []"
    "\<exists>a \<in> set (asAudience ss). a \<in> set (asAudience ss) \<and> a \<noteq> []"
    using assms(4) unfolding knowsClient_def by blast+
  obtain md where md: "auth (sentCtx ctx []) (rcEntity creds) (crPayload (rcCreds creds)) = Inr md"
    using h(5) by blast
  let ?sign = "signAccessTokenForEntity J ss now uuid (crType (rcCreds creds)) (asAudience ss) (rcEntity creds) md"
  have "Authenticate J E now uuid ss (sentCtx ctx [])
      \<lparr>arEntity = rcEntity creds, arCredentials = Some (crType (rcCreds creds), crPayload (rcCreds creds))\<rparr> = ?sign"
    using h(1,4) md by (simp add: Authenticate_def authHandlers_def sentCtx_def wireMD_def mdValues_def)
  then have first: "firstToken (serverPeer J E now uuid ss ctx) creds = ?sign"
    using assms(5) k(3) by (simp add: firstToken_def serverPeer_def authUnaryInterceptor_def)
  show ?thesis
  proof (cases ?sign)
    case (Inl e)
    then show ?thesis
      using first by auto
  next
    case (Inr s)
    have "letsIn J E ss s (rcEntity creds)"
      unfolding letsIn_def
      using issued_token_accepted [OF assms(1) k(2) Inr k(1) refl h(1,2) k(5,4) assms(2), of E] h(3)
      by (fastforce simp: entityOf_def Entity_def)
    then show ?thesis
      using Inr first signAccessToken_nonempty [OF assms(3) Inr] by auto
  qed
qed

text \<open>
  What a client gets that asks for the headers of a request: an error of the signing library, or headers that
  it keeps and with which a server runs the handler of any method that is not exempt, with the entity.
\<close>

definition clientLetIn ::
  "('priv, 'pub) jwt_lib \<Rightarrow> err_env \<Rightarrow> ('priv, 'pub, 'd) auth_server \<Rightarrow> string list \<Rightarrow> string \<Rightarrow> headers \<Rightarrow> rpc_creds \<Rightarrow> bool" where
  "clientLetIn J E ss uri entity hs creds \<longleftrightarrow>
     (\<forall>peer. GetRequestMetadata peer uri creds = (Inr hs, creds)) \<and>
     (\<forall>ctx. \<exists>ctx'. ContextAuthEntity ctx' = Some \<lparr>entEntity = entity, entData = None\<rparr> \<and>
        (\<forall>fullMethod (req :: string) handler :: 'd rpc_ctx \<Rightarrow> string \<Rightarrow> err + string. \<not> flagged (asExemptMethods ss) fullMethod \<longrightarrow>
           authUnaryInterceptor J E ss (sentCtx ctx hs) req fullMethod handler = handler ctx' req))"

lemma kept_token_let_in:
  fixes ss :: "('priv, 'pub, 'd) auth_server"
  assumes "letsIn J E ss s entity" "entity \<noteq> []" "s \<noteq> []" "rcAccessToken creds = s" "\<not> toAuthService uri"
  shows "clientLetIn J E ss uri entity [(''Authorization'', ''Bearer '' @ s)] creds"
  unfolding clientLetIn_def
proof (intro conjI allI)
  show "GetRequestMetadata peer uri creds = (Inr [(''Authorization'', ''Bearer '' @ s)], creds)" for peer
    using assms(3-5) by (simp add: GetRequestMetadata_def authenticate_def)
next
  fix ctx :: "'d rpc_ctx"
  let ?ctx = "ContextWithAuthEntity (bearerCtx ctx s) \<lparr>entEntity = entity, entData = None :: 'd option\<rparr>"
  have "ContextAuthEntity ?ctx = Some \<lparr>entEntity = entity, entData = None\<rparr>"
    using assms(2) by (simp add: ContextAuthEntity_def ContextWithAuthEntity_def)
  then show "\<exists>ctx'. ContextAuthEntity ctx' = Some \<lparr>entEntity = entity, entData = None\<rparr> \<and>
      (\<forall>fullMethod (req :: string) handler :: 'd rpc_ctx \<Rightarrow> string \<Rightarrow> err + string. \<not> flagged (asExemptMethods ss) fullMethod \<longrightarrow>
        authUnaryInterceptor J E ss (sentCtx ctx [(''Authorization'', ''Bearer '' @ s)]) req fullMethod handler = handler ctx' req)"
    by (intro exI [of _ ?ctx] conjI allI impI) (simp_all only: sentCtx_bearer letsIn_call [OF assms(1)] not_False_eq_True)
qed

text \<open>
  A client whose credentials the server knows is let in.  The headers that its credentials attach to a
  request make the server run the handler of any method that is not exempt with the client's entity in the
  context, and the credentials attach the same headers to later requests without asking the server again; the
  only way to fail is that the server cannot sign.
\<close>

lemma known_client_let_in:
  assumes "jwt_complete J keyPair" "jwt_fresh J now" "jwt_nonempty J" "knowsClient keyPair ss creds"
    and "rcExternalAuthMaterial creds = []" "rcExternalAuthToEntity creds = []" "rcAccessToken creds = []" "\<not> toAuthService uri"
  shows "(\<exists>md e. GetRequestMetadata (serverPeer J E now uuid ss ctx) uri creds = (Inl e, creds) \<and>
      signAccessTokenForEntity J ss now uuid (crType (rcCreds creds)) (asAudience ss) (rcEntity creds) md = Inl e) \<or>
    (\<exists>hs creds'. GetRequestMetadata (serverPeer J E now uuid ss ctx) uri creds = (Inr hs, creds') \<and>
      clientLetIn J E ss uri (rcEntity creds) hs creds')"
  using firstToken_accepted [OF assms(1-5), of E uuid ctx]
proof (elim disjE exE conjE)
  fix md e
  assume e: "firstToken (serverPeer J E now uuid ss ctx) creds = Inl e"
    "signAccessTokenForEntity J ss now uuid (crType (rcCreds creds)) (asAudience ss) (rcEntity creds) md = Inl e"
  have "GetRequestMetadata (serverPeer J E now uuid ss ctx) uri creds = (Inl e, creds)"
    using e(1) assms(7,8) by (simp add: GetRequestMetadata_def authenticate_def)
  then show ?thesis
    using e(2) by blast
next
  fix s
  assume s: "firstToken (serverPeer J E now uuid ss ctx) creds = Inr s" "s \<noteq> []" "letsIn J E ss s (rcEntity creds)"
  have "rcEntity creds \<noteq> []"
    using assms(4) by (simp add: knowsClient_def)
  from kept_token_let_in [OF s(3) this s(2) _ assms(8), of "creds\<lparr>rcAccessToken := s\<rparr>"]
  have "clientLetIn J E ss uri (rcEntity creds) [(''Authorization'', ''Bearer '' @ s)] (creds\<lparr>rcAccessToken := s\<rparr>)"
    by simp
  moreover have "GetRequestMetadata (serverPeer J E now uuid ss ctx) uri creds =
      (Inr [(''Authorization'', ''Bearer '' @ s)], creds\<lparr>rcAccessToken := s\<rparr>)"
    using s(1) assms(6-8) by (simp add: GetRequestMetadata_def authenticate_def)
  ultimately show ?thesis
    by blast
qed

section \<open>A client let in elsewhere\<close>

text \<open>
  Another server trusts the first one: it takes tokens of external credentials with the key of a provider that
  gives the first server's public key for the method the first server signs with.
\<close>

definition trustsIssuer ::
  "('priv, 'pub, 'd) auth_server \<Rightarrow> ('priv, 'pub, 'd) auth_server \<Rightarrow> string \<Rightarrow> bool" where
  "trustsIssuer issuer ss toEntity \<longleftrightarrow>
     asEnsureAuthed ss = None \<and> toEntity \<noteq> [] \<and> toEntity \<in> set (asAudience ss) \<and>
     (\<exists>h provider. mget (asHandlers ss) CredentialsTypeExternal = Some h \<and> hEntityData h = None \<and> hKeyProvider h = Some provider \<and>
        (\<forall>ctx t. akMethod (asSigningKey issuer) = Some (tokMethod t) \<longrightarrow> provider ctx t = Inr (akPublic (asSigningKey issuer))))"

lemma external_token_accepted:
  assumes "jwt_complete J keyPair" "jwt_fresh J now" "signingReady keyPair issuer" "trustsIssuer issuer ss toEntity" "entity \<noteq> []"
    and "signAccessTokenForEntity J issuer now uuid CredentialsTypeExternal [toEntity] entity authMD = Inr s"
  shows "letsIn J E ss s entity"
  unfolding letsIn_def
proof
  fix ctx
  obtain mt where mt: "akMethod (asSigningKey issuer) = Some mt" "mt \<in> set validSigningMethods"
    "keyPair (akPrivate (asSigningKey issuer)) (akPublic (asSigningKey issuer))"
    using assms(3) by (auto simp: signingReady_def Let_def)
  obtain h provider where h: "mget (asHandlers ss) CredentialsTypeExternal = Some h" "hEntityData h = None"
    "hKeyProvider h = Some provider"
    "\<forall>ctx t. akMethod (asSigningKey issuer) = Some (tokMethod t) \<longrightarrow> provider ctx t = Inr (akPublic (asSigningKey issuer))"
    using assms(4) unfolding trustsIssuer_def by blast
  have ss: "asEnsureAuthed ss = None" "\<exists>a \<in> set [toEntity]. a \<in> set (asAudience ss) \<and> a \<noteq> []"
    using assms(4) by (simp_all add: trustsIssuer_def)
  have "verificationKey ss (bearerCtx ctx s) (signedToken issuer now uuid CredentialsTypeExternal [toEntity] entity authMD mt) =
      Inr (akPublic (asSigningKey issuer))"
    using h mt(1) by (simp add: verificationKey_def authHandlers_def CredentialsType_def signedToken_def)
  from signed_token_accepted [OF assms(1) mt(1,2) assms(6) ss(1) h(1) this mt(3) ss(2) assms(5,2), of E]
  show "ensureAuthed J E ss (bearerCtx ctx s) =
      Inr (ContextWithAuthEntity (bearerCtx ctx s) \<lparr>entEntity = entity, entData = None\<rparr>)"
    using h(2) by (auto simp: entityOf_def Entity_def)
qed

text \<open>The issuer's answer to a client that it lets in.\<close>

lemma AuthenticateTo_let_in:
  assumes "letsIn J E issuer s entity" "entity \<noteq> []" "\<not> flagged (asExemptMethods issuer) authToMethod"
    and "\<forall>ctx. \<exists>md. asAuthTo issuer ctx toEntity = Inr md"
  shows "\<exists>md. apAuthenticateTo (serverPeer J E now uuid issuer ctx) (''Bearer '' @ s) toEntity =
    signAccessTokenForEntity J issuer now uuid CredentialsTypeExternal [toEntity] entity md"
proof -
  let ?ctx = "ContextWithAuthEntity (bearerCtx ctx s) \<lparr>entEntity = entity, entData = None\<rparr>"
  obtain md where md: "asAuthTo issuer ?ctx toEntity = Inr md"
    using assms(4) by blast
  have "AuthenticateTo J now uuid issuer ?ctx toEntity =
      signAccessTokenForEntity J issuer now uuid CredentialsTypeExternal [toEntity] entity md"
    using md assms(2) by (simp add: AuthenticateTo_def ContextAuthEntity_def ContextWithAuthEntity_def)
  moreover have "apAuthenticateTo (serverPeer J E now uuid issuer ctx) (''Bearer '' @ s) toEntity =
      AuthenticateTo J now uuid issuer ?ctx toEntity"
    unfolding serverPeer_def auth_peer.select_convs sentCtx_header by (rule letsIn_call [OF assms(1,3)])
  ultimately show ?thesis
    by metis
qed

text \<open>
  C4.  A client whose credentials one server knows is let in at another that trusts it.  The credentials
  authenticate at the first server, have it issue a token for the entity of the second, and attach that token
  to every request, and the second server runs the handler of any method that is not exempt with the client's
  entity in the context; the only way to fail is that the first server cannot sign.
\<close>

theorem external_client_let_in:
  assumes "jwt_complete J keyPair" "jwt_fresh J now" "jwt_nonempty J" "knowsClient keyPair issuer creds"
    and "trustsIssuer issuer ss (rcExternalAuthToEntity creds)" "\<not> flagged (asExemptMethods issuer) authToMethod"
    and "\<forall>ctx. \<exists>md. asAuthTo issuer ctx (rcExternalAuthToEntity creds) = Inr md"
    and "rcExternalAuthMaterial creds = []" "rcAccessToken creds = []" "\<not> toAuthService uri"
  shows "(\<exists>forType audience md e. GetRequestMetadata (serverPeer J E now uuid issuer ctx) uri creds = (Inl e, creds) \<and>
      signAccessTokenForEntity J issuer now uuid forType audience (rcEntity creds) md = Inl e) \<or>
    (\<exists>hs creds'. GetRequestMetadata (serverPeer J E now uuid issuer ctx) uri creds = (Inr hs, creds') \<and>
      clientLetIn J E ss uri (rcEntity creds) hs creds')"
proof (cases "firstToken (serverPeer J E now uuid issuer ctx) creds")
  case (Inl e)
  then have "GetRequestMetadata (serverPeer J E now uuid issuer ctx) uri creds = (Inl e, creds)"
    using assms(9,10) by (simp add: GetRequestMetadata_def authenticate_def)
  then show ?thesis
    using firstToken_accepted [OF assms(1-4,8), of E uuid ctx] Inl by auto
next
  case (Inr s)
  have ent: "rcEntity creds \<noteq> []" "rcExternalAuthToEntity creds \<noteq> []" "signingReady keyPair issuer"
    using assms(4,5) by (simp_all add: knowsClient_def trustsIssuer_def)
  have "letsIn J E issuer s (rcEntity creds)"
    using firstToken_accepted [OF assms(1-4,8), of E uuid ctx] Inr by auto
  from AuthenticateTo_let_in [OF this ent(1) assms(6,7)] obtain md where
    to: "apAuthenticateTo (serverPeer J E now uuid issuer ctx) (''Bearer '' @ s) (rcExternalAuthToEntity creds) =
      signAccessTokenForEntity J issuer now uuid CredentialsTypeExternal [rcExternalAuthToEntity creds] (rcEntity creds) md"
    by metis
  let ?sign = "signAccessTokenForEntity J issuer now uuid CredentialsTypeExternal [rcExternalAuthToEntity creds] (rcEntity creds) md"
  show ?thesis
  proof (cases ?sign)
    case (Inl e)
    then have "GetRequestMetadata (serverPeer J E now uuid issuer ctx) uri creds = (Inl e, creds)"
      using assms(9,10) Inr ent(2) to by (simp add: GetRequestMetadata_def authenticate_def)
    then show ?thesis
      using Inl by blast
  next
    case t: (Inr t)
    note let_in = external_token_accepted [OF assms(1,2) ent(3) assms(5) ent(1) t, of E]
    have "clientLetIn J E ss uri (rcEntity creds) [(''Authorization'', ''Bearer '' @ t)] (creds\<lparr>rcAccessToken := t\<rparr>)"
      by (rule kept_token_let_in [OF let_in ent(1) signAccessToken_nonempty [OF assms(3) t] _ assms(10)]) simp
    moreover have "GetRequestMetadata (serverPeer J E now uuid issuer ctx) uri creds =
        (Inr [(''Authorization'', ''Bearer '' @ t)], creds\<lparr>rcAccessToken := t\<rparr>)"
      using Inr ent(2) to t assms(9,10) by (simp add: GetRequestMetadata_def authenticate_def)
    ultimately show ?thesis
      by blast
  qed
qed

section \<open>Clients to look at\<close>

definition demoExternalToken :: jwt_token where
  "demoExternalToken =
     demoToken\<lparr>tokClaims := (tokClaims demoToken)\<lparr>clAudience := [''arm''], clCredsType := CredentialsTypeExternal\<rparr>\<rparr>"

text \<open>A library that signs the two tokens.\<close>

definition demoTokens :: "(string \<times> jwt_token) list" where
  "demoTokens = [(''tok'', demoToken), (''ext'', demoExternalToken)]"

definition twoTokenJWT :: "(nat, nat) jwt_lib" where
  "twoTokenJWT = demoJWT\<lparr>
     parseWithClaims := (\<lambda>s kf ms.
        case map_of demoTokens s of
          None \<Rightarrow> Inl (ErrText ''malformed'')
        | Some t \<Rightarrow>
            if tokMethod t \<in> set ms then
              (case kf t of Inl e \<Rightarrow> Inl e | Inr key \<Rightarrow> if key = 7 then Inr t else Inl (ErrText ''signature''))
            else Inl (ErrText ''malformed'')),
     signedString := (\<lambda>t priv. if t = demoToken then Inr ''tok'' else if t = demoExternalToken then Inr ''ext'' else Inl (ErrText ''sign''))\<rparr>"

lemma twoTokenJWT_laws: "jwt_complete twoTokenJWT demoPair" "jwt_fresh twoTokenJWT 5" "jwt_nonempty twoTokenJWT"
  by (auto simp: jwt_complete_def jwt_fresh_def jwt_nonempty_def twoTokenJWT_def demoJWT_def demoPair_def demoTokens_def
      split: if_splits sum.splits)

definition clientIssuer :: "(nat, nat, nat) auth_server" where
  "clientIssuer = demoAuthServer\<lparr>asExemptMethods := [(authMethod, True)]\<rparr>"

definition trustingServer :: "(nat, nat, nat) auth_server" where
  "trustingServer = clientIssuer\<lparr>asAudience := [''arm''], asKeys := [],
     asHandlers := [(CredentialsTypeExternal, \<lparr>hAuth = None, hEntityData = None,
       hKeyProvider = Some (\<lambda>_. MakeEd25519PublicKeyProvider twoTokenJWT 7)\<rparr>)]\<rparr>"

definition demoCreds :: "string \<Rightarrow> rpc_creds" where
  "demoCreds toEntity =
     \<lparr>rcEntity = ''alice'', rcExternalAuthToEntity = toEntity, rcCreds = \<lparr>crType = ''api-key'', crPayload = ''secret''\<rparr>,
      rcAccessToken = [], rcExternalAuthMaterial = []\<rparr>"

abbreviation "issuerPeer \<equiv> serverPeer twoTokenJWT plainErrEnv 5 ''u'' clientIssuer demoCtx"

lemma demo_knowsClient: "knowsClient demoPair clientIssuer (demoCreds e)"
proof -
  have "signingReady demoPair clientIssuer"
    by (simp add: signingReady_def clientIssuer_def demoAuthServer_def demoPair_def validSigningMethods_def)
  then show ?thesis
    by (simp add: knowsClient_def clientIssuer_def demoAuthServer_def demoCreds_def flagged_def MakeSimpleAuthHandler_def
        MakeSimpleMultiAuthHandler_def MakeEntitiesChecker_def)
qed

lemma demo_trustsIssuer: "trustsIssuer clientIssuer trustingServer ''arm''"
  by (simp add: trustsIssuer_def trustingServer_def clientIssuer_def demoAuthServer_def MakeEd25519PublicKeyProvider_def
      twoTokenJWT_def demoJWT_def)

theorem external_client_let_in_witness:
  "\<exists>hs creds'. GetRequestMetadata issuerPeer [] (demoCreds ''arm'') = (Inr hs, creds') \<and>
    clientLetIn twoTokenJWT plainErrEnv trustingServer [] ''alice'' hs creds'"
proof -
  have "fst (GetRequestMetadata issuerPeer [] (demoCreds ''arm'')) = Inr [(''Authorization'', ''Bearer ext'')]"
    by code_simp
  moreover have "\<not> flagged (asExemptMethods clientIssuer) authToMethod"
    by code_simp
  moreover have "asAuthTo clientIssuer = (\<lambda>_ _. Inr [])"
    by (simp add: clientIssuer_def demoAuthServer_def)
  ultimately show ?thesis
    using external_client_let_in [OF twoTokenJWT_laws demo_knowsClient, of trustingServer "''arm''" "[]" plainErrEnv "''u''" demoCtx]
      demo_trustsIssuer
    by (auto simp: demoCreds_def toAuthService_def)
qed

end
