(* ===== verification/Tracing.thy ===== *)
theory Tracing
  imports ClientAuth
begin

text \<open>
  Interceptors: the tracing ones of \<^verbatim>\<open>src/rpc/client_interceptors.go\<close> and \<^verbatim>\<open>src/rpc/server_interceptors.go\<close>,
  which carry the span of a call from the client to the server in its metadata, and the ones of
  \<^verbatim>\<open>src/rpc/server.go\<close> that turn the errors of handlers into statuses.

  A handler returns a response, which may be nil, and an error, or it panics.  The span that
  \<^verbatim>\<open>go.opencensus.io/trace\<close> starts is known by its remote parent, which the context of a call carries.
\<close>

section \<open>Spans in metadata\<close>

record span_context =
  spTraceID :: bytes
  spSpanID :: bytes
  spTraceOptions :: "32 word"

text \<open>Identifiers are arrays of 16 and of 8 bytes.\<close>

definition wfSpan :: "span_context \<Rightarrow> bool" where
  "wfSpan sp \<longleftrightarrow> length (spTraceID sp) = 16 \<and> length (spSpanID sp) = 8"

definition contextWithSpanMetadata :: "span_context option \<Rightarrow> headers \<Rightarrow> headers" where
  "contextWithSpanMetadata span outgoing =
     (case span of
        None \<Rightarrow> outgoing
      | Some sp \<Rightarrow> outgoing @
          [(''trace-id'', hexEncode (spTraceID sp)),
           (''span-id'', hexEncode (spSpanID sp)),
           (''trace-options'', decimal (unat (spTraceOptions sp)))])"

definition UnaryClientTracingInterceptor :: "span_context option \<Rightarrow> headers \<Rightarrow> (headers \<Rightarrow> 'r) \<Rightarrow> 'r" where
  "UnaryClientTracingInterceptor span outgoing invoker = invoker (contextWithSpanMetadata span outgoing)"

definition StreamClientTracingInterceptor :: "span_context option \<Rightarrow> headers \<Rightarrow> (headers \<Rightarrow> 'r) \<Rightarrow> 'r" where
  "StreamClientTracingInterceptor span outgoing streamer = streamer (contextWithSpanMetadata span outgoing)"

text \<open>\<^verbatim>\<open>copy(array[:], bs)\<close> into an array of \<open>n\<close> zero bytes.\<close>

definition copyArray :: "nat \<Rightarrow> bytes \<Rightarrow> bytes" where
  "copyArray n bs = take n bs @ replicate (n - length bs) 0"

text \<open>\<^const>\<open>None\<close> is the panic of indexing the values of a missing key.\<close>

definition remoteSpanContextFromContext :: "'d rpc_ctx \<Rightarrow> (err + span_context) option" where
  "remoteSpanContextFromContext ctx =
     (case ctxMD ctx of
        None \<Rightarrow> Some (Inl (ErrText ''no metadata in context''))
      | Some md \<Rightarrow>
          (case mdValues md ''trace-id'' of
             [] \<Rightarrow> Some (Inl (ErrText ''trace-id is missing from metadata''))
           | traceIDMetadata # _ \<Rightarrow>
               (case hexDecode traceIDMetadata of
                  Inl e \<Rightarrow> Some (Inl (ErrWrap ''trace-id could not be decoded: '' e))
                | Inr traceIDBytes \<Rightarrow>
                    (case mdValues md ''span-id'' of
                       [] \<Rightarrow> None
                     | spanIDMetadata # _ \<Rightarrow>
                         (case hexDecode spanIDMetadata of
                            Inl e \<Rightarrow> Some (Inl (ErrWrap ''span-id could not be decoded: '' e))
                          | Inr spanIDBytes \<Rightarrow>
                              (case mdValues md ''trace-options'' of
                                 [] \<Rightarrow> Some (Inl (ErrText ''trace-options is missing from metadata''))
                               | traceOptionsMetadata # _ \<Rightarrow>
                                   (case parseUint 32 traceOptionsMetadata of
                                      Inl e \<Rightarrow> Some (Inl (ErrWrap ''trace-options could not be parsed as uint: '' e))
                                    | Inr traceOptionsUint \<Rightarrow>
                                        Some (Inr \<lparr>spTraceID = copyArray 16 traceIDBytes, spSpanID = copyArray 8 spanIDBytes,
                                          spTraceOptions = word_of_nat traceOptionsUint\<rparr>))))))))"

section \<open>Interceptors of the server\<close>

datatype 'r outcome = Returned "'r option" "err option" | Panicked string

type_synonym 'd call_ctx = "'d rpc_ctx \<times> span_context option"

type_synonym ('d, 'q, 'r) unary_handler = "'d call_ctx \<Rightarrow> 'q \<Rightarrow> 'r outcome"

type_synonym ('s, 'd) stream_handler = "('s, 'd) srv_arg \<Rightarrow> 'd call_ctx \<Rightarrow> unit outcome"

definition statusErr :: "grpc_status \<Rightarrow> err" where
  "statusErr st = ErrStatus (fst st) (snd st)"

definition indexPanic :: string where
  "indexPanic = ''runtime error: index out of range [0] with length 0''"

text \<open>What the interceptors make of the outcome of a handler; the tracing one keeps the response beside a status.\<close>

definition statusOutcome :: "bool \<Rightarrow> err_env \<Rightarrow> 'r outcome \<Rightarrow> 'r outcome" where
  "statusOutcome keep E out =
     (case out of
        Panicked p \<Rightarrow> Panicked p
      | Returned resp None \<Rightarrow> Returned resp None
      | Returned resp (Some e) \<Rightarrow>
          if stFromError E e \<noteq> None then Returned (if keep then resp else None) (Some e)
          else case stFromContextError E (Some e) of
            Some s \<Rightarrow> Returned (if keep then resp else None) (Some (statusErr s))
          | None \<Rightarrow> Returned None (Some e))"

definition UnaryServerTracingInterceptor ::
  "err_env \<Rightarrow> 'd call_ctx \<Rightarrow> 'q \<Rightarrow> ('d, 'q, 'r) unary_handler \<Rightarrow> 'r outcome" where
  "UnaryServerTracingInterceptor E ctx req handler =
     (case remoteSpanContextFromContext (fst ctx) of
        None \<Rightarrow> Panicked indexPanic
      | Some remote \<Rightarrow>
          let ctx = (case remote of Inl _ \<Rightarrow> ctx | Inr sp \<Rightarrow> (fst ctx, Some sp)) in
          statusOutcome True E (handler ctx req))"

definition unaryServerCodeInterceptor ::
  "err_env \<Rightarrow> 'd call_ctx \<Rightarrow> 'q \<Rightarrow> ('d, 'q, 'r) unary_handler \<Rightarrow> 'r outcome" where
  "unaryServerCodeInterceptor E ctx req handler = statusOutcome False E (handler ctx req)"

text \<open>The stream interceptors; the context of the stream is the second argument of its handler.\<close>

definition streamServerCodeInterceptor ::
  "err_env \<Rightarrow> ('s, 'd) srv_arg \<Rightarrow> 'd call_ctx \<Rightarrow> ('s, 'd) stream_handler \<Rightarrow> unit outcome" where
  "streamServerCodeInterceptor E srv stream handler = statusOutcome False E (handler srv stream)"

definition wrapServerStream :: "'d rpc_ctx \<Rightarrow> span_context \<Rightarrow> 'd call_ctx" where
  "wrapServerStream ctx sp = (ctx, Some sp)"

definition StreamServerTracingInterceptor ::
  "err_env \<Rightarrow> ('s, 'd) srv_arg \<Rightarrow> 'd call_ctx \<Rightarrow> ('s, 'd) stream_handler \<Rightarrow> unit outcome" where
  "StreamServerTracingInterceptor E srv stream handler =
     (case remoteSpanContextFromContext (fst stream) of
        None \<Rightarrow> Panicked indexPanic
      | Some remote \<Rightarrow>
          let stream = (case remote of Inl _ \<Rightarrow> stream | Inr sp \<Rightarrow> wrapServerStream (fst stream) sp) in
          statusOutcome False E (handler srv stream))"

section \<open>The span arrives\<close>

lemma wireMD_snoc: "wireMD (hs @ [(k, v)]) = mput (map lowerChar k) (mdValues (wireMD hs) (map lowerChar k) @ [v]) (wireMD hs)"
  by (simp add: wireMD_def)

lemma mdValues_wireMD: "mdValues (wireMD hs) k = map snd (filter (\<lambda>h. map lowerChar (fst h) = k) hs)"
proof (induction hs rule: rev_induct)
  case Nil
  show ?case
    by (simp add: wireMD_def mdValues_def)
next
  case (snoc h hs)
  obtain a v where h: "h = (a, v)"
    by (cases h)
  show ?case
    using snoc unfolding h wireMD_snoc by (auto simp: mdValues_def)
qed

lemma copyArray_full: "length bs = n \<Longrightarrow> copyArray n bs = bs"
  by (simp add: copyArray_def)

definition traceKeys :: "string list" where
  "traceKeys = [''trace-id'', ''span-id'', ''trace-options'']"

lemma lower_traceKeys: "map lowerChar ''trace-id'' = ''trace-id''" "map lowerChar ''span-id'' = ''span-id''"
  "map lowerChar ''trace-options'' = ''trace-options''"
  by code_simp+

lemma traced_values:
  assumes "\<forall>h \<in> set hs. map lowerChar (fst h) \<notin> set traceKeys"
  shows "mdValues (wireMD (contextWithSpanMetadata (Some sp) hs)) ''trace-id'' = [hexEncode (spTraceID sp)]"
    "mdValues (wireMD (contextWithSpanMetadata (Some sp) hs)) ''span-id'' = [hexEncode (spSpanID sp)]"
    "mdValues (wireMD (contextWithSpanMetadata (Some sp) hs)) ''trace-options'' = [decimal (unat (spTraceOptions sp))]"
proof -
  have hs: "filter (\<lambda>h. map lowerChar (fst h) = k) hs = []" if "k \<in> set traceKeys" for k
    using assms that by (auto simp: filter_empty_conv)
  show "mdValues (wireMD (contextWithSpanMetadata (Some sp) hs)) ''trace-id'' = [hexEncode (spTraceID sp)]"
    "mdValues (wireMD (contextWithSpanMetadata (Some sp) hs)) ''span-id'' = [hexEncode (spSpanID sp)]"
    "mdValues (wireMD (contextWithSpanMetadata (Some sp) hs)) ''trace-options'' = [decimal (unat (spTraceOptions sp))]"
    unfolding mdValues_wireMD contextWithSpanMetadata_def option.case filter_append filter.simps fst_conv lower_traceKeys
    by (simp_all add: hs traceKeys_def)
qed

lemma remote_span_read:
  assumes "wfSpan sp" "\<forall>h \<in> set hs. map lowerChar (fst h) \<notin> set traceKeys"
  shows "remoteSpanContextFromContext (sentCtx ctx (contextWithSpanMetadata (Some sp) hs)) = Some (Inr sp)"
proof -
  have "unat (spTraceOptions sp) < 2 ^ 32"
    using unsigned_less [of "spTraceOptions sp"] by simp
  from parseUint_decimal [OF this] show ?thesis
    using assms(1) unfolding remoteSpanContextFromContext_def sentCtx_def
    by (simp add: traced_values [OF assms(2)] wfSpan_def copyArray_full)
qed

text \<open>
  C29.  The span of a call arrives: with the metadata that the client's interceptor attaches, the server's
  interceptor runs the handler under a span whose remote parent is the client's, with its identifiers and its
  32 bits of options unchanged, for calls and for streams.  The call must not carry trace metadata already,
  since the first value of a key is the one read.
\<close>

theorem span_arrives:
  assumes "wfSpan sp" "\<forall>h \<in> set hs. map lowerChar (fst h) \<notin> set traceKeys"
  shows "\<exists>sent. UnaryClientTracingInterceptor (Some sp) hs id = sent \<and> StreamClientTracingInterceptor (Some sp) hs id = sent \<and>
    (\<forall>handler. UnaryServerTracingInterceptor E (sentCtx ctx sent, parent) req handler =
       statusOutcome True E (handler (sentCtx ctx sent, Some sp) req)) \<and>
    (\<forall>handler. StreamServerTracingInterceptor E srv (sentCtx ctx sent, parent) handler =
       statusOutcome False E (handler srv (sentCtx ctx sent, Some sp)))"
  using remote_span_read [OF assms, of ctx]
  by (simp add: UnaryClientTracingInterceptor_def UnaryServerTracingInterceptor_def StreamClientTracingInterceptor_def
      StreamServerTracingInterceptor_def wrapServerStream_def)

definition demoSpan :: span_context where
  "demoSpan = \<lparr>spTraceID = replicate 16 7, spSpanID = replicate 8 9, spTraceOptions = 1\<rparr>"

theorem span_arrives_witness:
  "\<exists>sent. UnaryServerTracingInterceptor plainErrEnv (sentCtx demoCtx sent, None) (5 :: nat) (\<lambda>c q. Returned (Some (snd c, q)) None) =
    Returned (Some (Some demoSpan, 5)) None"
proof -
  have "wfSpan demoSpan" "map lowerChar ''a'' \<notin> set traceKeys"
    by code_simp+
  then obtain sent where "\<forall>handler. UnaryServerTracingInterceptor plainErrEnv (sentCtx demoCtx sent, None) (5 :: nat) handler =
       statusOutcome True plainErrEnv (handler (sentCtx demoCtx sent, Some demoSpan) 5 :: (span_context option \<times> nat) outcome)"
    using span_arrives [of demoSpan "[(''a'', ''b'')]" plainErrEnv demoCtx None "5 :: nat"] by auto
  then show ?thesis
    by (intro exI [of _ sent]) (simp add: statusOutcome_def)
qed

text \<open>A call with a trace identifier and no span identifier panics the interceptor.\<close>

lemma missing_span_id_panics:
  assumes "ctxMD (fst ctx) = Some md" "mdValues md ''trace-id'' = t # ts" "hexDecode t = Inr bs" "mdValues md ''span-id'' = []"
  shows "UnaryServerTracingInterceptor E ctx req handler = Panicked indexPanic"
  using assms by (simp add: UnaryServerTracingInterceptor_def remoteSpanContextFromContext_def)

end
