(* ===== verification/GoAddr.thy ===== *)
theory GoAddr
  imports GoStrconv
begin

text \<open>
  More of the Go standard library that a server uses: \<^verbatim>\<open>encoding/base64\<close> in its standard and its raw URL form,
  \<^verbatim>\<open>net.ParseIP\<close> for both families, and \<^verbatim>\<open>net.JoinHostPort\<close>.
\<close>

section \<open>Base 64\<close>

definition stdAlphabet :: string where
  "stdAlphabet = ''ABCDEFGHIJKLMNOPQRSTUVWXYZabcdefghijklmnopqrstuvwxyz0123456789+/''"

definition urlAlphabet :: string where
  "urlAlphabet = ''ABCDEFGHIJKLMNOPQRSTUVWXYZabcdefghijklmnopqrstuvwxyz0123456789-_''"

text \<open>\<open>fill\<close> is what stands for each missing sextet: a padding character or nothing.\<close>

fun base64 :: "string \<Rightarrow> string \<Rightarrow> bytes \<Rightarrow> string" where
  "base64 alpha fill [] = []"
| "base64 alpha fill [a] =
     [alpha ! (unat a div 4), alpha ! (unat a mod 4 * 16)] @ fill @ fill"
| "base64 alpha fill [a, b] =
     [alpha ! (unat a div 4), alpha ! (unat a mod 4 * 16 + unat b div 16), alpha ! (unat b mod 16 * 4)] @ fill"
| "base64 alpha fill (a # b # c # bs) =
     [alpha ! (unat a div 4), alpha ! (unat a mod 4 * 16 + unat b div 16),
      alpha ! (unat b mod 16 * 4 + unat c div 64), alpha ! (unat c mod 64)] @ base64 alpha fill bs"

definition stdBase64 :: "bytes \<Rightarrow> string" where
  "stdBase64 = base64 stdAlphabet ''=''"

definition rawURLBase64 :: "bytes \<Rightarrow> string" where
  "rawURLBase64 = base64 urlAlphabet []"

lemma base64_Nil_iff: "base64 alpha fill bs = [] \<longleftrightarrow> bs = []"
  by (cases "(alpha, fill, bs)" rule: base64.cases) auto

lemma stdBase64_length: "length (stdBase64 bs) = 4 * ((length bs + 2) div 3)"
proof -
  have "length fill = 1 \<Longrightarrow> length (base64 alpha fill bs) = 4 * ((length bs + 2) div 3)" for alpha fill
    by (induction alpha fill bs rule: base64.induct) (simp_all, presburger)
  then show ?thesis
    by (simp add: stdBase64_def)
qed

section \<open>Addresses\<close>

text \<open>
  The loop of \<^verbatim>\<open>netip.parseIPv6\<close> over the groups: \<open>i\<close> is the number of bytes read and \<open>ellipsis\<close> says that the
  two colons were seen.  The result says whether the string is an address.
\<close>

definition hexGroup :: "string \<Rightarrow> string" where
  "hexGroup s = takeWhile (\<lambda>c. hexVal c \<noteq> None) s"

definition ipv6Done :: "string \<Rightarrow> nat \<Rightarrow> bool \<Rightarrow> bool" where
  "ipv6Done s i ellipsis \<longleftrightarrow> s = [] \<and> (if i < 16 then ellipsis else \<not> ellipsis)"

function ipv6Loop :: "string \<Rightarrow> nat \<Rightarrow> bool \<Rightarrow> bool" where
  "ipv6Loop s i ellipsis =
     (if 16 \<le> i then ipv6Done s i ellipsis
      else
        let g = hexGroup s; r = drop (length g) s in
        if g = [] \<or> 4 < length g then False
        else if r \<noteq> [] \<and> hd r = CHR ''.'' then
          (if \<not> ellipsis \<and> i \<noteq> 12 then False
           else if 16 < i + 4 then False
           else parseIPv4 s \<and> ipv6Done [] (i + 4) ellipsis)
        else if r = [] then ipv6Done [] (i + 2) ellipsis
        else if hd r \<noteq> CHR '':'' then False
        else if length r = 1 then False
        else
          let s = tl r in
          if hd s = CHR '':'' then
            (if ellipsis then False
             else if tl s = [] then ipv6Done [] (i + 2) True
             else ipv6Loop (tl s) (i + 2) True)
          else ipv6Loop s (i + 2) ellipsis)"
  by pat_completeness auto
termination
  by (relation "measure (\<lambda>(s, i, ellipsis). 16 - i)") auto

definition parseIPv6 :: "string \<Rightarrow> bool" where
  "parseIPv6 s =
     (if take 2 s = ''::'' then (drop 2 s = [] \<or> ipv6Loop (drop 2 s) 0 True)
      else ipv6Loop s 0 False)"

text \<open>The first of the three separators decides the family; an address with a zone is not an IP.\<close>

definition parseIP :: "string \<Rightarrow> bool" where
  "parseIP s =
     (case dropWhile (\<lambda>c. c \<notin> set ''.:%'') s of
        [] \<Rightarrow> False
      | c # _ \<Rightarrow>
          if c = CHR ''.'' then parseIPv4 s
          else if c = CHR '':'' then CHR ''%'' \<notin> set s \<and> parseIPv6 s
          else False)"

lemma parseIP_examples: "parseIP ''127.0.0.1'' \<and> parseIP ''::'' \<and> parseIP ''fe80::1'' \<and> parseIP ''::ffff:1.2.3.4'' \<and>
  \<not> parseIP ''localhost'' \<and> \<not> parseIP ''1.2.3'' \<and> \<not> parseIP ''1:2'' \<and> \<not> parseIP ''fe80::1%eth0''"
  by code_simp

definition joinHostPort :: "string \<Rightarrow> string \<Rightarrow> string" where
  "joinHostPort host port =
     (if CHR '':'' \<in> set host then ''['' @ host @ '']:'' @ port else host @ '':'' @ port)"

lemma split_join:
  assumes "set host \<inter> set ''[]'' = {}" "set port \<inter> set '':[]'' = {}"
  shows "splitHostPort (joinHostPort host port) = Inr (host, port)"
  using assms splitHostPort_bracketed [OF assms] splitHostPort_plain [of host port]
  by (auto simp: joinHostPort_def)

end
