(* ===== verification/ServerOptions.thy ===== *)
theory ServerOptions
  imports Tracing GoAddr
begin

text \<open>
  The options of a server (\<^verbatim>\<open>src/rpc/server_options.go\<close>).  An option is a function that may fail; the interface
  of options has an unexported function, so the options there are are those of the package, the set
  \<open>packageOption\<close>.

  Keys are opaque; \<open>key_lib\<close> holds what the code asks of them: the nil keys, the public key of a private one and
  the thumbprints.  Requests and responses are the bytes of their messages, a service is a number, and stats
  handlers, stream handlers for unknown services and peer callbacks are only passed on.
\<close>

section \<open>The options\<close>

record ('priv, 'pub) key_lib =
  klNilPriv :: 'priv
  klNilPub :: 'pub
  klPublic :: "'priv \<Rightarrow> 'pub"
  klRSAThumbprint :: "'pub \<Rightarrow> err + string"
  klKeyBytes :: "'pub \<Rightarrow> bytes"

definition ED25519PublicKeyThumbprint :: "('priv, 'pub) key_lib \<Rightarrow> 'pub \<Rightarrow> string" where
  "ED25519PublicKeyThumbprint K key = rawURLBase64 (klKeyBytes K key)"

definition zeroKey :: "('priv, 'pub) key_lib \<Rightarrow> ('priv, 'pub) auth_key_data" where
  "zeroKey K = \<lparr>akID = [], akMethod = None, akPrivate = klNilPriv K, akPublic = klNilPub K\<rparr>"

definition Validate :: "('priv, 'pub) key_lib \<Rightarrow> ('priv, 'pub) auth_key_data \<Rightarrow> err option" where
  "Validate K d =
     (if akID d = [] then Some (ErrText ''invariant: auth key has no id'')
      else if akMethod d = None then Some (ErrText (''invariant: auth key '' @ goQuote (akID d) @ '' has no signing method''))
      else if akPrivate d = klNilPriv K then Some (ErrText (''invariant: auth key '' @ goQuote (akID d) @ '' has no private key''))
      else if akPublic d = klNilPub K then Some (ErrText (''invariant: auth key '' @ goQuote (akID d) @ '' has no public key''))
      else None)"

record tcp_addr =
  taIP :: string
  taPort :: nat

text \<open>A TLS configuration of a server; \<open>stGetCertificate\<close> is the answer of the callback to an empty hello.\<close>

record server_tls = tls_config +
  stCertificates :: "nat list"
  stGetCertificate :: "(err + nat option) option"
  stClientAuth :: nat

record webrtc_server_options =
  wsEnable :: bool
  wsExternalSignalingDialOpts :: "dial_option list"
  wsExternalSignalingAddress :: string
  wsEnableInternalSignaling :: bool
  wsExternalSignalingHosts :: "string list"
  wsInternalSignalingHosts :: "string list"
  wsConfig :: "nat option"
  wsOnPeerAdded :: "nat option"
  wsOnPeerRemoved :: "nat option"

type_synonym 'd unary_interceptor =
  "'d call_ctx \<Rightarrow> bytes \<Rightarrow> string \<Rightarrow> ('d, bytes, bytes) unary_handler \<Rightarrow> bytes outcome"

type_synonym 'd stream_interceptor =
  "(nat, 'd) srv_arg \<Rightarrow> 'd call_ctx \<Rightarrow> string \<Rightarrow> (nat, 'd) stream_handler \<Rightarrow> unit outcome"

type_synonym 'd tls_handler = "'d rpc_ctx \<Rightarrow> string list \<Rightarrow> err option"

record ('priv, 'pub, 'd) server_options =
  soBindAddress :: string
  soListenerAddress :: "tcp_addr option"
  soTLSConfig :: "server_tls option"
  soWebrtcOpts :: webrtc_server_options
  soUnaryInterceptor :: "'d unary_interceptor option"
  soStreamInterceptor :: "'d stream_interceptor option"
  soInstanceNames :: "string list"
  soUnauthenticated :: bool
  soAllowUnauthenticatedHealthCheck :: bool
  soPublicMethods :: "string list"
  soAuthKeys :: "(string, ('priv, 'pub) auth_key_data) gomap"
  soJwtSignerKeyID :: string
  soDebug :: bool
  soTLSAuthHandler :: "'d tls_handler option"
  soAuthHandlers :: "(string, ('pub, 'd) cred_auth_handlers) gomap"
  soAuthAudience :: "string list"
  soAuthIssuer :: string
  soAuthToHandler :: "('d rpc_ctx \<Rightarrow> string \<Rightarrow> err + auth_md) option"
  soDisableMDNS :: bool
  soStatsHandler :: "nat option"
  soEnsureAuthedHandler :: "('d rpc_ctx \<Rightarrow> err + 'd rpc_ctx) option"
  soUnknownStreamDesc :: "nat option"

definition zeroWebRTCServerOptions :: webrtc_server_options where
  "zeroWebRTCServerOptions =
     \<lparr>wsEnable = False, wsExternalSignalingDialOpts = [], wsExternalSignalingAddress = [], wsEnableInternalSignaling = False,
      wsExternalSignalingHosts = [], wsInternalSignalingHosts = [], wsConfig = None, wsOnPeerAdded = None, wsOnPeerRemoved = None\<rparr>"

definition zeroServerOptions :: "('priv, 'pub, 'd) server_options" where
  "zeroServerOptions =
     \<lparr>soBindAddress = [], soListenerAddress = None, soTLSConfig = None, soWebrtcOpts = zeroWebRTCServerOptions,
      soUnaryInterceptor = None, soStreamInterceptor = None, soInstanceNames = [], soUnauthenticated = False,
      soAllowUnauthenticatedHealthCheck = False, soPublicMethods = [], soAuthKeys = [], soJwtSignerKeyID = [], soDebug = False,
      soTLSAuthHandler = None, soAuthHandlers = [], soAuthAudience = [], soAuthIssuer = [], soAuthToHandler = None,
      soDisableMDNS = False, soStatsHandler = None, soEnsureAuthedHandler = None, soUnknownStreamDesc = None\<rparr>"

section \<open>The option functions\<close>

type_synonym ('priv, 'pub, 'd) server_option =
  "('priv, 'pub, 'd) server_options \<Rightarrow> err + ('priv, 'pub, 'd) server_options"

definition WithInternalBindAddress :: "string \<Rightarrow> ('priv, 'pub, 'd) server_option" where
  "WithInternalBindAddress address o' = Inr (o'\<lparr>soBindAddress := address\<rparr>)"

definition WithExternalListenerAddress :: "tcp_addr option \<Rightarrow> ('priv, 'pub, 'd) server_option" where
  "WithExternalListenerAddress address o' = Inr (o'\<lparr>soListenerAddress := address\<rparr>)"

text \<open>The first assignment writes a TLS version into the field for client certificates; the second overwrites it.\<close>

definition WithInternalTLSConfig :: "server_tls \<Rightarrow> ('priv, 'pub, 'd) server_option" where
  "WithInternalTLSConfig config o' =
     (let config = (if stClientAuth config = 0 then config\<lparr>stClientAuth := 771\<rparr> else config) in
      Inr (o'\<lparr>soTLSConfig := Some (config\<lparr>stClientAuth := 3\<rparr>)\<rparr>))"

definition WithWebRTCServerOptions :: "webrtc_server_options \<Rightarrow> ('priv, 'pub, 'd) server_option" where
  "WithWebRTCServerOptions webrtcOpts o' = Inr (o'\<lparr>soWebrtcOpts := webrtcOpts\<rparr>)"

definition WithUnaryServerInterceptor :: "'d unary_interceptor option \<Rightarrow> ('priv, 'pub, 'd) server_option" where
  "WithUnaryServerInterceptor unaryInterceptor o' = Inr (o'\<lparr>soUnaryInterceptor := unaryInterceptor\<rparr>)"

definition WithStreamServerInterceptor :: "'d stream_interceptor option \<Rightarrow> ('priv, 'pub, 'd) server_option" where
  "WithStreamServerInterceptor streamInterceptor o' = Inr (o'\<lparr>soStreamInterceptor := streamInterceptor\<rparr>)"

definition WithInstanceNames :: "string list \<Rightarrow> ('priv, 'pub, 'd) server_option" where
  "WithInstanceNames names o' =
     (if length names = 0 then Inl (ErrText ''expected at least one instance name'')
      else Inr (o'\<lparr>soInstanceNames := names\<rparr>))"

definition WithUnauthenticated :: "('priv, 'pub, 'd) server_option" where
  "WithUnauthenticated o' = Inr (o'\<lparr>soUnauthenticated := True\<rparr>)"

definition withAuthKey :: "string \<Rightarrow> string \<Rightarrow> 'priv \<Rightarrow> 'pub \<Rightarrow> ('priv, 'pub, 'd) server_option" where
  "withAuthKey keyID alg priv pub o' =
     Inr (o'\<lparr>soAuthKeys := mput keyID \<lparr>akID = keyID, akMethod = Some alg, akPrivate = priv, akPublic = pub\<rparr> (soAuthKeys o')\<rparr>)"

definition WithAuthRSAPrivateKey ::
  "('priv, 'pub) key_lib \<Rightarrow> 'priv \<Rightarrow> err + ('priv, 'pub, 'd) server_option \<times> string" where
  "WithAuthRSAPrivateKey K priv =
     (case klRSAThumbprint K (klPublic K priv) of
        Inl e \<Rightarrow> Inl e
      | Inr thumbprint \<Rightarrow> Inr (withAuthKey thumbprint ''RS256'' priv (klPublic K priv), thumbprint))"

definition WithAuthED25519PrivateKey ::
  "('priv, 'pub) key_lib \<Rightarrow> 'priv \<Rightarrow> ('priv, 'pub, 'd) server_option \<times> string" where
  "WithAuthED25519PrivateKey K priv =
     (let pubKey = klPublic K priv; keyID = ED25519PublicKeyThumbprint K pubKey in
      (withAuthKey keyID ''EdDSA'' priv pubKey, keyID))"

definition WithJWTSignerKeyID :: "string \<Rightarrow> ('priv, 'pub, 'd) server_option" where
  "WithJWTSignerKeyID keyID o' = Inr (o'\<lparr>soJwtSignerKeyID := keyID\<rparr>)"

definition WithAuthAudience :: "string list \<Rightarrow> ('priv, 'pub, 'd) server_option" where
  "WithAuthAudience authAudience o' =
     (if length authAudience = 0 then Inl (ErrText ''expected at least one auth audience member'')
      else Inr (o'\<lparr>soAuthAudience := authAudience\<rparr>))"

definition WithAuthIssuer :: "string \<Rightarrow> ('priv, 'pub, 'd) server_option" where
  "WithAuthIssuer authIssuer o' =
     (if authIssuer = [] then Inl (ErrText ''auth issuer must be non-empty'')
      else Inr (o'\<lparr>soAuthIssuer := authIssuer\<rparr>))"

definition WithDebug :: "('priv, 'pub, 'd) server_option" where
  "WithDebug o' = Inr (o'\<lparr>soDebug := True\<rparr>)"

definition tlsEntityHandler :: "string list \<Rightarrow> 'd tls_handler" where
  "tlsEntityHandler entities ctx recvEntities =
     (case MakeEntitiesChecker entities recvEntities of None \<Rightarrow> None | Some _ \<Rightarrow> Some errNotTLSAuthed)"

definition WithTLSAuthHandler :: "string list \<Rightarrow> ('priv, 'pub, 'd) server_option" where
  "WithTLSAuthHandler entities o' = Inr (o'\<lparr>soTLSAuthHandler := Some (tlsEntityHandler entities)\<rparr>)"

definition credentialsTypeInternal :: string where
  "credentialsTypeInternal = ''__internal''"

definition noHandlers :: "('pub, 'd) cred_auth_handlers" where
  "noHandlers = \<lparr>hAuth = None, hEntityData = None, hKeyProvider = None\<rparr>"

text \<open>One of the three handlers: the new one if there is one, and an error if there are two.\<close>

definition addHandler :: "string \<Rightarrow> string \<Rightarrow> 'h option \<Rightarrow> 'h option \<Rightarrow> err + 'h option" where
  "addHandler forType what new existing =
     (case new of
        None \<Rightarrow> Inr existing
      | Some h \<Rightarrow>
          if existing \<noteq> None then Inl (ErrText (goQuote forType @ '' already has an '' @ what))
          else Inr (Some h))"

definition withCredAuthHandlers :: "string \<Rightarrow> ('pub, 'd) cred_auth_handlers \<Rightarrow> ('priv, 'pub, 'd) server_option" where
  "withCredAuthHandlers forType handler o' =
     (if forType = credentialsTypeInternal then Inl (ErrText (''cannot use '' @ goQuote forType @ '' externally''))
      else if forType = [] then Inl (ErrText ''type cannot be empty'')
      else
        let existing = (case mget (soAuthHandlers o') forType of None \<Rightarrow> noHandlers | Some h \<Rightarrow> h) in
        case addHandler forType ''AuthHandler'' (hAuth handler) (hAuth existing) of
          Inl e \<Rightarrow> Inl e
        | Inr auth \<Rightarrow>
            (case addHandler forType ''EntityDataLoader'' (hEntityData handler) (hEntityData existing) of
               Inl e \<Rightarrow> Inl e
             | Inr loader \<Rightarrow>
                 (case addHandler forType ''TokenVerificationKeyProvider'' (hKeyProvider handler) (hKeyProvider existing) of
                    Inl e \<Rightarrow> Inl e
                  | Inr provider \<Rightarrow>
                      Inr (o'\<lparr>soAuthHandlers := mput forType
                        \<lparr>hAuth = auth, hEntityData = loader, hKeyProvider = provider\<rparr> (soAuthHandlers o')\<rparr>))))"

definition WithAuthHandler ::
  "string \<Rightarrow> ('d rpc_ctx \<Rightarrow> string \<Rightarrow> string \<Rightarrow> err + auth_md) option \<Rightarrow> ('priv, 'pub, 'd) server_option" where
  "WithAuthHandler forType handler = withCredAuthHandlers forType (noHandlers\<lparr>hAuth := handler\<rparr>)"

definition WithEnsureAuthedHandler :: "('d rpc_ctx \<Rightarrow> err + 'd rpc_ctx) option \<Rightarrow> ('priv, 'pub, 'd) server_option" where
  "WithEnsureAuthedHandler eah o' = Inr (o'\<lparr>soEnsureAuthedHandler := eah\<rparr>)"

definition WithEntityDataLoader ::
  "string \<Rightarrow> ('d rpc_ctx \<Rightarrow> jwt_claims \<Rightarrow> err + 'd option) option \<Rightarrow> ('priv, 'pub, 'd) server_option" where
  "WithEntityDataLoader forType loader = withCredAuthHandlers forType (noHandlers\<lparr>hEntityData := loader\<rparr>)"

definition WithTokenVerificationKeyProvider ::
  "string \<Rightarrow> ('d rpc_ctx \<Rightarrow> jwt_token \<Rightarrow> err + 'pub) option \<Rightarrow> ('priv, 'pub, 'd) server_option" where
  "WithTokenVerificationKeyProvider forType provider = withCredAuthHandlers forType (noHandlers\<lparr>hKeyProvider := provider\<rparr>)"

definition WithExternalAuthRSAPublicKeyTokenVerifier :: "('priv, 'pub) jwt_lib \<Rightarrow> 'pub \<Rightarrow> ('priv, 'pub, 'd) server_option" where
  "WithExternalAuthRSAPublicKeyTokenVerifier J pubKey =
     WithTokenVerificationKeyProvider CredentialsTypeExternal (Some (\<lambda>_. MakeRSAPublicKeyProvider J pubKey))"

definition WithExternalAuthEd25519PublicKeyTokenVerifier :: "('priv, 'pub) jwt_lib \<Rightarrow> 'pub \<Rightarrow> ('priv, 'pub, 'd) server_option" where
  "WithExternalAuthEd25519PublicKeyTokenVerifier J pubKey =
     WithTokenVerificationKeyProvider CredentialsTypeExternal (Some (\<lambda>_. MakeEd25519PublicKeyProvider J pubKey))"

definition WithExternalAuthJWKSetTokenVerifier :: "(string \<Rightarrow> string \<Rightarrow> err + 'pub) \<Rightarrow> ('priv, 'pub, 'd) server_option" where
  "WithExternalAuthJWKSetTokenVerifier keySet =
     WithTokenVerificationKeyProvider CredentialsTypeExternal (Some (\<lambda>_. oidcTokenVerificationKey keySet))"

definition WithExternalTokenVerificationKeyProvider ::
  "('d rpc_ctx \<Rightarrow> jwt_token \<Rightarrow> err + 'pub) option \<Rightarrow> ('priv, 'pub, 'd) server_option" where
  "WithExternalTokenVerificationKeyProvider provider = WithTokenVerificationKeyProvider CredentialsTypeExternal provider"

definition WithAuthenticateToHandler ::
  "('d rpc_ctx \<Rightarrow> string \<Rightarrow> err + auth_md) option \<Rightarrow> ('priv, 'pub, 'd) server_option" where
  "WithAuthenticateToHandler handler o' = Inr (o'\<lparr>soAuthToHandler := handler\<rparr>)"

definition WithDisableMulticastDNS :: "('priv, 'pub, 'd) server_option" where
  "WithDisableMulticastDNS o' = Inr (o'\<lparr>soDisableMDNS := True\<rparr>)"

definition WithUnknownServiceHandler :: "nat \<Rightarrow> ('priv, 'pub, 'd) server_option" where
  "WithUnknownServiceHandler streamHandler o' = Inr (o'\<lparr>soUnknownStreamDesc := Some streamHandler\<rparr>)"

definition WithStatsHandler :: "nat option \<Rightarrow> ('priv, 'pub, 'd) server_option" where
  "WithStatsHandler handler o' = Inr (o'\<lparr>soStatsHandler := handler\<rparr>)"

definition WithAllowUnauthenticatedHealthCheck :: "('priv, 'pub, 'd) server_option" where
  "WithAllowUnauthenticatedHealthCheck o' = Inr (o'\<lparr>soAllowUnauthenticatedHealthCheck := True\<rparr>)"

definition WithPublicMethods :: "string list \<Rightarrow> ('priv, 'pub, 'd) server_option" where
  "WithPublicMethods fullMethods o' = Inr (o'\<lparr>soPublicMethods := fullMethods\<rparr>)"

inductive packageOption :: "('priv, 'pub) key_lib \<Rightarrow> ('priv, 'pub, 'd) server_option \<Rightarrow> bool" for K where
  "packageOption K (WithInternalBindAddress address)"
| "packageOption K (WithExternalListenerAddress addr)"
| "packageOption K (WithInternalTLSConfig config)"
| "packageOption K (WithWebRTCServerOptions webrtcOpts)"
| "packageOption K (WithUnaryServerInterceptor ui)"
| "packageOption K (WithStreamServerInterceptor si)"
| "packageOption K (WithInstanceNames names)"
| "packageOption K WithUnauthenticated"
| rsa: "WithAuthRSAPrivateKey K priv = Inr (opt, thumbprint) \<Longrightarrow> packageOption K opt"
| ed: "packageOption K (fst (WithAuthED25519PrivateKey K priv))"
| "packageOption K (WithJWTSignerKeyID keyID)"
| "packageOption K (WithAuthAudience aud)"
| "packageOption K (WithAuthIssuer iss)"
| "packageOption K WithDebug"
| "packageOption K (WithTLSAuthHandler entities)"
| auth: "packageOption K (WithAuthHandler forType handler)"
| "packageOption K (WithEnsureAuthedHandler eah)"
| loader: "packageOption K (WithEntityDataLoader forType loader)"
| provider: "packageOption K (WithTokenVerificationKeyProvider forType provider)"
| "packageOption K (WithAuthenticateToHandler ah)"
| "packageOption K WithDisableMulticastDNS"
| "packageOption K (WithUnknownServiceHandler sh)"
| "packageOption K (WithStatsHandler st)"
| "packageOption K WithAllowUnauthenticatedHealthCheck"
| "packageOption K (WithPublicMethods ms)"

fun applyServerOptions ::
  "('priv, 'pub, 'd) server_option list \<Rightarrow> ('priv, 'pub, 'd) server_options \<Rightarrow> err + ('priv, 'pub, 'd) server_options" where
  "applyServerOptions [] o' = Inr o'"
| "applyServerOptions (opt # opts) o' = (case opt o' of Inl e \<Rightarrow> Inl e | Inr o2 \<Rightarrow> applyServerOptions opts o2)"

section \<open>What options keep\<close>

text \<open>
  Every key is stored under its identifier with its public key and one of two methods, the handlers of
  internal credentials are never set, no type of credentials is empty, and the maps hold a key once.
\<close>

definition wfKey :: "('priv, 'pub) key_lib \<Rightarrow> ('priv, 'pub) auth_key_data \<Rightarrow> bool" where
  "wfKey K d \<longleftrightarrow> akPublic d = klPublic K (akPrivate d) \<and> (akMethod d = Some ''RS256'' \<or> akMethod d = Some ''EdDSA'')"

definition wfOptions :: "('priv, 'pub) key_lib \<Rightarrow> ('priv, 'pub, 'd) server_options \<Rightarrow> bool" where
  "wfOptions K o' \<longleftrightarrow>
     (\<forall>k d. mget (soAuthKeys o') k = Some d \<longrightarrow> akID d = k \<and> wfKey K d) \<and>
     mget (soAuthHandlers o') credentialsTypeInternal = None \<and> mget (soAuthHandlers o') [] = None \<and>
     wfmap (soAuthKeys o') \<and> wfmap (soAuthHandlers o')"

lemma wfOptions_zero: "wfOptions K zeroServerOptions"
  by (simp add: wfOptions_def zeroServerOptions_def)

lemma withAuthKey_wf:
  assumes "withAuthKey keyID alg priv (klPublic K priv) o' = Inr o2" "wfOptions K o'" "alg = ''RS256'' \<or> alg = ''EdDSA''"
  shows "wfOptions K o2"
proof -
  have o2: "o2 = o'\<lparr>soAuthKeys := mput keyID
      \<lparr>akID = keyID, akMethod = Some alg, akPrivate = priv, akPublic = klPublic K priv\<rparr> (soAuthKeys o')\<rparr>"
    using assms(1) by (simp add: withAuthKey_def)
  have "wfKey K \<lparr>akID = keyID, akMethod = Some alg, akPrivate = priv, akPublic = klPublic K priv\<rparr>"
    using assms(3) by (auto simp: wfKey_def)
  then show ?thesis
    using assms(2) unfolding o2 wfOptions_def by auto
qed

lemma withCredAuthHandlers_wf:
  assumes "withCredAuthHandlers forType handler o' = Inr o2" "wfOptions K o'"
  shows "wfOptions K o2"
  using assms unfolding withCredAuthHandlers_def Let_def
  by (auto simp: wfOptions_def split: if_splits sum.splits)

lemmas plain_options =
  WithInternalBindAddress_def WithExternalListenerAddress_def WithInternalTLSConfig_def WithWebRTCServerOptions_def
  WithUnaryServerInterceptor_def WithStreamServerInterceptor_def WithInstanceNames_def WithUnauthenticated_def
  WithJWTSignerKeyID_def WithAuthAudience_def WithAuthIssuer_def WithDebug_def WithTLSAuthHandler_def
  WithEnsureAuthedHandler_def WithAuthenticateToHandler_def WithDisableMulticastDNS_def WithUnknownServiceHandler_def
  WithStatsHandler_def WithAllowUnauthenticatedHealthCheck_def WithPublicMethods_def Let_def

lemma packageOption_wf:
  assumes "packageOption K opt" "opt o' = Inr o2" "wfOptions K o'"
  shows "wfOptions K o2"
  using assms(1)
proof cases
  case (rsa priv thumbprint)
  then show ?thesis
    using assms(2,3) by (auto simp: WithAuthRSAPrivateKey_def split: sum.splits intro: withAuthKey_wf)
next
  case (ed priv)
  then show ?thesis
    using assms(2,3) by (auto simp: WithAuthED25519PrivateKey_def Let_def intro: withAuthKey_wf)
next
  case (auth forType handler)
  then show ?thesis
    using assms(2,3) by (auto simp: WithAuthHandler_def intro: withCredAuthHandlers_wf)
next
  case (loader forType ld)
  then show ?thesis
    using assms(2,3) by (auto simp: WithEntityDataLoader_def intro: withCredAuthHandlers_wf)
next
  case (provider forType kp)
  then show ?thesis
    using assms(2,3) by (auto simp: WithTokenVerificationKeyProvider_def intro: withCredAuthHandlers_wf)
qed (use assms(2,3) in \<open>auto simp: plain_options wfOptions_def split: if_splits\<close>)

lemma applyServerOptions_wf:
  assumes "\<forall>opt \<in> set opts. packageOption K opt" "applyServerOptions opts o' = Inr o2" "wfOptions K o'"
  shows "wfOptions K o2"
  using assms by (induction opts arbitrary: o') (auto split: sum.splits dest: packageOption_wf)

end
