(* ===== verification/ServerConfig.thy ===== *)
theory ServerConfig
  imports ServerOptions
begin

text \<open>
  Making a server: \<^verbatim>\<open>NewServer\<close>, \<^verbatim>\<open>RegisterServiceServer\<close>, \<^verbatim>\<open>InstanceNameFromAddress\<close>, the classification of HTTP
  requests and \<^verbatim>\<open>PeerConnectionInfoFromContext\<close> of \<^verbatim>\<open>src/rpc/server.go\<close>, and \<^verbatim>\<open>newWebRTCSignalingAnswerer\<close> of
  \<^verbatim>\<open>src/rpc/wrtc_signaling_answerer.go\<close>.

  The fields of \<open>server_env\<close> are the answers of the operating system and of third-party packages: the listener,
  the parsed certificate, keys and random bytes, mDNS registrations (\<^verbatim>\<open>github.com/viamrobotics/zeroconf\<close>), the
  gateway's registrations, and the interceptors of \<^verbatim>\<open>github.com/grpc-ecosystem/go-grpc-middleware\<close>, which
  \<open>mw_laws\<close> describes: a chain runs its first interceptor outermost, recovery turns a panic into the error of its
  handler, and logging changes nothing.  \<^const>\<open>None\<close> is a panic.  What the server holds of the system is its
  \<open>srv_world\<close>: open listeners and mDNS registrations.
\<close>

section \<open>The environment\<close>

record leaf_cert =
  lcDNSNames :: "string list"
  lcCommonName :: string

record ('priv, 'pub, 'd) server_env =
  nvKeys :: "('priv, 'pub) key_lib"
  nvListen :: "string \<Rightarrow> err + tcp_addr"
  nvParseCertificate :: "nat \<Rightarrow> err + leaf_cert"
  nvGenerateKey :: "err + 'priv"
  nvRandom :: "err + bytes"
  nvInternalUUID :: string
  nvInstanceUUID :: string
  nvHostname :: "err + string"
  nvInterfaces :: "err + (bool \<times> bool) list"
  nvRegisterMDNS :: "string \<Rightarrow> err option"
  nvRegisterGateway :: "string \<Rightarrow> err option"
  nvRecoverUnary :: "(string \<Rightarrow> err) \<Rightarrow> 'd unary_interceptor"
  nvZapUnary :: "'d unary_interceptor"
  nvChainUnary :: "'d unary_interceptor list \<Rightarrow> 'd unary_interceptor"
  nvRecoverStream :: "(string \<Rightarrow> err) \<Rightarrow> 'd stream_interceptor"
  nvZapStream :: "'d stream_interceptor"
  nvChainStream :: "'d stream_interceptor list \<Rightarrow> 'd stream_interceptor"

definition recovered :: "(string \<Rightarrow> err) \<Rightarrow> 'r outcome \<Rightarrow> 'r outcome" where
  "recovered f out = (case out of Panicked p \<Rightarrow> Returned None (Some (f p)) | Returned r e \<Rightarrow> Returned r e)"

definition mw_laws :: "('priv, 'pub, 'd) server_env \<Rightarrow> bool" where
  "mw_laws env \<longleftrightarrow>
     (\<forall>ctx req m h. nvChainUnary env [] ctx req m h = h ctx req) \<and>
     (\<forall>i is ctx req m h. nvChainUnary env (i # is) ctx req m h = i ctx req m (\<lambda>ctx req. nvChainUnary env is ctx req m h)) \<and>
     (\<forall>f ctx req m h. nvRecoverUnary env f ctx req m h = recovered f (h ctx req)) \<and>
     (\<forall>ctx req m h. nvZapUnary env ctx req m h = h ctx req) \<and>
     (\<forall>srv st m h. nvChainStream env [] srv st m h = h srv st) \<and>
     (\<forall>i is srv st m h. nvChainStream env (i # is) srv st m h = i srv st m (\<lambda>srv st. nvChainStream env is srv st m h)) \<and>
     (\<forall>f srv st m h. nvRecoverStream env f srv st m h = recovered f (h srv st)) \<and>
     (\<forall>srv st m h. nvZapStream env srv st m h = h srv st)"

record srv_world =
  swListeners :: "tcp_addr list"
  swMdns :: "string list"

section \<open>The server\<close>

record answerer =
  anAddress :: string
  anHosts :: "string list"
  anDialOpts :: "dial_option list"
  anConfig :: "nat option"

definition newWebRTCSignalingAnswerer :: "string \<Rightarrow> string list \<Rightarrow> dial_option list \<Rightarrow> nat option \<Rightarrow> answerer" where
  "newWebRTCSignalingAnswerer address hosts dialOpts webrtcConfig =
     \<lparr>anAddress = address, anHosts = hosts,
      anDialOpts = dialOpts @ [WithWebRTCOptions (zeroWebRTCOptions\<lparr>woDisable := True\<rparr>)], anConfig = webrtcConfig\<rparr>"

text \<open>The server for WebRTC with its callbacks, its handler of unknown services and the services registered with it.\<close>

record webrtc_part =
  wpOnPeerAdded :: "nat option"
  wpOnPeerRemoved :: "nat option"
  wpUnknown :: "nat option"
  wpServices :: "string list"

record ('priv, 'pub, 'd) simple_server =
  svListener :: tcp_addr
  svAuth :: "('priv, 'pub, 'd) auth_server"
  svUnauthenticated :: bool
  svUnaryInterceptor :: "'d unary_interceptor option"
  svStreamInterceptor :: "'d stream_interceptor option"
  svInternalUUID :: string
  svInternalCreds :: credentials
  svInstanceNames :: "string list"
  svTLSConfig :: "server_tls option"
  svLeaf :: "leaf_cert option"
  svUnknown :: "nat option"
  svStats :: "nat option"
  svServices :: "string list"
  svCancels :: nat
  svMdnsServers :: "string list"
  svWebrtc :: "webrtc_part option"
  svAnswerers :: "answerer list"
  svSignalingHosts :: "string list option"

section \<open>Its parts\<close>

definition bindAddress :: "('priv, 'pub, 'd) server_options \<Rightarrow> string" where
  "bindAddress o' =
     (if soBindAddress o' = [] then
        (if soTLSConfig o' = None \<or> soUnauthenticated o' then ''localhost:0'' else '':0'')
      else soBindAddress o')"

definition firstSeenTLSCertLeaf ::
  "('priv, 'pub, 'd) server_env \<Rightarrow> server_tls option \<Rightarrow> (err + leaf_cert option) option" where
  "firstSeenTLSCertLeaf env tlsConfig =
     (let parse = (\<lambda>cert. Some (case nvParseCertificate env cert of Inl e \<Rightarrow> Inl e | Inr leaf \<Rightarrow> Inr (Some leaf))) in
      case tlsConfig of
        None \<Rightarrow> Some (Inr None)
      | Some config \<Rightarrow>
          (case stCertificates config of
             cert # _ \<Rightarrow> parse cert
           | [] \<Rightarrow>
               (case stGetCertificate config of
                  None \<Rightarrow> None
                | Some (Inl _) \<Rightarrow> Some (Inl (ErrText ''invalid *tls.Config; expected at least 1 certificate''))
                | Some (Inr None) \<Rightarrow> Some (Inr None)
                | Some (Inr (Some cert)) \<Rightarrow> parse cert)))"

definition chooseKeys ::
  "('priv, 'pub, 'd) server_env \<Rightarrow> ('priv, 'pub, 'd) server_options \<Rightarrow> err + ('priv, 'pub, 'd) server_options" where
  "chooseKeys env o' =
     (let K = nvKeys env in
      if soAuthKeys o' = [] then
        (if soJwtSignerKeyID o' \<noteq> [] then Inl (ErrText ''cannot use WithJWTSignerKeyID if no auth keys are set'')
         else if \<not> soUnauthenticated o' then
           (case nvGenerateKey env of
              Inl e \<Rightarrow> Inl e
            | Inr privKey \<Rightarrow>
                let pubKey = klPublic K privKey;
                    keyID = ED25519PublicKeyThumbprint K pubKey;
                    data = \<lparr>akID = keyID, akMethod = Some ''EdDSA'', akPrivate = privKey, akPublic = pubKey\<rparr>
                in Inr (o'\<lparr>soAuthKeys := [(keyID, data)], soJwtSignerKeyID := keyID\<rparr>))
         else Inr o')
      else if soJwtSignerKeyID o' = [] then
        (if 1 < length (soAuthKeys o') then Inl (ErrText ''must use WithJWTSignerKeyID if more than one private key in use'')
         else
           let first = snd (hd (soAuthKeys o')) in
           if akID first = [] then Inl (ErrText ''invariant: auth key has no id'')
           else Inr (o'\<lparr>soJwtSignerKeyID := akID first\<rparr>))
      else Inr o')"

definition validateKeys :: "('priv, 'pub) key_lib \<Rightarrow> (string, ('priv, 'pub) auth_key_data) gomap \<Rightarrow> err option" where
  "validateKeys K keys =
     fold (\<lambda>(_, d) e. case e of Some x \<Rightarrow> Some x | None \<Rightarrow> Validate K d) keys None"

definition signerKey ::
  "('priv, 'pub) key_lib \<Rightarrow> ('priv, 'pub, 'd) server_options \<Rightarrow> err + ('priv, 'pub) auth_key_data" where
  "signerKey K o' =
     (if soUnauthenticated o' then Inr (zeroKey K)
      else case mget (soAuthKeys o') (soJwtSignerKeyID o') of
        None \<Rightarrow> Inl (ErrText (''no auth key data set for key id '' @ goQuote (soJwtSignerKeyID o')))
      | Some d \<Rightarrow> Inr d)"

text \<open>
  The server before its services; the handler of \<^verbatim>\<open>AuthenticateTo\<close> is only reached when its service is registered,
  which is when the option is set.
\<close>

definition initialServer ::
  "('priv, 'pub, 'd) server_env \<Rightarrow> ('priv, 'pub, 'd) server_options \<Rightarrow> tcp_addr \<Rightarrow> leaf_cert option \<Rightarrow>
    ('priv, 'pub) auth_key_data \<Rightarrow> bytes \<Rightarrow> ('priv, 'pub, 'd) simple_server" where
  "initialServer env o' addr leaf key internalCredsKey =
     \<lparr>svListener = addr,
      svAuth = \<lparr>asHandlers = soAuthHandlers o', asKeys = soAuthKeys o', asSigningKey = key, asAudience = soAuthAudience o',
        asIssuer = soAuthIssuer o', asPublicMethods = [], asExemptMethods = [], asTLSHandler = soTLSAuthHandler o',
        asAuthTo = (case soAuthToHandler o' of None \<Rightarrow> (\<lambda>_ _. Inl (ErrStatus Unimplemented [])) | Some h \<Rightarrow> h),
        asEnsureAuthed = soEnsureAuthedHandler o'\<rparr>,
      svUnauthenticated = soUnauthenticated o', svUnaryInterceptor = soUnaryInterceptor o',
      svStreamInterceptor = soStreamInterceptor o', svInternalUUID = nvInternalUUID env,
      svInternalCreds = \<lparr>crType = credentialsTypeInternal, crPayload = stdBase64 internalCredsKey\<rparr>,
      svInstanceNames = [], svTLSConfig = soTLSConfig o', svLeaf = leaf, svUnknown = soUnknownStreamDesc o',
      svStats = soStatsHandler o', svServices = [], svCancels = 0, svMdnsServers = [], svWebrtc = None, svAnswerers = [],
      svSignalingHosts = None\<rparr>"

text \<open>\<open>handlers\<close> are the gateway handlers, by the name of their service.\<close>

definition gatewayErr :: "('priv, 'pub, 'd) server_env \<Rightarrow> string list \<Rightarrow> err option" where
  "gatewayErr env handlers =
     fold (\<lambda>h e. case e of Some x \<Rightarrow> Some x | None \<Rightarrow> nvRegisterGateway env h) handlers None"

definition RegisterServiceServer ::
  "('priv, 'pub, 'd) server_env \<Rightarrow> string \<Rightarrow> string list \<Rightarrow> ('priv, 'pub, 'd) simple_server \<Rightarrow>
    (err option \<times> ('priv, 'pub, 'd) simple_server) option" where
  "RegisterServiceServer env svcDesc svcHandlers ss =
     (let ss = ss\<lparr>svCancels := svCancels ss + 1, svServices := svServices ss @ [svcDesc]\<rparr>;
          ss = ss\<lparr>svWebrtc := map_option (\<lambda>w. w\<lparr>wpServices := wpServices w @ [svcDesc]\<rparr>) (svWebrtc ss)\<rparr>
      in if svcHandlers = [] then Some (None, ss)
         else if svTLSConfig ss \<noteq> None \<and> (case svLeaf ss of None \<Rightarrow> True | Some leaf \<Rightarrow> lcDNSNames leaf = []) then None
         else Some (gatewayErr env svcHandlers, ss))"

definition authServiceName :: string where
  "authServiceName = ''proto.rpc.v1.AuthService''"

definition externalAuthServiceName :: string where
  "externalAuthServiceName = ''proto.rpc.v1.ExternalAuthService''"

definition signalingServiceName :: string where
  "signalingServiceName = ''proto.rpc.webrtc.v1.SignalingService''"

definition healthCheckMethod :: string where
  "healthCheckMethod = ''/grpc.health.v1.Health/Check''"

definition healthWatchMethod :: string where
  "healthWatchMethod = ''/grpc.health.v1.Health/Watch''"

text \<open>A step that may panic, fail or go on.\<close>

type_synonym 'a step_result = "(err + 'a) option"

definition andThen :: "'a step_result \<Rightarrow> ('a \<Rightarrow> 'b step_result) \<Rightarrow> 'b step_result" where
  "andThen r f = (case r of None \<Rightarrow> None | Some (Inl e) \<Rightarrow> Some (Inl e) | Some (Inr a) \<Rightarrow> f a)"

definition registered ::
  "(err option \<times> ('priv, 'pub, 'd) simple_server) option \<Rightarrow> ('priv, 'pub, 'd) simple_server step_result" where
  "registered r = (case r of None \<Rightarrow> None | Some (Some e, _) \<Rightarrow> Some (Inl e) | Some (None, ss) \<Rightarrow> Some (Inr ss))"

definition updAuth ::
  "(('priv, 'pub, 'd) auth_server \<Rightarrow> ('priv, 'pub, 'd) auth_server) \<Rightarrow> ('priv, 'pub, 'd) simple_server \<Rightarrow>
    ('priv, 'pub, 'd) simple_server" where
  "updAuth f ss = ss\<lparr>svAuth := f (svAuth ss)\<rparr>"

definition exempt :: "string \<Rightarrow> ('priv, 'pub, 'd) simple_server \<Rightarrow> ('priv, 'pub, 'd) simple_server" where
  "exempt m = updAuth (\<lambda>a. a\<lparr>asExemptMethods := mput m True (asExemptMethods a)\<rparr>)"

definition internalHandlers :: "('priv, 'pub, 'd) simple_server \<Rightarrow> ('pub, 'd) cred_auth_handlers" where
  "internalHandlers ss =
     noHandlers\<lparr>hAuth := map_option (\<lambda>h ctx. h) (MakeSimpleAuthHandler [svInternalUUID ss] (crPayload (svInternalCreds ss)))\<rparr>"

definition registerAuth ::
  "('priv, 'pub, 'd) server_env \<Rightarrow> ('priv, 'pub, 'd) simple_server \<Rightarrow> ('priv, 'pub, 'd) simple_server step_result" where
  "registerAuth env ss =
     (if svUnauthenticated ss then Some (Inr ss)
      else andThen (registered (RegisterServiceServer env authServiceName [authServiceName] ss))
        (\<lambda>ss. Some (Inr (exempt authMethod
          (updAuth (\<lambda>a. a\<lparr>asHandlers := mput credentialsTypeInternal (internalHandlers ss) (asHandlers a)\<rparr>) ss)))))"

definition setMethods ::
  "('priv, 'pub, 'd) server_options \<Rightarrow> ('priv, 'pub, 'd) simple_server \<Rightarrow> ('priv, 'pub, 'd) simple_server" where
  "setMethods o' ss =
     (let ss = (if soAllowUnauthenticatedHealthCheck o' then exempt healthWatchMethod (exempt healthCheckMethod ss) else ss)
      in updAuth (\<lambda>a. a\<lparr>asPublicMethods := fold (\<lambda>m. mput m True) (soPublicMethods o') (asPublicMethods a)\<rparr>) ss)"

definition registerExternalAuth ::
  "('priv, 'pub, 'd) server_env \<Rightarrow> ('priv, 'pub, 'd) server_options \<Rightarrow> ('priv, 'pub, 'd) simple_server \<Rightarrow>
    ('priv, 'pub, 'd) simple_server step_result" where
  "registerExternalAuth env o' ss =
     (if soAuthToHandler o' = None then Some (Inr ss)
      else registered (RegisterServiceServer env externalAuthServiceName [externalAuthServiceName] ss))"

definition addrString :: "tcp_addr \<Rightarrow> string" where
  "addrString a = joinHostPort (taIP a) (decimal (taPort a))"

definition InstanceNameFromAddress :: "string \<Rightarrow> string \<Rightarrow> err + string" where
  "InstanceNameFromAddress uuid addr =
     (case (if CHR '':'' \<in> set addr then (case splitHostPort addr of Inl e \<Rightarrow> Inl e | Inr (host, _) \<Rightarrow> Inr host) else Inr addr) of
        Inl e \<Rightarrow> Inl e
      | Inr host \<Rightarrow> if \<not> parseIP host then Inr host else Inr uuid)"

definition mDNSAddress :: "('priv, 'pub, 'd) server_options \<Rightarrow> tcp_addr \<Rightarrow> tcp_addr" where
  "mDNSAddress o' listener = (case soListenerAddress o' of Some a \<Rightarrow> a | None \<Rightarrow> listener)"

definition nameServer ::
  "('priv, 'pub, 'd) server_env \<Rightarrow> ('priv, 'pub, 'd) server_options \<Rightarrow> ('priv, 'pub, 'd) simple_server \<Rightarrow>
    err + ('priv, 'pub, 'd) simple_server" where
  "nameServer env o' ss =
     (case (if soInstanceNames o' = [] then
              map_sum id (\<lambda>n. [n]) (InstanceNameFromAddress (nvInstanceUUID env) (addrString (mDNSAddress o' (svListener ss))))
            else Inr (soInstanceNames o')) of
        Inl e \<Rightarrow> Inl e
      | Inr names \<Rightarrow>
          Inr (updAuth (\<lambda>a. a\<lparr>asIssuer := (if asIssuer a = [] then hd (asAudience a) else asIssuer a)\<rparr>)
            (updAuth (\<lambda>a. a\<lparr>asAudience := (if asAudience a = [] then names else asAudience a)\<rparr>)
              (ss\<lparr>svInstanceNames := names\<rparr>))))"

section \<open>Multicast DNS\<close>

text \<open>The names of one host are registered until one fails, which ends this host only.\<close>

fun announceNames :: "('priv, 'pub, 'd) server_env \<Rightarrow> string list \<Rightarrow> string list" where
  "announceNames env [] = []"
| "announceNames env (n # ns) = (case nvRegisterMDNS env n of Some _ \<Rightarrow> [] | None \<Rightarrow> n # announceNames env ns)"

definition announce :: "('priv, 'pub, 'd) server_env \<Rightarrow> string list \<Rightarrow> string list" where
  "announce env names =
     concat (map (\<lambda>host. announceNames env [host, map (\<lambda>c. if c = CHR ''.'' then CHR ''-'' else c) host]) names)"

definition isLoopback :: "string \<Rightarrow> bool" where
  "isLoopback ip \<longleftrightarrow> hasPrefix ip ''127.'' \<or> ip = ''::1''"

definition broadcast ::
  "('priv, 'pub, 'd) server_env \<Rightarrow> ('priv, 'pub, 'd) server_options \<Rightarrow> ('priv, 'pub, 'd) simple_server \<Rightarrow>
    err + ('priv, 'pub, 'd) simple_server" where
  "broadcast env o' ss =
     (let done = Inr (ss\<lparr>svMdnsServers := announce env (svInstanceNames ss)\<rparr>) in
      if soDisableMDNS o' then Inr ss
      else if isLoopback (taIP (mDNSAddress o' (svListener ss))) then
        (case nvHostname env of
           Inl e \<Rightarrow> Inl e
         | Inr _ \<Rightarrow> (case nvInterfaces env of Inl e \<Rightarrow> Inl e | Inr _ \<Rightarrow> done))
      else done)"

section \<open>WebRTC\<close>

definition orHosts :: "string list \<Rightarrow> string list \<Rightarrow> string list" where
  "orHosts hosts names = (if hosts = [] then names else hosts)"

definition answererDialOpts :: "('priv, 'pub, 'd) simple_server \<Rightarrow> dial_option list option" where
  "answererDialOpts ss =
     (let creds = (if \<not> svUnauthenticated ss then [WithEntityCredentials (svInternalUUID ss) (svInternalCreds ss)] else []) in
      case svTLSConfig ss of
        Some config \<Rightarrow>
          (case svLeaf ss of
             None \<Rightarrow> None
           | Some leaf \<Rightarrow> Some (WithTLSConfig (Some (tls_config.truncate (config\<lparr>tlsServerName := lcCommonName leaf\<rparr>))) # creds))
      | None \<Rightarrow> Some (WithInsecure # creds))"

definition internalSignaling ::
  "('priv, 'pub, 'd) server_env \<Rightarrow> webrtc_server_options \<Rightarrow> ('priv, 'pub, 'd) simple_server \<Rightarrow>
    ('priv, 'pub, 'd) simple_server step_result" where
  "internalSignaling env ws ss =
     (let hosts = orHosts (wsInternalSignalingHosts ws) (svInstanceNames ss) in
      andThen (registered (RegisterServiceServer env signalingServiceName [signalingServiceName] (ss\<lparr>svSignalingHosts := Some hosts\<rparr>)))
        (\<lambda>ss. case answererDialOpts ss of
           None \<Rightarrow> None
         | Some dialOpts \<Rightarrow>
             Some (Inr (ss\<lparr>svAnswerers := svAnswerers ss @
               [newWebRTCSignalingAnswerer (addrString (svListener ss)) hosts dialOpts (wsConfig ws)]\<rparr>))))"

definition setupWebRTC ::
  "('priv, 'pub, 'd) server_env \<Rightarrow> ('priv, 'pub, 'd) server_options \<Rightarrow> ('priv, 'pub, 'd) simple_server \<Rightarrow>
    ('priv, 'pub, 'd) simple_server step_result" where
  "setupWebRTC env o' ss =
     (let ws = soWebrtcOpts o' in
      if \<not> wsEnable ws then Some (Inr ss)
      else
        let ss = ss\<lparr>svWebrtc := Some \<lparr>wpOnPeerAdded = wsOnPeerAdded ws, wpOnPeerRemoved = wsOnPeerRemoved ws,
              wpUnknown = soUnknownStreamDesc o', wpServices = []\<rparr>\<rparr>;
            external = wsExternalSignalingAddress ws \<noteq> [];
            ss = (if external then
                    ss\<lparr>svAnswerers := svAnswerers ss @ [newWebRTCSignalingAnswerer (wsExternalSignalingAddress ws)
                      (orHosts (wsExternalSignalingHosts ws) (svInstanceNames ss)) (wsExternalSignalingDialOpts ws) (wsConfig ws)]\<rparr>
                  else ss)
        in if \<not> external \<or> wsEnableInternalSignaling ws then internalSignaling env ws ss else Some (Inr ss))"

section \<open>The whole\<close>

text \<open>From the open listener to the services that need no names.\<close>

definition prepareServer ::
  "('priv, 'pub, 'd) server_env \<Rightarrow> ('priv, 'pub, 'd) server_options \<Rightarrow> tcp_addr \<Rightarrow> ('priv, 'pub, 'd) simple_server step_result" where
  "prepareServer env o' addr =
     andThen (firstSeenTLSCertLeaf env (soTLSConfig o')) (\<lambda>leaf.
       andThen (Some (chooseKeys env o')) (\<lambda>o'.
         case validateKeys (nvKeys env) (soAuthKeys o') of
           Some e \<Rightarrow> Some (Inl e)
         | None \<Rightarrow>
             andThen (Some (signerKey (nvKeys env) o')) (\<lambda>key.
               andThen (Some (nvRandom env)) (\<lambda>internalCredsKey.
                 andThen (registerAuth env (initialServer env o' addr leaf key internalCredsKey)) (\<lambda>ss.
                   andThen (registerExternalAuth env o' (setMethods o' ss)) (\<lambda>ss. Some (nameServer env o' ss)))))))"

definition errMixedUnauthAndAuth :: err where
  "errMixedUnauthAndAuth = ErrText ''cannot use unauthenticated and auth handlers at same time''"

text \<open>The result of \<^verbatim>\<open>NewServer\<close> and what is open afterwards: no error closes the listener or ends a registration.\<close>

definition NewServer ::
  "('priv, 'pub, 'd) server_env \<Rightarrow> ('priv, 'pub, 'd) server_option list \<Rightarrow> srv_world \<Rightarrow>
    ('priv, 'pub, 'd) simple_server step_result \<times> srv_world" where
  "NewServer env opts w =
     (case applyServerOptions opts zeroServerOptions of
        Inl e \<Rightarrow> (Some (Inl e), w)
      | Inr o' \<Rightarrow>
          if soUnauthenticated o' \<and> (soAuthHandlers o' \<noteq> [] \<or> soTLSAuthHandler o' \<noteq> None) then
            (Some (Inl errMixedUnauthAndAuth), w)
          else case nvListen env (bindAddress o') of
            Inl e \<Rightarrow> (Some (Inl e), w)
          | Inr addr \<Rightarrow>
              let w = w\<lparr>swListeners := swListeners w @ [addr]\<rparr> in
              (case andThen (prepareServer env o' addr) (\<lambda>ss. Some (broadcast env o' ss)) of
                 Some (Inr ss) \<Rightarrow> (setupWebRTC env o' ss, w\<lparr>swMdns := swMdns w @ svMdnsServers ss\<rparr>)
               | r \<Rightarrow> (r, w)))"

section \<open>Serving calls\<close>

definition authUnary :: "('priv, 'pub) jwt_lib \<Rightarrow> err_env \<Rightarrow> ('priv, 'pub, 'd) auth_server \<Rightarrow> 'd unary_interceptor" where
  "authUnary J E a ctx req fullMethod handler =
     (case authUnaryInterceptor J E a (fst ctx) req fullMethod (\<lambda>c q. Inr (handler (c, snd ctx) q)) of
        Inl e \<Rightarrow> Returned None (Some e)
      | Inr out \<Rightarrow> out)"

text \<open>The interceptor of streams for handlers that may panic; without panics it is \<^const>\<open>authStreamInterceptor\<close>.\<close>

definition authStream :: "('priv, 'pub) jwt_lib \<Rightarrow> err_env \<Rightarrow> ('priv, 'pub, 'd) auth_server \<Rightarrow> 'd stream_interceptor" where
  "authStream J E a srv stream fullMethod handler =
     (if flagged (asExemptMethods a) fullMethod then handler srv stream
      else if isPublicMethod a fullMethod then
        (case tryAuth J E a (fst stream) of
           Inl e \<Rightarrow> Returned None (Some e)
         | Inr nextCtx \<Rightarrow> handler (CtxArg nextCtx) (nextCtx, snd stream))
      else
        (case ensureAuthed J E a (fst stream) of
           Inl e \<Rightarrow> Returned None (Some e)
         | Inr nextCtx \<Rightarrow> handler srv (nextCtx, snd stream)))"

lemma authStream_refines:
  "authStream J E a (SrvArg s) (ctx, sp) m (\<lambda>srv st. Returned None (h srv (fst st))) =
    Returned None (authStreamInterceptor J E a s ctx m h)"
  by (auto simp: authStream_def authStreamInterceptor_def split: sum.splits)

definition unlessExempt :: "('priv, 'pub, 'd) auth_server \<Rightarrow> 'd unary_interceptor \<Rightarrow> 'd unary_interceptor" where
  "unlessExempt a i ctx req fullMethod handler =
     (if flagged (asExemptMethods a) fullMethod then handler ctx req else i ctx req fullMethod handler)"

definition streamUnlessExempt :: "('priv, 'pub, 'd) auth_server \<Rightarrow> 'd stream_interceptor \<Rightarrow> 'd stream_interceptor" where
  "streamUnlessExempt a i srv stream fullMethod handler =
     (if flagged (asExemptMethods a) fullMethod then handler srv stream else i srv stream fullMethod handler)"

definition panicStatus :: "string \<Rightarrow> err" where
  "panicStatus p = ErrStatus Internal p"

definition outerUnary :: "err_env \<Rightarrow> ('priv, 'pub, 'd) server_env \<Rightarrow> 'd unary_interceptor list" where
  "outerUnary E env =
     [nvRecoverUnary env panicStatus, nvZapUnary env, (\<lambda>ctx req _. unaryServerCodeInterceptor E ctx req),
      (\<lambda>ctx req _. UnaryServerTracingInterceptor E ctx req)]"

definition outerStream :: "err_env \<Rightarrow> ('priv, 'pub, 'd) server_env \<Rightarrow> 'd stream_interceptor list" where
  "outerStream E env =
     [nvRecoverStream env panicStatus, nvZapStream env, (\<lambda>srv st _. streamServerCodeInterceptor E srv st),
      (\<lambda>srv st _. StreamServerTracingInterceptor E srv st)]"

definition unaryInterceptors ::
  "('priv, 'pub) jwt_lib \<Rightarrow> err_env \<Rightarrow> ('priv, 'pub, 'd) server_env \<Rightarrow> ('priv, 'pub, 'd) simple_server \<Rightarrow> 'd unary_interceptor list" where
  "unaryInterceptors J E env ss =
     outerUnary E env @ (if \<not> svUnauthenticated ss then [authUnary J E (svAuth ss)] else []) @
     (case svUnaryInterceptor ss of None \<Rightarrow> [] | Some i \<Rightarrow> [unlessExempt (svAuth ss) i])"

definition streamInterceptors ::
  "('priv, 'pub) jwt_lib \<Rightarrow> err_env \<Rightarrow> ('priv, 'pub, 'd) server_env \<Rightarrow> ('priv, 'pub, 'd) simple_server \<Rightarrow> 'd stream_interceptor list" where
  "streamInterceptors J E env ss =
     outerStream E env @ (if \<not> svUnauthenticated ss then [authStream J E (svAuth ss)] else []) @
     (case svStreamInterceptor ss of None \<Rightarrow> [] | Some i \<Rightarrow> [streamUnlessExempt (svAuth ss) i])"

text \<open>The position of the interceptor that authenticates, and the list without it, which serves WebRTC.\<close>

definition authIntPos :: "('priv, 'pub, 'd) simple_server \<Rightarrow> nat option" where
  "authIntPos ss = (if \<not> svUnauthenticated ss then Some 4 else None)"

definition withoutPos :: "nat option \<Rightarrow> 'a list \<Rightarrow> 'a list" where
  "withoutPos pos xs = map snd (filter (\<lambda>(idx, _). Some idx \<noteq> pos) (enumerate 0 xs))"

definition grpcUnary ::
  "('priv, 'pub) jwt_lib \<Rightarrow> err_env \<Rightarrow> ('priv, 'pub, 'd) server_env \<Rightarrow> ('priv, 'pub, 'd) simple_server \<Rightarrow> 'd unary_interceptor" where
  "grpcUnary J E env ss = nvChainUnary env (unaryInterceptors J E env ss)"

definition grpcStream ::
  "('priv, 'pub) jwt_lib \<Rightarrow> err_env \<Rightarrow> ('priv, 'pub, 'd) server_env \<Rightarrow> ('priv, 'pub, 'd) simple_server \<Rightarrow> 'd stream_interceptor" where
  "grpcStream J E env ss = nvChainStream env (streamInterceptors J E env ss)"

definition webrtcUnary ::
  "('priv, 'pub) jwt_lib \<Rightarrow> err_env \<Rightarrow> ('priv, 'pub, 'd) server_env \<Rightarrow> ('priv, 'pub, 'd) simple_server \<Rightarrow> 'd unary_interceptor" where
  "webrtcUnary J E env ss = nvChainUnary env (withoutPos (authIntPos ss) (unaryInterceptors J E env ss))"

definition webrtcStream ::
  "('priv, 'pub) jwt_lib \<Rightarrow> err_env \<Rightarrow> ('priv, 'pub, 'd) server_env \<Rightarrow> ('priv, 'pub, 'd) simple_server \<Rightarrow> 'd stream_interceptor" where
  "webrtcStream J E env ss = nvChainStream env (withoutPos (authIntPos ss) (streamInterceptors J E env ss))"

section \<open>Requests and peers\<close>

datatype requestType = requestTypeNone | requestTypeGRPC | requestTypeGRPCWeb

text \<open>What the code reads of an HTTP request; the first two fields are the answers of \<^verbatim>\<open>grpcweb\<close>.\<close>

record http_request =
  hrAcceptableCors :: bool
  hrIsGrpcWeb :: bool
  hrProtoMajor :: nat
  hrContentType :: string
  hrHost :: string

definition getRequestType :: "http_request \<Rightarrow> requestType" where
  "getRequestType r =
     (if hrAcceptableCors r \<or> hrIsGrpcWeb r then requestTypeGRPCWeb
      else if hrProtoMajor r = 2 \<and> hasPrefix (hrContentType r) ''application/grpc'' then requestTypeGRPC
      else requestTypeNone)"

definition requestWithHost :: "http_request \<Rightarrow> 'd rpc_ctx \<Rightarrow> 'd rpc_ctx" where
  "requestWithHost r ctx =
     (if hrHost r = [] then ctx else contextWithHost ctx (hd (splitOn CHR '':'' (hrHost r))))"

datatype http_target = ToGRPC | ToGRPCWeb | ToGateway | BadRequest

definition GRPCHandler :: "http_request \<Rightarrow> http_target" where
  "GRPCHandler r = (case getRequestType r of requestTypeGRPC \<Rightarrow> ToGRPC | requestTypeGRPCWeb \<Rightarrow> ToGRPCWeb | requestTypeNone \<Rightarrow> BadRequest)"

definition ServeHTTP :: "http_request \<Rightarrow> http_target" where
  "ServeHTTP r = (case getRequestType r of requestTypeGRPC \<Rightarrow> ToGRPC | requestTypeGRPCWeb \<Rightarrow> ToGRPCWeb | requestTypeNone \<Rightarrow> ToGateway)"

datatype PeerConnectionType = PeerConnectionTypeUnknown | PeerConnectionTypeGRPC | PeerConnectionTypeWebRTC

record PeerConnectionInfo =
  ConnectionType :: PeerConnectionType
  LocalAddress :: string
  RemoteAddress :: string

text \<open>\<open>peer\<close> is the gRPC peer of the context and \<open>candPair\<close> the selected candidates of a peer connection.\<close>

definition PeerConnectionInfoFromContext ::
  "string option \<Rightarrow> (nat \<Rightarrow> (string \<times> string) option) \<Rightarrow> 'd rpc_ctx \<Rightarrow> PeerConnectionInfo" where
  "PeerConnectionInfoFromContext peer candPair ctx =
     (case peer of
        Some addr \<Rightarrow> \<lparr>ConnectionType = PeerConnectionTypeGRPC, LocalAddress = [], RemoteAddress = addr\<rparr>
      | None \<Rightarrow>
          (case Option.bind (ContextPeerConnection ctx) candPair of
             Some (localAddr, remoteAddr) \<Rightarrow>
               \<lparr>ConnectionType = PeerConnectionTypeWebRTC, LocalAddress = localAddr, RemoteAddress = remoteAddr\<rparr>
           | None \<Rightarrow> \<lparr>ConnectionType = PeerConnectionTypeUnknown, LocalAddress = [], RemoteAddress = []\<rparr>))"

section \<open>What every step keeps\<close>

text \<open>The fields that no step after the first changes.\<close>

definition sameCore :: "('priv, 'pub, 'd) simple_server \<Rightarrow> ('priv, 'pub, 'd) simple_server \<Rightarrow> bool" where
  "sameCore ss ss' \<longleftrightarrow>
     svListener ss' = svListener ss \<and> svUnauthenticated ss' = svUnauthenticated ss \<and> svInternalUUID ss' = svInternalUUID ss \<and>
     svInternalCreds ss' = svInternalCreds ss \<and> svTLSConfig ss' = svTLSConfig ss \<and> svLeaf ss' = svLeaf ss"

lemma sameCore_refl [simp]: "sameCore ss ss"
  by (simp add: sameCore_def)

lemma sameCore_trans [trans]: "sameCore a b \<Longrightarrow> sameCore b c \<Longrightarrow> sameCore a c"
  by (simp add: sameCore_def)

lemma sameCore_updAuth [simp]: "sameCore ss (updAuth f ss)"
  by (simp add: sameCore_def updAuth_def)

lemma andThen_Inr: "andThen r f = Some (Inr b) \<longleftrightarrow> (\<exists>a. r = Some (Inr a) \<and> f a = Some (Inr b))"
  by (auto simp: andThen_def split: option.splits sum.splits)

lemma registered_Inr: "registered r = Some (Inr ss) \<longleftrightarrow> r = Some (None, ss)"
  by (auto simp: registered_def split: option.splits)

lemma RegisterServiceServer_core:
  "RegisterServiceServer env d hs ss = Some (e, ss') \<Longrightarrow> sameCore ss ss' \<and> svAuth ss' = svAuth ss"
  "RegisterServiceServer env d hs ss = Some (e, ss') \<Longrightarrow> svAnswerers ss' = svAnswerers ss \<and> svSignalingHosts ss' = svSignalingHosts ss"
  by (auto simp: RegisterServiceServer_def Let_def sameCore_def split: if_splits)

lemma broadcast_core:
  "broadcast env o' ss = Inr ss' \<Longrightarrow>
    sameCore ss ss' \<and> svAuth ss' = svAuth ss \<and> svAnswerers ss' = svAnswerers ss \<and> svSignalingHosts ss' = svSignalingHosts ss"
  by (auto simp: broadcast_def Let_def sameCore_def split: if_splits sum.splits)

lemma nameServer_core:
  assumes "nameServer env o' ss = Inr ss'"
  shows "sameCore ss ss'" "asHandlers (svAuth ss') = asHandlers (svAuth ss)" "asKeys (svAuth ss') = asKeys (svAuth ss)"
    "asSigningKey (svAuth ss') = asSigningKey (svAuth ss)" "asExemptMethods (svAuth ss') = asExemptMethods (svAuth ss)"
    "asPublicMethods (svAuth ss') = asPublicMethods (svAuth ss)" "asAudience (svAuth ss') \<noteq> []"
    "svSignalingHosts ss' = svSignalingHosts ss"
  using assms by (auto simp: nameServer_def updAuth_def sameCore_def map_sum_def split: sum.splits if_splits)

lemma answererDialOpts_core: "sameCore ss ss' \<Longrightarrow> answererDialOpts ss' = answererDialOpts ss"
  unfolding answererDialOpts_def sameCore_def by (elim conjE) (simp only:)

lemma internalSignaling_core:
  assumes "internalSignaling env ws ss = Some (Inr ss')"
  shows "sameCore ss ss' \<and> svAuth ss' = svAuth ss"
    and "\<exists>dialOpts hosts. answererDialOpts ss = Some dialOpts \<and> svSignalingHosts ss' = Some hosts \<and>
      newWebRTCSignalingAnswerer (addrString (svListener ss)) hosts dialOpts (wsConfig ws) \<in> set (svAnswerers ss')"
proof -
  let ?hosts = "orHosts (wsInternalSignalingHosts ws) (svInstanceNames ss)"
  obtain ss1 dialOpts where r: "RegisterServiceServer env signalingServiceName [signalingServiceName]
      (ss\<lparr>svSignalingHosts := Some ?hosts\<rparr>) = Some (None, ss1)"
    and d: "answererDialOpts ss1 = Some dialOpts"
    and ss': "ss' = ss1\<lparr>svAnswerers := svAnswerers ss1 @ [newWebRTCSignalingAnswerer (addrString (svListener ss1)) ?hosts dialOpts (wsConfig ws)]\<rparr>"
    using assms by (auto simp: internalSignaling_def andThen_Inr registered_Inr Let_def split: option.splits)
  note core = RegisterServiceServer_core [OF r]
  then show "sameCore ss ss' \<and> svAuth ss' = svAuth ss"
    unfolding ss' by (simp add: sameCore_def)
  have "sameCore ss ss1"
    using core by (simp add: sameCore_def)
  then have "answererDialOpts ss = Some dialOpts"
    using d answererDialOpts_core by metis
  then show "\<exists>dialOpts hosts. answererDialOpts ss = Some dialOpts \<and> svSignalingHosts ss' = Some hosts \<and>
      newWebRTCSignalingAnswerer (addrString (svListener ss)) hosts dialOpts (wsConfig ws) \<in> set (svAnswerers ss')"
    using core unfolding ss' by (auto simp: sameCore_def)
qed

text \<open>A server with a signaling service of its own has an answerer that dials it with the internal credentials.\<close>

lemma setupWebRTC_core:
  assumes "setupWebRTC env o' ss = Some (Inr ss')" "svSignalingHosts ss = None"
  shows "sameCore ss ss' \<and> svAuth ss' = svAuth ss"
    and "svSignalingHosts ss' \<noteq> None \<Longrightarrow> \<exists>dialOpts hosts config. answererDialOpts ss = Some dialOpts \<and>
      newWebRTCSignalingAnswerer (addrString (svListener ss)) hosts dialOpts config \<in> set (svAnswerers ss')"
proof -
  consider (off) "ss' = ss" | (ext) s1 where "ss' = s1" "sameCore ss s1" "svAuth s1 = svAuth ss" "svSignalingHosts s1 = None"
    | (int) s1 where "internalSignaling env (soWebrtcOpts o') s1 = Some (Inr ss')" "sameCore ss s1" "svAuth s1 = svAuth ss"
    using assms by (auto simp: setupWebRTC_def Let_def sameCore_def split: if_splits)
  then have "sameCore ss ss' \<and> svAuth ss' = svAuth ss \<and> (svSignalingHosts ss' \<noteq> None \<longrightarrow>
      (\<exists>dialOpts hosts config. answererDialOpts ss = Some dialOpts \<and>
        newWebRTCSignalingAnswerer (addrString (svListener ss)) hosts dialOpts config \<in> set (svAnswerers ss')))"
  proof cases
    case int
    have "answererDialOpts s1 = answererDialOpts ss" "svListener s1 = svListener ss"
      using int(2) answererDialOpts_core by (simp_all add: sameCore_def)
    then show ?thesis
      using internalSignaling_core [OF int(1)] int(2,3) sameCore_trans by metis
  qed (use assms(2) in auto)
  then show "sameCore ss ss' \<and> svAuth ss' = svAuth ss"
    and "svSignalingHosts ss' \<noteq> None \<Longrightarrow> \<exists>dialOpts hosts config. answererDialOpts ss = Some dialOpts \<and>
      newWebRTCSignalingAnswerer (addrString (svListener ss)) hosts dialOpts config \<in> set (svAnswerers ss')"
    by blast+
qed

section \<open>A server that was made is ready\<close>

lemma validateKeys_None: "validateKeys K keys = None \<Longrightarrow> \<forall>d \<in> snd ` set keys. Validate K d = None"
proof -
  have stuck: "fold (\<lambda>(_, d) e. case e of Some x \<Rightarrow> Some x | None \<Rightarrow> Validate K d) ks (Some x) = Some x" for ks x
    by (induction ks) auto
  show "validateKeys K keys = None \<Longrightarrow> \<forall>d \<in> snd ` set keys. Validate K d = None"
    unfolding validateKeys_def
  proof (induction keys)
    case (Cons k keys)
    then show ?case
      using stuck [of keys] by (cases k; cases "Validate K (snd k)") auto
  qed simp
qed

lemma chooseKeys_keeps:
  assumes "chooseKeys env o' = Inr o2"
  shows "soUnauthenticated o2 = soUnauthenticated o'" "soAuthHandlers o2 = soAuthHandlers o'"
    "soAllowUnauthenticatedHealthCheck o2 = soAllowUnauthenticatedHealthCheck o'" "soPublicMethods o2 = soPublicMethods o'"
  using assms by (auto simp: chooseKeys_def Let_def split: if_splits sum.splits)

lemma chooseKeys_wf:
  assumes "chooseKeys env o' = Inr o2" "wfOptions (nvKeys env) o'"
  shows "\<forall>k d. mget (soAuthKeys o2) k = Some d \<longrightarrow> akID d = k \<and> wfKey (nvKeys env) d"
proof -
  consider "soAuthKeys o2 = soAuthKeys o'"
    | priv where "soAuthKeys o2 = (let pub = klPublic (nvKeys env) priv; keyID = ED25519PublicKeyThumbprint (nvKeys env) pub in
        [(keyID, \<lparr>akID = keyID, akMethod = Some ''EdDSA'', akPrivate = priv, akPublic = pub\<rparr>)])"
    using assms(1) by (auto simp: chooseKeys_def Let_def split: if_splits sum.splits)
  then show ?thesis
  proof cases
    case 1
    then show ?thesis
      using assms(2) by (simp add: wfOptions_def)
  next
    case 2
    then show ?thesis
      by (simp add: Let_def wfKey_def)
  qed
qed

text \<open>
  What a server that authenticates has: its signing key among its keys, the method to authenticate and nothing
  but the health checks exempt, the methods given as public, the handler of its internal credentials and an
  audience.
\<close>

definition exemptOf :: "bool \<Rightarrow> string set" where
  "exemptOf health = {authMethod} \<union> (if health then {healthCheckMethod, healthWatchMethod} else {})"

definition authReady ::
  "('priv \<Rightarrow> 'pub \<Rightarrow> bool) \<Rightarrow> bool \<Rightarrow> string list \<Rightarrow> ('priv, 'pub, 'd) simple_server \<Rightarrow> bool" where
  "authReady keyPair health public ss \<longleftrightarrow>
     signingReady keyPair (svAuth ss) \<and>
     {m. flagged (asExemptMethods (svAuth ss)) m} = exemptOf health \<and>
     {m. flagged (asPublicMethods (svAuth ss)) m} = set public \<and>
     mget (asHandlers (svAuth ss)) credentialsTypeInternal = Some (internalHandlers ss) \<and>
     asAudience (svAuth ss) \<noteq> []"

lemma signerKey_ready:
  assumes "signerKey K o2 = Inr key" "\<not> soUnauthenticated o2" "validateKeys K (soAuthKeys o2) = None"
    and "\<forall>k d. mget (soAuthKeys o2) k = Some d \<longrightarrow> akID d = k \<and> wfKey K d" "\<forall>priv. keyPair priv (klPublic K priv)"
  shows "mget (soAuthKeys o2) (akID key) = Some key \<and> keyPair (akPrivate key) (akPublic key) \<and>
    (\<exists>mt \<in> set validSigningMethods. akMethod key = Some mt)"
proof -
  have k: "mget (soAuthKeys o2) (soJwtSignerKeyID o2) = Some key"
    using assms(1,2) by (auto simp: signerKey_def split: option.splits)
  then have "akID key = soJwtSignerKeyID o2" "wfKey K key"
    using assms(4) by blast+
  then show ?thesis
    using k assms(5) by (auto simp: wfKey_def validSigningMethods_def)
qed

lemma flagged_mput: "flagged (mput k v m) x \<longleftrightarrow> (if x = k then v else flagged m x)"
  by (simp add: flagged_def)

lemma flagged_fold: "flagged (fold (\<lambda>m. mput m True) ms a) x \<longleftrightarrow> x \<in> set ms \<or> flagged a x"
  by (induction ms arbitrary: a) (auto simp: flagged_mput)

lemma setMethods_sets:
  "flagged (asExemptMethods (svAuth (setMethods o' ss))) x \<longleftrightarrow>
    flagged (asExemptMethods (svAuth ss)) x \<or> soAllowUnauthenticatedHealthCheck o' \<and> (x = healthCheckMethod \<or> x = healthWatchMethod)"
  "flagged (asPublicMethods (svAuth (setMethods o' ss))) x \<longleftrightarrow> x \<in> set (soPublicMethods o') \<or> flagged (asPublicMethods (svAuth ss)) x"
  "sameCore ss (setMethods o' ss)" "asHandlers (svAuth (setMethods o' ss)) = asHandlers (svAuth ss)"
  "asKeys (svAuth (setMethods o' ss)) = asKeys (svAuth ss)" "asSigningKey (svAuth (setMethods o' ss)) = asSigningKey (svAuth ss)"
  "svSignalingHosts (setMethods o' ss) = svSignalingHosts ss"
  by (auto simp: setMethods_def exempt_def updAuth_def Let_def flagged_mput flagged_fold sameCore_def)

lemma registerAuth_sets:
  assumes "registerAuth env ss = Some (Inr ss')" "\<not> svUnauthenticated ss" "asExemptMethods (svAuth ss) = []"
  shows "sameCore ss ss'" "asKeys (svAuth ss') = asKeys (svAuth ss)" "asSigningKey (svAuth ss') = asSigningKey (svAuth ss)"
    "asPublicMethods (svAuth ss') = asPublicMethods (svAuth ss)" "flagged (asExemptMethods (svAuth ss')) x \<longleftrightarrow> x = authMethod"
    "mget (asHandlers (svAuth ss')) credentialsTypeInternal = Some (internalHandlers ss')"
    "svSignalingHosts ss' = svSignalingHosts ss"
proof -
  obtain s1 where r: "RegisterServiceServer env authServiceName [authServiceName] ss = Some (None, s1)"
    and ss': "ss' = exempt authMethod
      (updAuth (\<lambda>a. a\<lparr>asHandlers := mput credentialsTypeInternal (internalHandlers s1) (asHandlers a)\<rparr>) s1)"
    using assms(1,2) by (auto simp: registerAuth_def andThen_Inr registered_Inr)
  note core = RegisterServiceServer_core [OF r]
  show "sameCore ss ss'" "asKeys (svAuth ss') = asKeys (svAuth ss)" "asSigningKey (svAuth ss') = asSigningKey (svAuth ss)"
    "asPublicMethods (svAuth ss') = asPublicMethods (svAuth ss)" "flagged (asExemptMethods (svAuth ss')) x \<longleftrightarrow> x = authMethod"
    "mget (asHandlers (svAuth ss')) credentialsTypeInternal = Some (internalHandlers ss')"
    "svSignalingHosts ss' = svSignalingHosts ss"
    using core assms(3) unfolding ss'
    by (auto simp: exempt_def updAuth_def sameCore_def flagged_def internalHandlers_def)
qed

lemma internalHandlers_core: "sameCore ss ss' \<Longrightarrow> internalHandlers ss' = internalHandlers ss"
  by (simp add: internalHandlers_def sameCore_def)

lemma authReady_core:
  "authReady keyPair h p ss \<Longrightarrow> sameCore ss ss' \<Longrightarrow> svAuth ss' = svAuth ss \<Longrightarrow> authReady keyPair h p ss'"
  unfolding authReady_def using internalHandlers_core [of ss ss'] by presburger

lemma registerAuth_core:
  assumes "registerAuth env ss = Some (Inr ss')"
  shows "sameCore ss ss' \<and> svSignalingHosts ss' = svSignalingHosts ss"
proof (cases "svUnauthenticated ss")
  case True
  then show ?thesis
    using assms by (simp add: registerAuth_def)
next
  case False
  then obtain s1 where r: "RegisterServiceServer env authServiceName [authServiceName] ss = Some (None, s1)"
    and ss': "ss' = exempt authMethod
      (updAuth (\<lambda>a. a\<lparr>asHandlers := mput credentialsTypeInternal (internalHandlers s1) (asHandlers a)\<rparr>) s1)"
    using assms by (auto simp: registerAuth_def andThen_Inr registered_Inr)
  show ?thesis
    using RegisterServiceServer_core [OF r] unfolding ss' by (simp add: exempt_def updAuth_def sameCore_def)
qed

lemma registerExternalAuth_core:
  assumes "registerExternalAuth env o' ss = Some (Inr ss')"
  shows "sameCore ss ss' \<and> svAuth ss' = svAuth ss \<and> svSignalingHosts ss' = svSignalingHosts ss"
  using assms RegisterServiceServer_core [of env externalAuthServiceName "[externalAuthServiceName]" ss None ss']
  by (auto simp: registerExternalAuth_def registered_Inr split: if_splits)

lemma prepareServer_Inr:
  assumes "prepareServer env o' addr = Some (Inr ss)"
  obtains leaf o2 key rnd s1 s2 where "chooseKeys env o' = Inr o2" "validateKeys (nvKeys env) (soAuthKeys o2) = None"
    "signerKey (nvKeys env) o2 = Inr key" "registerAuth env (initialServer env o2 addr leaf key rnd) = Some (Inr s1)"
    "registerExternalAuth env o2 (setMethods o2 s1) = Some (Inr s2)" "nameServer env o2 s2 = Inr ss"
  using assms by (auto simp: prepareServer_def andThen_Inr split: option.splits)

lemma prepareServer_core:
  assumes "prepareServer env o' addr = Some (Inr ss)"
  shows "svUnauthenticated ss = soUnauthenticated o' \<and> svInternalUUID ss = nvInternalUUID env \<and>
    crType (svInternalCreds ss) = credentialsTypeInternal \<and> svListener ss = addr \<and> svSignalingHosts ss = None"
proof -
  obtain leaf o2 key rnd s1 s2 where o2: "chooseKeys env o' = Inr o2"
    and s1: "registerAuth env (initialServer env o2 addr leaf key rnd) = Some (Inr s1)"
    and s2: "registerExternalAuth env o2 (setMethods o2 s1) = Some (Inr s2)" and ss: "nameServer env o2 s2 = Inr ss"
    using prepareServer_Inr [OF assms] .
  have "sameCore (initialServer env o2 addr leaf key rnd) ss"
    using registerAuth_core [OF s1] setMethods_sets(3) registerExternalAuth_core [OF s2] nameServer_core(1) [OF ss]
    by (meson sameCore_trans)
  moreover have "svSignalingHosts ss = None"
    using registerAuth_core [OF s1] registerExternalAuth_core [OF s2]
    by (simp add: nameServer_core(8) [OF ss] setMethods_sets(7) initialServer_def)
  ultimately show ?thesis
    using chooseKeys_keeps [OF o2] by (simp add: sameCore_def initialServer_def)
qed

lemma prepareServer_ready:
  assumes "prepareServer env o' addr = Some (Inr ss)" "wfOptions (nvKeys env) o'" "\<not> soUnauthenticated o'"
    and "\<forall>priv. keyPair priv (klPublic (nvKeys env) priv)"
  shows "authReady keyPair (soAllowUnauthenticatedHealthCheck o') (soPublicMethods o') ss"
proof -
  obtain leaf o2 key rnd s1 s2 where o2: "chooseKeys env o' = Inr o2" and v: "validateKeys (nvKeys env) (soAuthKeys o2) = None"
    and key: "signerKey (nvKeys env) o2 = Inr key" and s1: "registerAuth env (initialServer env o2 addr leaf key rnd) = Some (Inr s1)"
    and s2: "registerExternalAuth env o2 (setMethods o2 s1) = Some (Inr s2)" and ss: "nameServer env o2 s2 = Inr ss"
    using prepareServer_Inr [OF assms(1)] .
  note keys = chooseKeys_wf [OF o2 assms(2)] chooseKeys_keeps [OF o2]
  have "\<not> svUnauthenticated (initialServer env o2 addr leaf key rnd)" "asExemptMethods (svAuth (initialServer env o2 addr leaf key rnd)) = []"
    using assms(3) keys(2) by (simp_all add: initialServer_def)
  note a1 = registerAuth_sets [OF s1 this]
  have a2: "sameCore (setMethods o2 s1) s2" "svAuth s2 = svAuth (setMethods o2 s1)"
    using registerExternalAuth_core [OF s2] by blast+
  note a3 = nameServer_core [OF ss]
  have "sameCore s1 ss"
    using setMethods_sets(3) a2(1) a3(1) by (meson sameCore_trans)
  from internalHandlers_core [OF this]
  have "mget (asHandlers (svAuth ss)) credentialsTypeInternal = Some (internalHandlers ss)"
    using a1(6) by (simp add: a3(2) a2(2) setMethods_sets(4))
  moreover have "signingReady keyPair (svAuth ss)"
    using signerKey_ready [where keyPair = keyPair, OF key _ v keys(1) assms(4)] assms(3) keys(2)
    by (simp add: signingReady_def a3(3,4) a2(2) setMethods_sets(5,6) a1(2,3)) (simp add: initialServer_def)
  moreover have "{m. flagged (asExemptMethods (svAuth ss)) m} = exemptOf (soAllowUnauthenticatedHealthCheck o')"
    using keys(4) by (auto simp: a3(5) a2(2) setMethods_sets(1) a1(5) exemptOf_def)
  moreover have "{m. flagged (asPublicMethods (svAuth ss)) m} = set (soPublicMethods o')"
    using keys(5) by (simp add: a3(6) a2(2) setMethods_sets(2) a1(4)) (simp add: initialServer_def flagged_def)
  ultimately show ?thesis
    using a3(7) by (simp add: authReady_def)
qed

text \<open>The three steps of a server that was made.\<close>

lemma NewServer_Inr:
  assumes "NewServer env opts w = (Some (Inr ss), w')"
  obtains o' addr s1 s2 where "applyServerOptions opts zeroServerOptions = Inr o'" "prepareServer env o' addr = Some (Inr s1)"
    "broadcast env o' s1 = Inr s2" "setupWebRTC env o' s2 = Some (Inr ss)"
    "w' = w\<lparr>swListeners := swListeners w @ [addr], swMdns := swMdns w @ svMdnsServers s2\<rparr>"
proof -
  obtain o' where o': "applyServerOptions opts zeroServerOptions = Inr o'"
    using assms by (auto simp: NewServer_def split: sum.splits)
  obtain addr where addr: "nvListen env (bindAddress o') = Inr addr"
    using assms o' by (auto simp: NewServer_def split: sum.splits if_splits)
  define r where "r = andThen (prepareServer env o' addr) (\<lambda>ss. Some (broadcast env o' ss))"
  have "\<exists>s2. r = Some (Inr s2) \<and> setupWebRTC env o' s2 = Some (Inr ss) \<and>
      w' = w\<lparr>swListeners := swListeners w @ [addr], swMdns := swMdns w @ svMdnsServers s2\<rparr>"
    using assms o' addr unfolding NewServer_def r_def [symmetric]
    by (auto simp: Let_def r_def [symmetric] split: option.splits sum.splits if_splits)
  then show thesis
    using that o' unfolding r_def by (auto simp: andThen_Inr)
qed

lemma NewServer_ready:
  assumes "\<forall>opt \<in> set opts. packageOption (nvKeys env) opt" "NewServer env opts w = (Some (Inr ss), w')"
    and "\<not> svUnauthenticated ss" "\<forall>priv. keyPair priv (klPublic (nvKeys env) priv)"
  shows "\<exists>o'. applyServerOptions opts zeroServerOptions = Inr o' \<and>
      authReady keyPair (soAllowUnauthenticatedHealthCheck o') (soPublicMethods o') ss"
    and "svInternalUUID ss = nvInternalUUID env \<and> crType (svInternalCreds ss) = credentialsTypeInternal"
    and "svSignalingHosts ss \<noteq> None \<Longrightarrow> \<exists>dialOpts hosts config. answererDialOpts ss = Some dialOpts \<and>
      newWebRTCSignalingAnswerer (addrString (svListener ss)) hosts dialOpts config \<in> set (svAnswerers ss)"
proof -
  obtain o' addr s1 s2 where o': "applyServerOptions opts zeroServerOptions = Inr o'"
    and s1: "prepareServer env o' addr = Some (Inr s1)" and s2: "broadcast env o' s1 = Inr s2" and ss: "setupWebRTC env o' s2 = Some (Inr ss)"
    using NewServer_Inr [OF assms(2)] .
  note a = prepareServer_core [OF s1]
  note b = broadcast_core [OF s2]
  have "svSignalingHosts s2 = None"
    using a b by simp
  note c = setupWebRTC_core [OF ss this]
  have core: "sameCore s1 ss" "svAuth ss = svAuth s1"
    using b c(1) sameCore_trans by auto
  have "\<not> soUnauthenticated o'"
    using a core(1) assms(3) by (simp add: sameCore_def)
  note r = prepareServer_ready [where keyPair = keyPair, OF s1 applyServerOptions_wf [OF assms(1) o' wfOptions_zero] this assms(4)]
  show "\<exists>o'. applyServerOptions opts zeroServerOptions = Inr o' \<and>
      authReady keyPair (soAllowUnauthenticatedHealthCheck o') (soPublicMethods o') ss"
    using o' authReady_core [OF r core] by blast
  show "svInternalUUID ss = nvInternalUUID env \<and> crType (svInternalCreds ss) = credentialsTypeInternal"
    using a core(1) by (simp add: sameCore_def)
  have "answererDialOpts ss = answererDialOpts s2" "svListener ss = svListener s2"
    using c(1) answererDialOpts_core by (auto simp: sameCore_def)
  then show "svSignalingHosts ss \<noteq> None \<Longrightarrow> \<exists>dialOpts hosts config. answererDialOpts ss = Some dialOpts \<and>
      newWebRTCSignalingAnswerer (addrString (svListener ss)) hosts dialOpts config \<in> set (svAnswerers ss)"
    using c(2) by simp
qed

text \<open>The credentials of a dial with an answerer's options.\<close>

definition answererCreds :: "answerer \<Rightarrow> rpc_creds" where
  "answererCreds a =
     (let o' = applyOptions (anDialOpts a) in
      \<lparr>rcEntity = doAuthEntity o', rcExternalAuthToEntity = doExternalAuthToEntity o', rcCreds = doCreds o', rcAccessToken = [],
       rcExternalAuthMaterial = doExternalAuthMaterial o'\<rparr>)"

lemma answererCreds_internal:
  assumes "answererDialOpts ss = Some dialOpts" "\<not> svUnauthenticated ss"
  shows "answererCreds (newWebRTCSignalingAnswerer address hosts dialOpts config) =
    \<lparr>rcEntity = svInternalUUID ss, rcExternalAuthToEntity = [], rcCreds = svInternalCreds ss, rcAccessToken = [],
     rcExternalAuthMaterial = []\<rparr>"
proof -
  consider t where "dialOpts = [WithTLSConfig t, WithEntityCredentials (svInternalUUID ss) (svInternalCreds ss)]"
    | "dialOpts = [WithInsecure, WithEntityCredentials (svInternalUUID ss) (svInternalCreds ss)]"
    using assms by (auto simp: answererDialOpts_def Let_def split: option.splits)
  then show ?thesis
    by cases (simp_all add: answererCreds_def newWebRTCSignalingAnswerer_def applyOptions_def zeroDialOptions_def Let_def
        WithTLSConfig_def WithInsecure_def WithEntityCredentials_def WithWebRTCOptions_def)
qed

lemma internal_known:
  assumes "authReady keyPair health public ss" "asEnsureAuthed (svAuth ss) = None" "svInternalUUID ss \<noteq> []"
    and "crType (svInternalCreds ss) = credentialsTypeInternal" "\<exists>a \<in> set (asAudience (svAuth ss)). a \<noteq> []"
  shows "knowsClient keyPair (svAuth ss)
    \<lparr>rcEntity = svInternalUUID ss, rcExternalAuthToEntity = [], rcCreds = svInternalCreds ss, rcAccessToken = [],
     rcExternalAuthMaterial = []\<rparr>"
proof -
  have "flagged (asExemptMethods (svAuth ss)) authMethod"
    using assms(1) unfolding authReady_def exemptOf_def by blast
  moreover have "mget (asHandlers (svAuth ss)) credentialsTypeInternal = Some (internalHandlers ss)" "signingReady keyPair (svAuth ss)"
    using assms(1) unfolding authReady_def by blast+
  ultimately show ?thesis
    using assms(2-5)
    by (simp add: knowsClient_def internalHandlers_def noHandlers_def MakeSimpleAuthHandler_def MakeSimpleMultiAuthHandler_def
        MakeEntitiesChecker_def)
qed


section \<open>Calls that are served\<close>

lemma withoutPos_4: "withoutPos (Some 4) ([a, b, c, d, e] @ xs) = [a, b, c, d] @ xs"
proof -
  have keep: "filter (\<lambda>(idx, _). Some idx \<noteq> Some 4) (enumerate n ys) = enumerate n ys" if "4 < n" for n :: nat and ys :: "'a list"
    using that by (induction ys arbitrary: n) auto
  show ?thesis
    using keep [of "Suc (Suc (Suc (Suc (Suc 0))))" xs] by (simp add: withoutPos_def)
qed

text \<open>What the outer interceptors make of an outcome.\<close>

definition served :: "err_env \<Rightarrow> 'r outcome \<Rightarrow> 'r outcome" where
  "served E out = recovered panicStatus (statusOutcome False E (statusOutcome True E out))"

lemma recovered_not_panicked: "recovered f out \<noteq> Panicked p"
  by (simp add: recovered_def split: outcome.splits)

lemma tracing_outcome:
  obtains (run) ctx' where "fst ctx' = fst ctx" "\<And>h. UnaryServerTracingInterceptor E ctx req h = statusOutcome True E (h ctx' req)"
  | (panic) "\<And>h. UnaryServerTracingInterceptor E ctx req h = Panicked indexPanic"
proof (cases "remoteSpanContextFromContext (fst ctx)")
  case None
  then show thesis
    by (intro panic) (simp add: UnaryServerTracingInterceptor_def)
next
  case (Some r)
  then show thesis
    by (intro run [of "case r of Inl _ \<Rightarrow> ctx | Inr sp \<Rightarrow> (fst ctx, Some sp)"])
      (simp_all add: UnaryServerTracingInterceptor_def Let_def split: sum.splits)
qed

lemma mw_simps:
  assumes "mw_laws env"
  shows "nvChainUnary env [] ctx req m h = h ctx req"
    "nvChainUnary env (i # is) ctx req m h = i ctx req m (\<lambda>ctx req. nvChainUnary env is ctx req m h)"
    "nvRecoverUnary env f ctx req m h = recovered f (h ctx req)" "nvZapUnary env ctx req m h = h ctx req"
  using assms unfolding mw_laws_def by (simp_all del: split_paired_All)

text \<open>A chain whose first four interceptors are the outer ones.\<close>

lemma outer_chain:
  assumes "mw_laws env"
  shows "nvChainUnary env (outerUnary E env @ is) ctx req m h =
    recovered panicStatus (statusOutcome False E
      (UnaryServerTracingInterceptor E ctx req (\<lambda>ctx req. nvChainUnary env is ctx req m h)))"
  by (simp add: mw_simps [OF assms] outerUnary_def unaryServerCodeInterceptor_def)

text \<open>The interceptor of the application, if there is one, on the handler.\<close>

definition appRun :: "('priv, 'pub, 'd) simple_server \<Rightarrow> 'd unary_interceptor" where
  "appRun ss ctx req m h =
     (case svUnaryInterceptor ss of None \<Rightarrow> h ctx req | Some i \<Rightarrow> unlessExempt (svAuth ss) i ctx req m h)"

lemma app_chain:
  assumes "mw_laws env"
  shows "nvChainUnary env (case svUnaryInterceptor ss of None \<Rightarrow> [] | Some i \<Rightarrow> [unlessExempt (svAuth ss) i]) ctx req m h = appRun ss ctx req m h"
  by (simp add: mw_simps [OF assms] appRun_def split: option.splits)

lemma auth_chain:
  assumes "mw_laws env"
  shows "nvChainUnary env (authUnary J E (svAuth ss) # (case svUnaryInterceptor ss of None \<Rightarrow> [] | Some i \<Rightarrow> [unlessExempt (svAuth ss) i]))
      ctx req m h = authUnary J E (svAuth ss) ctx req m (\<lambda>ctx req. appRun ss ctx req m h)"
  by (simp add: mw_simps [OF assms] app_chain [OF assms] del: split_paired_All)

lemma authUnary_private:
  assumes "jwt_sound J sigOK" "asEnsureAuthed a = None" "\<not> flagged (asExemptMethods a) m" "\<not> isPublicMethod a m"
  obtains (rejected) e where "\<And>h. authUnary J E a ctx req m h = Returned None (Some e)"
  | (admitted) c ent where "ContextAuthEntity (fst c) = Some ent"
      "byToken J sigOK a (fst ctx) (entEntity ent) \<or> byCertificate a (fst ctx) (entEntity ent)"
      "\<And>h. authUnary J E a ctx req m h = h c req"
proof (cases "ensureAuthed J E a (fst ctx)")
  case (Inl e)
  then show thesis
    using assms(3,4) by (intro rejected) (simp add: authUnary_def authUnaryInterceptor_def)
next
  case (Inr ctx')
  then obtain ent where ent: "ctx' = (fst ctx)\<lparr>ctxEntity := Some ent\<rparr>"
    "byToken J sigOK a (fst ctx) (entEntity ent) \<or> byCertificate a (fst ctx) (entEntity ent)"
    using ensureAuthed_identity [OF assms(1,2)] by blast
  show thesis
  proof (rule admitted [of "(ctx', snd ctx)" ent])
    show "ContextAuthEntity (fst (ctx', snd ctx)) = Some ent"
      using ent(1) entity_nonempty [OF ent(2)] by (simp add: ContextAuthEntity_def)
    show "authUnary J E a ctx req m h = h (ctx', snd ctx) req" for h
      using assms(3,4) Inr by (simp add: authUnary_def authUnaryInterceptor_def)
  qed (fact ent(2))
qed


text \<open>Over WebRTC nothing authenticates: the application's interceptor and the handler run in the caller's context.\<close>

lemma webrtc_calls_unchecked:
  assumes "mw_laws env" "remoteSpanContextFromContext (fst ctx) = Some (Inl e)"
  shows "webrtcUnary J E env ss ctx req m h = served E (appRun ss ctx req m h)"
proof -
  let ?app = "case svUnaryInterceptor ss of None \<Rightarrow> [] | Some i \<Rightarrow> [unlessExempt (svAuth ss) i]"
  have "withoutPos (authIntPos ss) (unaryInterceptors J E env ss) = outerUnary E env @ ?app"
  proof (cases "svUnauthenticated ss")
    case True
    have "filter (\<lambda>(idx, _). True) ys = ys" for ys :: "(nat \<times> 'd unary_interceptor) list"
      by (induction ys) auto
    then show ?thesis
      using True by (simp add: withoutPos_def authIntPos_def unaryInterceptors_def)
  next
    case False
    then show ?thesis
      using withoutPos_4 [of "nvRecoverUnary env panicStatus"] by (simp add: authIntPos_def unaryInterceptors_def outerUnary_def)
  qed
  then show ?thesis
    using assms(2)
    by (simp add: webrtcUnary_def served_def UnaryServerTracingInterceptor_def outer_chain [OF assms(1)] app_chain [OF assms(1)])
qed

section \<open>Failures\<close>

text \<open>
  Once the listener is open no failure closes it: whether a server comes out, an error, or a panic, the
  listener is among the open ones.
\<close>

lemma failed_server_keeps_listener:
  assumes "applyServerOptions opts zeroServerOptions = Inr o'" "nvListen env (bindAddress o') = Inr addr"
    and "\<not> (soUnauthenticated o' \<and> (soAuthHandlers o' \<noteq> [] \<or> soTLSAuthHandler o' \<noteq> None))"
    and "NewServer env opts w = (r, w')"
  shows "addr \<in> set (swListeners w')"
  using assms by (auto simp: NewServer_def Let_def split: option.splits sum.splits)

text \<open>A certificate without DNS names panics an authenticating server when it registers its first service.\<close>

lemma certificate_without_names_panics:
  assumes "svTLSConfig ss \<noteq> None" "svLeaf ss = Some leaf" "lcDNSNames leaf = []" "\<not> svUnauthenticated ss"
  shows "registerAuth env ss = None"
  using assms by (simp add: registerAuth_def RegisterServiceServer_def registered_def andThen_def Let_def)

section \<open>A server to look at\<close>

definition plainKeys :: "(nat, nat) key_lib" where
  "plainKeys = \<lparr>klNilPriv = 0, klNilPub = 0, klPublic = (\<lambda>_. 7), klRSAThumbprint = (\<lambda>_. Inr ''rsa''), klKeyBytes = (\<lambda>_. [1])\<rparr>"

fun plainChain :: "'d unary_interceptor list \<Rightarrow> 'd unary_interceptor" where
  "plainChain [] ctx req m h = h ctx req"
| "plainChain (i # is) ctx req m h = i ctx req m (\<lambda>ctx req. plainChain is ctx req m h)"

fun plainStreamChain :: "'d stream_interceptor list \<Rightarrow> 'd stream_interceptor" where
  "plainStreamChain [] srv st m h = h srv st"
| "plainStreamChain (i # is) srv st m h = i srv st m (\<lambda>srv st. plainStreamChain is srv st m h)"

definition plainEnv :: "(nat, nat, nat) server_env" where
  "plainEnv =
     \<lparr>nvKeys = plainKeys, nvListen = (\<lambda>_. Inr \<lparr>taIP = ''127.0.0.1'', taPort = 80\<rparr>), nvParseCertificate = (\<lambda>_. Inl (ErrText [])),
      nvGenerateKey = Inr 3, nvRandom = Inr (replicate 64 1), nvInternalUUID = ''u1'', nvInstanceUUID = ''u2'', nvHostname = Inr ''host'',
      nvInterfaces = Inr [], nvRegisterMDNS = (\<lambda>_. None), nvRegisterGateway = (\<lambda>_. None),
      nvRecoverUnary = (\<lambda>f ctx req m h. recovered f (h ctx req)), nvZapUnary = (\<lambda>ctx req m h. h ctx req), nvChainUnary = plainChain,
      nvRecoverStream = (\<lambda>f srv st m h. recovered f (h srv st)), nvZapStream = (\<lambda>srv st m h. h srv st),
      nvChainStream = plainStreamChain\<rparr>"

lemma plainEnv_laws: "mw_laws plainEnv"
  by (simp add: mw_laws_def plainEnv_def)

definition plainOpts :: "(nat, nat, nat) server_option list" where
  "plainOpts = [WithInstanceNames [''robot''], WithWebRTCServerOptions (zeroWebRTCServerOptions\<lparr>wsEnable := True\<rparr>)]"

definition emptySrvWorld :: srv_world where
  "emptySrvWorld = \<lparr>swListeners = [], swMdns = []\<rparr>"

definition internalToken :: jwt_token where
  "internalToken =
     \<lparr>tokKid = Some ''AQ'', tokMethod = ''EdDSA'',
      tokClaims = \<lparr>clSubject = ''u1'', clAudience = [''robot''], clIssuer = ''robot'', clIssuedAt = 5, clExpires = None,
        clID = ''u'', clCredsType = credentialsTypeInternal, clAuthMD = Some []\<rparr>\<rparr>"

text \<open>A library that signs one token.\<close>

definition oneTokenJWT :: "jwt_token \<Rightarrow> (nat, nat) jwt_lib" where
  "oneTokenJWT t = demoJWT\<lparr>
     parseWithClaims := (\<lambda>s kf ms.
        if s = ''tok'' \<and> tokMethod t \<in> set ms then
          (case kf t of Inl e \<Rightarrow> Inl e | Inr key \<Rightarrow> if key = 7 then Inr t else Inl (ErrText ''signature''))
        else Inl (ErrText ''malformed'')),
     signedString := (\<lambda>t' priv. if t' = t then Inr ''tok'' else Inl (ErrText ''sign''))\<rparr>"

lemma oneTokenJWT_laws:
  "jwt_sound (oneTokenJWT t) demoSig" "jwt_complete (oneTokenJWT t) demoPair" "jwt_fresh (oneTokenJWT t) 5" "jwt_nonempty (oneTokenJWT t)"
  by (auto simp: jwt_sound_def jwt_complete_def jwt_fresh_def jwt_nonempty_def oneTokenJWT_def demoJWT_def demoSig_def demoPair_def
      split: if_splits sum.splits)

text \<open>What the witnesses look up in the server.\<close>

definition plainFacts :: "(nat, nat, nat) simple_server \<Rightarrow> bool" where
  "plainFacts ss \<longleftrightarrow>
     \<not> svUnauthenticated ss \<and> svSignalingHosts ss \<noteq> None \<and> Option.is_none (asEnsureAuthed (svAuth ss)) \<and>
     asAudience (svAuth ss) = [''robot''] \<and> \<not> flagged (asExemptMethods (svAuth ss)) ''/move'' \<and> \<not> isPublicMethod (svAuth ss) ''/move'' \<and>
     list_all (\<lambda>a. fst (GetRequestMetadata (serverPeer (oneTokenJWT internalToken) plainErrEnv 5 ''u'' (svAuth ss) demoCtx) [] (answererCreds a)) =
       Inr [(''Authorization'', ''Bearer tok'')]) (svAnswerers ss)"

lemma plainServer_made:
  "\<exists>ss w'. NewServer plainEnv plainOpts emptySrvWorld = (Some (Inr ss), w') \<and> plainFacts ss"
proof -
  have "case NewServer plainEnv plainOpts emptySrvWorld of (Some (Inr ss), _) \<Rightarrow> plainFacts ss | _ \<Rightarrow> False"
    by code_simp
  then show ?thesis
    by (auto split: prod.splits option.splits sum.splits)
qed



end
