(* ===== verification/MemoryCallQueue.thy ===== *)
theory MemoryCallQueue
  imports GoPrelude "HOL-Library.Multiset"
begin

text \<open>
  The in-memory queue of call offers (\<^verbatim>\<open>src/rpc/wrtc_call_queue_memory.go\<close>).  Host queues and offer
  exchanges are Go pointers and live in two object lists; several hosts may share one host queue.  The
  channel \<^verbatim>\<open>exchangeCh\<close> is unbuffered: it is the list of the goroutines of \<^verbatim>\<open>SendOfferInit\<close> that wait
  to send on it.  The channels of an exchange are unbuffered too; whether the other side waits on one
  is an argument of the operations that use it.
\<close>

section \<open>State\<close>

record exchange =
  exUuid :: string
  exSdp :: string
  exDisableTrickle :: bool
  exDeadline :: int
  exAnswererCtx :: "err option"
  exCallerCtx :: "err option"
  exCallerErr :: "err option"
  exAnswererOnce :: bool

text \<open>A goroutine that waits to send an exchange to a host queue, with the context of its caller.\<close>

record offer_sender =
  sdQueue :: nat
  sdExchange :: nat
  sdCtx :: "err option"

record memory_queue =
  mqHosts :: "(string, nat) gomap"
  mqActive :: "(string, nat) gomap list"
  mqExchanges :: "exchange list"
  mqSenders :: "offer_sender list"
  mqCtx :: "err option"
  mqWorkers :: nat
  mqDeterministic :: bool
  mqCounter :: "64 word"

definition newMemoryWebRTCCallQueue :: "bool \<Rightarrow> memory_queue" where
  "newMemoryWebRTCCallQueue uuidDeterministic =
     \<lparr> mqHosts = [], mqActive = [], mqExchanges = [], mqSenders = [], mqCtx = None, mqWorkers = 1,
       mqDeterministic = uuidDeterministic, mqCounter = 0 \<rparr>"

definition newInactiveOfferErr :: "string \<Rightarrow> err" where
  "newInactiveOfferErr uuid = ErrTyped ''rpc.inactiveOfferError'' uuid"

section \<open>Host queues\<close>

text \<open>
  The loop over the hosts keeps the queue of the last host that has one and collects the hosts that
  have none; all of these are bound to the queue found, or to a new one.
\<close>

definition hostsScan :: "(string, nat) gomap \<Rightarrow> string list \<Rightarrow> nat option \<times> string list" where
  "hostsScan m hosts =
     fold (\<lambda>host (shared, missing).
       case mget m host of Some k \<Rightarrow> (Some k, missing) | None \<Rightarrow> (shared, missing @ [host])) hosts (None, [])"

definition getOrMakeHostsQueue :: "string list \<Rightarrow> memory_queue \<Rightarrow> nat \<times> memory_queue" where
  "getOrMakeHostsQueue hosts q =
     (case hostsScan (mqHosts q) hosts of (shared, missing) \<Rightarrow>
        let (k, q1) = (case shared of
              Some k \<Rightarrow> (k, q)
            | None \<Rightarrow> (length (mqActive q), q\<lparr>mqActive := mqActive q @ [[]]\<rparr>))
        in (k, q1\<lparr>mqHosts := fold (\<lambda>host. mput host k) missing (mqHosts q1)\<rparr>))"

definition activeOffer :: "nat \<Rightarrow> string \<Rightarrow> memory_queue \<Rightarrow> nat option" where
  "activeOffer k uuid q = mget (mqActive q ! k) uuid"

definition setExchange :: "nat \<Rightarrow> (exchange \<Rightarrow> exchange) \<Rightarrow> memory_queue \<Rightarrow> memory_queue" where
  "setExchange e f q = q\<lparr>mqExchanges := (mqExchanges q)[e := f (mqExchanges q ! e)]\<rparr>"

section \<open>The caller\<close>

text \<open>Ten seconds, in nanoseconds.\<close>

definition defaultOfferDeadline :: int where
  "defaultOfferDeadline = 10 * 10 ^ 9"

definition nextOfferUUID :: "string \<Rightarrow> memory_queue \<Rightarrow> string \<times> memory_queue" where
  "nextOfferUUID random q =
     (if mqDeterministic q then
        (''insecure-uuid-'' @ showInt (sint (mqCounter q + 1)), q\<lparr>mqCounter := mqCounter q + 1\<rparr>)
      else (random, q))"

text \<open>
  The goroutine counts itself as done before it waits, so the count of workers is unchanged when it is
  parked.  The result is the UUID and the exchange; the response channel, the done channel and the cancel
  function the caller also gets are those of the exchange.
\<close>

definition SendOfferInit ::
    "string \<Rightarrow> int \<Rightarrow> err option \<Rightarrow> string \<Rightarrow> string \<Rightarrow> bool \<Rightarrow> memory_queue \<Rightarrow> (string \<times> nat) \<times> memory_queue" where
  "SendOfferInit random now ctx host sdp disableTrickle q =
     (let (k, q1) = getOrMakeHostsQueue [host] q;
          (newUUID, q2) = nextOfferUUID random q1;
          offer = \<lparr> exUuid = newUUID, exSdp = sdp, exDisableTrickle = disableTrickle,
            exDeadline = now + defaultOfferDeadline, exAnswererCtx = mqCtx q2,
            exCallerCtx = None, exCallerErr = None, exAnswererOnce = False \<rparr>;
          e = length (mqExchanges q2)
      in ((newUUID, e),
          q2\<lparr>mqExchanges := mqExchanges q2 @ [offer],
             mqActive := (mqActive q2)[k := mput newUUID e (mqActive q2 ! k)],
             mqSenders := mqSenders q2 @ [\<lparr> sdQueue = k, sdExchange = e, sdCtx = ctx \<rparr>]\<rparr>))"

text \<open>The cancel function handed to the caller and \<^verbatim>\<open>AnswererDone\<close> cancel the same context.\<close>

definition cancelOffer :: "nat \<Rightarrow> memory_queue \<Rightarrow> memory_queue" where
  "cancelOffer e = setExchange e (\<lambda>x. x\<lparr>exAnswererCtx := cancelCtx (exAnswererCtx x)\<rparr>)"

text \<open>The result says whether the candidate was handed over.\<close>

definition SendOfferUpdate ::
    "nat \<Rightarrow> bool \<Rightarrow> err option \<Rightarrow> string \<Rightarrow> string \<Rightarrow> memory_queue \<Rightarrow> ((err option \<times> bool) \<times> memory_queue) option" where
  "SendOfferUpdate pick answererReceives ctx host uuid q =
     (let (k, q1) = getOrMakeHostsQueue [host] q in
      case activeOffer k uuid q1 of
        None \<Rightarrow> Some ((Some (newInactiveOfferErr uuid), False), q1)
      | Some e \<Rightarrow>
          map_option (\<lambda>r. (r, q1))
            (goSelect pick [map_option (\<lambda>x. (Some x, False)) ctx, if answererReceives then Some (None, True) else None]))"

definition SendOfferDone :: "string \<Rightarrow> string \<Rightarrow> memory_queue \<Rightarrow> err option \<times> memory_queue" where
  "SendOfferDone host uuid q =
     (let (k, q1) = getOrMakeHostsQueue [host] q in
      case activeOffer k uuid q1 of
        None \<Rightarrow> (Some (newInactiveOfferErr uuid), q1)
      | Some e \<Rightarrow> (None, setExchange e (\<lambda>x. x\<lparr>exCallerCtx := cancelCtx (exCallerCtx x)\<rparr>) q1))"

definition SendOfferError :: "string \<Rightarrow> string \<Rightarrow> err option \<Rightarrow> memory_queue \<Rightarrow> err option \<times> memory_queue" where
  "SendOfferError host uuid er q =
     (let (k, q1) = getOrMakeHostsQueue [host] q in
      case activeOffer k uuid q1 of
        None \<Rightarrow> (Some (newInactiveOfferErr uuid), q1)
      | Some e \<Rightarrow>
          if exCallerCtx (mqExchanges q1 ! e) \<noteq> None then (None, q1)
          else (None, (setExchange e (\<lambda>x. x\<lparr>exCallerErr := er, exCallerCtx := cancelCtx (exCallerCtx x)\<rparr>) q1)
                  \<lparr>mqActive := (mqActive q1)[k := mdel uuid (mqActive q1 ! k)]\<rparr>))"

section \<open>The answerer\<close>

text \<open>
  \<open>i\<close> is the sender the channel hands over, one of those that wait on the queue of the hosts.  A call
  that blocks has made the queues of its hosts; when it wakes up it is as if it were called then, since
  the queue of a host never changes.
\<close>

definition waitingOn :: "nat \<Rightarrow> nat \<Rightarrow> memory_queue \<Rightarrow> bool" where
  "waitingOn k i q \<longleftrightarrow> i < length (mqSenders q) \<and> sdQueue (mqSenders q ! i) = k"

fun dropAt :: "nat \<Rightarrow> 'a list \<Rightarrow> 'a list" where
  "dropAt i xs = take i xs @ drop (Suc i) xs"

definition RecvOffer ::
    "nat \<Rightarrow> nat \<Rightarrow> err option \<Rightarrow> string list \<Rightarrow> memory_queue \<Rightarrow> ((err + nat) \<times> memory_queue) option" where
  "RecvOffer pick i ctx hosts q =
     (let (k, q1) = getOrMakeHostsQueue hosts q in
      goSelect pick
        [map_option (\<lambda>x. (Inl x, q1)) ctx,
         map_option (\<lambda>x. (Inl x, q1)) (mqCtx q1),
         if waitingOn k i q1
         then Some (Inr (sdExchange (mqSenders q1 ! i)), q1\<lparr>mqSenders := dropAt i (mqSenders q1)\<rparr>) else None])"

definition CallerErr :: "exchange \<Rightarrow> err option" where
  "CallerErr resp =
     (if exCallerCtx resp = None then None
      else if exCallerErr resp \<noteq> None then exCallerErr resp
      else if errIs (exCallerCtx resp) CtxCanceled then None
      else exCallerCtx resp)"

text \<open>The result says whether the answer was handed over.\<close>

definition AnswererRespond ::
    "nat \<Rightarrow> bool \<Rightarrow> err option \<Rightarrow> exchange \<Rightarrow> (err option \<times> bool) option" where
  "AnswererRespond pick callerReceives ctx resp =
     goSelect pick
       [if callerReceives then Some (None, True) else None,
        map_option (\<lambda>x. (Some x, False)) (exAnswererCtx resp),
        map_option (\<lambda>x. (Some x, False)) ctx]"

definition AnswererDone :: "nat \<Rightarrow> memory_queue \<Rightarrow> err option \<times> memory_queue" where
  "AnswererDone e q =
     (None,
      if exAnswererOnce (mqExchanges q ! e) then q
      else setExchange e (\<lambda>x. x\<lparr>exAnswererOnce := True\<rparr>) (cancelOffer e q))"

section \<open>Background work\<close>

text \<open>One tick of the cleaner: offers whose deadline is before \<open>now\<close> are forgotten.\<close>

definition sweepQueue :: "exchange list \<Rightarrow> int \<Rightarrow> (string, nat) gomap \<Rightarrow> (string, nat) gomap" where
  "sweepQueue es now active =
     fold (\<lambda>(offerID, offer) m. if exDeadline (es ! offer) < now then mdel offerID m else m) active active"

text \<open>The hosts are iterated as the map is; a queue that several hosts share is swept more than once.\<close>

definition sweep :: "int \<Rightarrow> memory_queue \<Rightarrow> memory_queue" where
  "sweep now q =
     fold (\<lambda>(host, k) q. q\<lparr>mqActive := (mqActive q)[k := sweepQueue (mqExchanges q) now (mqActive q ! k)]\<rparr>)
       (mqHosts q) q"

text \<open>A parked goroutine of \<^verbatim>\<open>SendOfferInit\<close> may leave once either of its contexts is done.\<close>

definition senderGivesUp :: "nat \<Rightarrow> memory_queue \<Rightarrow> memory_queue option" where
  "senderGivesUp i q =
     (if i < length (mqSenders q) \<and>
        (exAnswererCtx (mqExchanges q ! sdExchange (mqSenders q ! i)) \<noteq> None \<or> sdCtx (mqSenders q ! i) \<noteq> None)
      then Some (q\<lparr>mqSenders := dropAt i (mqSenders q)\<rparr>) else None)"

text \<open>Time passes: the runtime ends the contexts whose deadline has come.\<close>

definition expireOffers :: "int \<Rightarrow> memory_queue \<Rightarrow> memory_queue" where
  "expireOffers now q =
     q\<lparr>mqExchanges := map (\<lambda>x. if exAnswererCtx x = None \<and> exDeadline x \<le> now
         then x\<lparr>exAnswererCtx := Some CtxDeadlineExceeded\<rparr> else x) (mqExchanges q)\<rparr>"

text \<open>
  \<^verbatim>\<open>Close\<close>: cancelling the context of the queue cancels those derived from it and stops the cleaner,
  whose cleanup takes it off the wait group; then \<^verbatim>\<open>Wait\<close> returns when no worker is left.
\<close>

definition closeCancel :: "memory_queue \<Rightarrow> memory_queue" where
  "closeCancel q =
     q\<lparr>mqCtx := cancelCtx (mqCtx q),
       mqExchanges := map (\<lambda>x. x\<lparr>exAnswererCtx := cancelCtx (exAnswererCtx x)\<rparr>) (mqExchanges q)\<rparr>"

definition cleanerStops :: "memory_queue \<Rightarrow> memory_queue option" where
  "cleanerStops q =
     (if mqCtx q \<noteq> None \<and> 0 < mqWorkers q then Some (q\<lparr>mqWorkers := mqWorkers q - 1\<rparr>) else None)"

definition closeReturns :: "memory_queue \<Rightarrow> bool" where
  "closeReturns q \<longleftrightarrow> mqCtx q \<noteq> None \<and> mqWorkers q = 0"

section \<open>Runs of the queue\<close>

text \<open>What callers and answerers see of a run.\<close>

datatype offer_event =
    OfferSent string nat
  | RecvCalled "string list"
  | OfferReceived "string list" nat
  | OfferAbandoned nat

type_synonym mq_run = "memory_queue \<times> offer_event list"

inductive mq_step :: "mq_run \<Rightarrow> mq_run \<Rightarrow> bool" where
  mq_init: "SendOfferInit random now ctx host sdp dt q = ((uuid, e), q') \<Longrightarrow> mq_step (q, h) (q', h @ [OfferSent host e])"
| mq_update: "SendOfferUpdate pick rdy ctx host uuid q = Some (r, q') \<Longrightarrow> mq_step (q, h) (q', h)"
| mq_done: "SendOfferDone host uuid q = (r, q') \<Longrightarrow> mq_step (q, h) (q', h)"
| mq_error: "SendOfferError host uuid er q = (r, q') \<Longrightarrow> mq_step (q, h) (q', h)"
| mq_cancel: "e < length (mqExchanges q) \<Longrightarrow> mq_step (q, h) (cancelOffer e q, h)"
| mq_recv: "RecvOffer pick i ctx hosts q = Some (Inr e, q') \<Longrightarrow>
    mq_step (q, h) (q', h @ [RecvCalled hosts, OfferReceived hosts e])"
| mq_recv_err: "RecvOffer pick i ctx hosts q = Some (Inl er, q') \<Longrightarrow> mq_step (q, h) (q', h @ [RecvCalled hosts])"
| mq_recv_waits: "mq_step (q, h) (snd (getOrMakeHostsQueue hosts q), h @ [RecvCalled hosts])"
| mq_answererDone: "e < length (mqExchanges q) \<Longrightarrow> mq_step (q, h) (snd (AnswererDone e q), h)"
| mq_callerCtx: "i < length (mqSenders q) \<Longrightarrow> mq_step (q, h)
    (q\<lparr>mqSenders := (mqSenders q)[i := (mqSenders q ! i)\<lparr>sdCtx := Some er\<rparr>]\<rparr>, h)"
| mq_giveUp: "senderGivesUp i q = Some q' \<Longrightarrow> mq_step (q, h) (q', h @ [OfferAbandoned (sdExchange (mqSenders q ! i))])"
| mq_sweep: "mq_step (q, h) (sweep now q, h)"
| mq_expire: "mq_step (q, h) (expireOffers now q, h)"
| mq_close: "mq_step (q, h) (closeCancel q, h)"
| mq_cleaner: "cleanerStops q = Some q' \<Longrightarrow> mq_step (q, h) (q', h)"

definition mq_start :: "mq_run \<Rightarrow> bool" where
  "mq_start r \<longleftrightarrow> (\<exists>det. r = (newMemoryWebRTCCallQueue det, []))"

section \<open>Host queues are stable\<close>

lemma hostsScan_eq:
  "hostsScan m hosts =
     (let known = filter (\<lambda>x. mget m x \<noteq> None) hosts
      in (if known = [] then None else mget m (last known), filter (\<lambda>x. mget m x = None) hosts))"
  unfolding hostsScan_def by (induction hosts rule: rev_induct) (auto simp: Let_def)

lemma fold_mput_const:
  "mget (fold (\<lambda>x. mput x k) xs m) y = (if y \<in> set xs then Some k else mget m y)"
  by (induction xs arbitrary: m) auto

lemma wfmap_fold_mput: "wfmap m \<Longrightarrow> wfmap (fold (\<lambda>x. mput x k) xs m)"
  by (induction xs arbitrary: m) simp_all

text \<open>
  What \<^verbatim>\<open>getOrMakeHostsQueue\<close> promises: a bound host keeps its queue, an unbound one gets the queue that
  is returned, which is the queue of the last host; nothing else changes but for a new empty queue.
\<close>

definition madeQueue :: "string list \<Rightarrow> memory_queue \<Rightarrow> nat \<Rightarrow> memory_queue \<Rightarrow> bool" where
  "madeQueue hosts q k q' \<longleftrightarrow>
     (\<forall>x. mget (mqHosts q') x = (if mget (mqHosts q) x = None \<and> x \<in> set hosts then Some k else mget (mqHosts q) x)) \<and>
     (wfmap (mqHosts q) \<longrightarrow> wfmap (mqHosts q')) \<and>
     ((\<exists>x \<in> set hosts. mget (mqHosts q) x = Some k) \<and> mqActive q' = mqActive q \<or>
      (\<forall>x \<in> set hosts. mget (mqHosts q) x = None) \<and> k = length (mqActive q) \<and> mqActive q' = mqActive q @ [[]]) \<and>
     mqExchanges q' = mqExchanges q \<and> mqSenders q' = mqSenders q \<and> mqCtx q' = mqCtx q"

lemma getOrMakeHostsQueue_made:
  assumes "getOrMakeHostsQueue hosts q = (k, q')"
  shows "madeQueue hosts q k q'" "hosts \<noteq> [] \<Longrightarrow> mget (mqHosts q') (last hosts) = Some k"
proof -
  let ?known = "filter (\<lambda>x. mget (mqHosts q) x \<noteq> None) hosts"
  show made: "madeQueue hosts q k q'"
  proof (cases "?known = []")
    case True
    then have "\<forall>x \<in> set hosts. mget (mqHosts q) x = None"
      by (simp add: filter_empty_conv)
    with True assms show ?thesis
      by (auto simp: getOrMakeHostsQueue_def hostsScan_eq madeQueue_def fold_mput_const wfmap_fold_mput)
  next
    case False
    then have "last ?known \<in> set ?known"
      by (rule last_in_set)
    then obtain j where j: "last ?known \<in> set hosts" "mget (mqHosts q) (last ?known) = Some j"
      by auto
    with False assms have "k = j" "q' = q\<lparr>mqHosts := fold (\<lambda>x. mput x k) (filter (\<lambda>x. mget (mqHosts q) x = None) hosts) (mqHosts q)\<rparr>"
      by (auto simp: getOrMakeHostsQueue_def hostsScan_eq)
    with j show ?thesis
      by (auto simp: madeQueue_def fold_mput_const wfmap_fold_mput)
  qed
  show "mget (mqHosts q') (last hosts) = Some k" if "hosts \<noteq> []"
  proof (cases "mget (mqHosts q) (last hosts)")
    case None
    with that made show ?thesis
      by (simp add: madeQueue_def)
  next
    case (Some j)
    have "hosts = butlast hosts @ [last hosts]"
      using that by simp
    then have "?known = filter (\<lambda>x. mget (mqHosts q) x \<noteq> None) (butlast hosts) @ [last hosts]"
      using Some by (metis (mono_tags, lifting) filter.simps filter_append option.distinct(1))
    with Some assms show ?thesis
      by (auto simp: getOrMakeHostsQueue_def hostsScan_eq fold_mput_const)
  qed
qed

section \<open>Invariants\<close>

text \<open>Which hosts a run has put on one queue: those that one call of \<^verbatim>\<open>RecvOffer\<close> named together.\<close>

definition linked :: "offer_event list \<Rightarrow> (string \<times> string) set" where
  "linked h = {(a, b). \<exists>hosts. RecvCalled hosts \<in> set h \<and> a \<in> set hosts \<and> b \<in> set hosts}"

definition queues_inv :: "mq_run \<Rightarrow> bool" where
  "queues_inv r \<longleftrightarrow> (case r of (q, h) \<Rightarrow>
     (\<forall>a k. mget (mqHosts q) a = Some k \<longrightarrow> k < length (mqActive q)) \<and>
     (\<forall>a b k. mget (mqHosts q) a = Some k \<longrightarrow> mget (mqHosts q) b = Some k \<longrightarrow> (a, b) \<in> (linked h)\<^sup>*))"

definition senders_inv :: "mq_run \<Rightarrow> bool" where
  "senders_inv r \<longleftrightarrow> (case r of (q, h) \<Rightarrow>
     \<forall>s \<in> set (mqSenders q). sdExchange s < length (mqExchanges q) \<and>
       (\<exists>host. OfferSent host (sdExchange s) \<in> set h \<and> mget (mqHosts q) host = Some (sdQueue s)))"

definition history_inv :: "mq_run \<Rightarrow> bool" where
  "history_inv r \<longleftrightarrow> (case r of (q, h) \<Rightarrow>
     \<forall>hosts e. OfferReceived hosts e \<in> set h \<longrightarrow>
       hosts \<noteq> [] \<and> (\<exists>host. OfferSent host e \<in> set h \<and> (host, last hosts) \<in> (linked h)\<^sup>*))"

definition sentOffers :: "offer_event list \<Rightarrow> nat list" where
  "sentOffers h = concat (map (\<lambda>x. case x of OfferSent _ e \<Rightarrow> [e] | _ \<Rightarrow> []) h)"

definition receivedOffers :: "offer_event list \<Rightarrow> nat list" where
  "receivedOffers h = concat (map (\<lambda>x. case x of OfferReceived _ e \<Rightarrow> [e] | _ \<Rightarrow> []) h)"

definition abandonedOffers :: "offer_event list \<Rightarrow> nat list" where
  "abandonedOffers h = concat (map (\<lambda>x. case x of OfferAbandoned e \<Rightarrow> [e] | _ \<Rightarrow> []) h)"

lemmas offer_lists = sentOffers_def receivedOffers_def abandonedOffers_def

definition count_inv :: "mq_run \<Rightarrow> bool" where
  "count_inv r \<longleftrightarrow> (case r of (q, h) \<Rightarrow>
     sentOffers h = [0..<length (mqExchanges q)] \<and>
     mset [0..<length (mqExchanges q)] = mset (map sdExchange (mqSenders q)) + mset (receivedOffers h) + mset (abandonedOffers h))"

definition mq_inv :: "mq_run \<Rightarrow> bool" where
  "mq_inv r \<longleftrightarrow> queues_inv r \<and> senders_inv r \<and> history_inv r \<and> count_inv r"

lemmas mq_invs = mq_inv_def queues_inv_def senders_inv_def history_inv_def count_inv_def

text \<open>
  Most steps change neither the bindings of the hosts nor the senders nor the number of exchanges.
\<close>

definition mqSame :: "memory_queue \<Rightarrow> memory_queue \<Rightarrow> bool" where
  "mqSame q q' \<longleftrightarrow> mqHosts q' = mqHosts q \<and> length (mqActive q') = length (mqActive q) \<and>
     length (mqExchanges q') = length (mqExchanges q) \<and> mqSenders q' = mqSenders q"

lemma mqSame_inv: "mqSame q q' \<Longrightarrow> mq_inv (q, h) \<Longrightarrow> mq_inv (q', h)"
  by (simp add: mqSame_def mq_invs)

lemma linked_mono: "set h \<subseteq> set h' \<Longrightarrow> (a, b) \<in> (linked h)\<^sup>* \<Longrightarrow> (a, b) \<in> (linked h')\<^sup>*"
  by (erule rtrancl_mono [THEN subsetD, rotated]) (auto simp: linked_def)

lemma linked_other [simp]:
  "linked (h @ [OfferSent host e]) = linked h"
  "linked (h @ [OfferAbandoned e]) = linked h"
  "linked (h @ [RecvCalled hosts, OfferReceived hs e]) = linked (h @ [RecvCalled hosts])"
  by (auto simp: linked_def)

lemma linked_sym: "(a, b) \<in> (linked h)\<^sup>* \<Longrightarrow> (b, a) \<in> (linked h)\<^sup>*"
  by (rule sym_rtrancl [THEN symD]) (auto simp: linked_def sym_def)

text \<open>Making queues for hosts that a receive names, or for a single host, keeps the invariant.\<close>

lemma madeQueue_queues:
  assumes made: "madeQueue hosts q k q'" and inv: "queues_inv (q, h)"
    and link: "\<forall>a \<in> set hosts. \<forall>b \<in> set hosts. (a, b) \<in> (linked h)\<^sup>*"
  shows "queues_inv (q', h)"
proof -
  let ?m = "mget (mqHosts q)"
  have old: "?m a = Some i \<Longrightarrow> i < length (mqActive q)" "?m a = Some i \<Longrightarrow> ?m b = Some i \<Longrightarrow> (a, b) \<in> (linked h)\<^sup>*" for a b i
    using inv by (auto simp: queues_inv_def)
  have m: "mget (mqHosts q') x = (if ?m x = None \<and> x \<in> set hosts then Some k else ?m x)" for x
    using made by (simp add: madeQueue_def)
  consider x where "x \<in> set hosts" "?m x = Some k" "mqActive q' = mqActive q"
    | "\<forall>x \<in> set hosts. ?m x = None" "k = length (mqActive q)" "mqActive q' = mqActive q @ [[]]"
    using made by (auto simp: madeQueue_def)
  then show ?thesis
  proof cases
    case 1
    have "(a, x) \<in> (linked h)\<^sup>*" if "mget (mqHosts q') a = Some k" for a
      using that 1 old(2) [of a k x] link by (auto simp: m split: if_splits)
    then have "(a, b) \<in> (linked h)\<^sup>*" if "mget (mqHosts q') a = Some k" "mget (mqHosts q') b = Some k" for a b
      using that by (blast intro: rtrancl_trans linked_sym)
    moreover have "(a, b) \<in> (linked h)\<^sup>*" if "mget (mqHosts q') a = Some i" "mget (mqHosts q') b = Some i" "i \<noteq> k" for a b i
      using that old(2) [of a i b] by (auto simp: m split: if_splits)
    ultimately have "(a, b) \<in> (linked h)\<^sup>*" if "mget (mqHosts q') a = Some i" "mget (mqHosts q') b = Some i" for a b i
      using that by blast
    then show ?thesis
      using 1 old(1) by (auto simp: queues_inv_def m split: if_splits)
  next
    case 2
    then have new: "?m a = Some i \<Longrightarrow> i \<noteq> k" for a i
      using old(1) by blast
    show ?thesis
      using 2 old new link by (fastforce simp: queues_inv_def m less_Suc_eq split: if_splits)
  qed
qed

lemma madeQueue_inv:
  assumes made: "madeQueue hosts q k q'" and inv: "mq_inv (q, h)"
    and link: "\<forall>a \<in> set hosts. \<forall>b \<in> set hosts. (a, b) \<in> (linked h)\<^sup>*"
  shows "mq_inv (q', h)"
proof -
  have "history_inv (q', h)" "count_inv (q', h)"
    using made inv by (simp_all add: madeQueue_def mq_inv_def history_inv_def count_inv_def)
  moreover have "senders_inv (q', h)"
    using made inv unfolding madeQueue_def mq_inv_def senders_inv_def by fastforce
  ultimately show ?thesis
    using madeQueue_queues [OF made _ link] inv by (simp add: mq_inv_def)
qed

lemma single_linked: "\<forall>a \<in> set [x]. \<forall>b \<in> set [x]. (a, b) \<in> (linked h)\<^sup>*"
  by simp

lemma RecvCalled_linked:
  "RecvCalled hosts \<in> set h \<Longrightarrow> \<forall>a \<in> set hosts. \<forall>b \<in> set hosts. (a, b) \<in> (linked h)\<^sup>*"
  by (auto simp: linked_def intro!: r_into_rtrancl)

text \<open>A history that only grows by calls keeps the invariant.\<close>

lemma mq_inv_called:
  assumes "mq_inv (q, h)"
  shows "mq_inv (q, h @ [RecvCalled hosts])"
proof -
  have "set h \<subseteq> set (h @ [RecvCalled hosts])"
    by auto
  note mono = linked_mono [OF this]
  have inv: "queues_inv (q, h)" "senders_inv (q, h)" "history_inv (q, h)" "count_inv (q, h)"
    using assms by (simp_all add: mq_inv_def)
  have "queues_inv (q, h @ [RecvCalled hosts])"
    using inv(1) mono unfolding queues_inv_def by blast
  moreover have "history_inv (q, h @ [RecvCalled hosts])"
    using inv(3) mono unfolding history_inv_def by fastforce
  moreover have "senders_inv (q, h @ [RecvCalled hosts])"
    using inv(2) by (simp add: senders_inv_def)
  moreover have "count_inv (q, h @ [RecvCalled hosts])"
    using inv(4) by (simp add: count_inv_def offer_lists)
  ultimately show ?thesis
    by (simp add: mq_inv_def)
qed

lemma recv_makes_inv:
  assumes "mq_inv (q, h)" "getOrMakeHostsQueue hosts q = (k, q1)"
  shows "mq_inv (q1, h @ [RecvCalled hosts])"
  by (rule madeQueue_inv [OF getOrMakeHostsQueue_made(1) [OF assms(2)] mq_inv_called [OF assms(1)] RecvCalled_linked]) simp

lemma host_makes_inv:
  assumes "mq_inv (q, h)" "getOrMakeHostsQueue [host] q = (k, q1)"
  shows "mq_inv (q1, h)"
  by (rule madeQueue_inv [OF getOrMakeHostsQueue_made(1) [OF assms(2)] assms(1) single_linked])

lemma dropAt_mset: "i < length xs \<Longrightarrow> mset (map f xs) = add_mset (f (xs ! i)) (mset (map f (dropAt i xs)))"
  by (subst id_take_nth_drop [of i xs]) auto

lemma filter_dropAt: "i < length xs \<Longrightarrow> \<not> P (xs ! i) \<Longrightarrow> filter P (dropAt i xs) = filter P xs"
  by (subst (2) id_take_nth_drop [of i xs]) auto

lemma dropAt_subset: "set (dropAt i xs) \<subseteq> set xs"
  by (auto dest: in_set_takeD in_set_dropD)

lemma mqSame_setExchange: "mqSame q (setExchange e f q)"
  by (simp add: mqSame_def setExchange_def)

lemma mqSame_sweep: "mqSame q (sweep now q)"
proof -
  have "mqSame q0 (fold (\<lambda>(host, k) q. q\<lparr>mqActive := (mqActive q)[k := sweepQueue (mqExchanges q) now (mqActive q ! k)]\<rparr>) xs q0)"
    for xs q0
  proof (induction xs arbitrary: q0)
    case (Cons x xs)
    show ?case
      using Cons [of "case x of (host, k) \<Rightarrow> q0\<lparr>mqActive := (mqActive q0)[k := sweepQueue (mqExchanges q0) now (mqActive q0 ! k)]\<rparr>"]
      by (cases x) (simp add: mqSame_def)
  qed (simp add: mqSame_def)
  then show ?thesis
    by (simp add: sweep_def)
qed

lemma mq_init_inv:
  assumes inv: "mq_inv (q, h)" and run: "SendOfferInit random now ctx host sdp dt q = ((uuid, e), q')"
  shows "mq_inv (q', h @ [OfferSent host e])"
proof -
  obtain k q1 where made: "getOrMakeHostsQueue [host] q = (k, q1)"
    by (cases "getOrMakeHostsQueue [host] q")
  obtain u q2 where uuid: "nextOfferUUID random q1 = (u, q2)"
    by (cases "nextOfferUUID random q1")
  have q2: "mqSame q1 q2"
    using uuid by (auto simp: nextOfferUUID_def mqSame_def split: if_splits)
  have inv2: "mq_inv (q2, h)"
    by (rule mqSame_inv [OF q2 host_makes_inv [OF inv made]])
  have k: "mget (mqHosts q2) host = Some k"
    using getOrMakeHostsQueue_made(2) [OF made] q2 by (simp add: mqSame_def)
  let ?h = "h @ [OfferSent host e]"
  have run': "e = length (mqExchanges q2)" "mqHosts q' = mqHosts q2" "length (mqActive q') = length (mqActive q2)"
    "length (mqExchanges q') = Suc (length (mqExchanges q2))"
    "mqSenders q' = mqSenders q2 @ [\<lparr> sdQueue = k, sdExchange = e, sdCtx = ctx \<rparr>]"
    using run made uuid by (auto simp: SendOfferInit_def Let_def)
  have i: "queues_inv (q2, h)" "senders_inv (q2, h)" "history_inv (q2, h)" "count_inv (q2, h)"
    using inv2 by (simp_all add: mq_inv_def)
  have "queues_inv (q', ?h)"
    using i(1) run' by (simp add: queues_inv_def)
  moreover have "history_inv (q', ?h)"
    using i(3) by (auto simp: history_inv_def)
  moreover have "senders_inv (q', ?h)"
    using i(2) run' k by (auto simp: senders_inv_def less_SucI)
  moreover have "count_inv (q', ?h)"
    using i(4) run' by (simp add: count_inv_def offer_lists atLeastLessThanSuc)
  ultimately show ?thesis
    by (simp add: mq_inv_def)
qed

lemma mq_drop_inv:
  assumes inv: "mq_inv (q, h)" and i: "i < length (mqSenders q)"
    and x: "x = OfferAbandoned (sdExchange (mqSenders q ! i)) \<or>
      (\<exists>hosts. x = OfferReceived hosts (sdExchange (mqSenders q ! i)) \<and> hosts \<noteq> [] \<and>
        mget (mqHosts q) (last hosts) = Some (sdQueue (mqSenders q ! i)))"
  shows "mq_inv (q\<lparr>mqSenders := dropAt i (mqSenders q)\<rparr>, h @ [x])"
proof -
  let ?s = "mqSenders q ! i"
  let ?q = "q\<lparr>mqSenders := dropAt i (mqSenders q)\<rparr>"
  have p: "queues_inv (q, h)" "senders_inv (q, h)" "history_inv (q, h)" "count_inv (q, h)"
    using inv by (simp_all add: mq_inv_def)
  have link: "linked (h @ [x]) = linked h"
    using x by (auto simp: linked_def)
  obtain host where host: "OfferSent host (sdExchange ?s) \<in> set h" "mget (mqHosts q) host = Some (sdQueue ?s)"
    using p(2) nth_mem [OF i] by (auto simp: senders_inv_def)
  have "(host, last hosts) \<in> (linked h)\<^sup>*" if "mget (mqHosts q) (last hosts) = Some (sdQueue ?s)" for hosts
    using p(1) host(2) that unfolding queues_inv_def by blast
  then have "history_inv (?q, h @ [x])"
    using p(3) x host(1) unfolding history_inv_def by (auto simp: link)
  moreover have "queues_inv (?q, h @ [x])"
    using p(1) by (simp add: queues_inv_def link)
  moreover have "senders_inv (?q, h @ [x])"
    using p(2) dropAt_subset [of i "mqSenders q"] by (fastforce simp: senders_inv_def simp del: dropAt.simps)
  moreover have "count_inv (?q, h @ [x])"
    using p(4) x dropAt_mset [OF i, of sdExchange] by (auto simp: count_inv_def offer_lists simp del: dropAt.simps)
  ultimately show ?thesis
    by (simp add: mq_inv_def)
qed

lemma mq_recv_inv:
  assumes "mq_inv (q, h)" "RecvOffer pick i ctx hosts q = Some (r, q')"
  shows "mq_inv (q', h @ (RecvCalled hosts # (case r of Inl _ \<Rightarrow> [] | Inr e \<Rightarrow> [OfferReceived hosts e])))"
proof -
  obtain k q1 where made: "getOrMakeHostsQueue hosts q = (k, q1)"
    by (cases "getOrMakeHostsQueue hosts q")
  note inv1 = recv_makes_inv [OF assms(1) made]
  consider er where "r = Inl er" "q' = q1"
    | "waitingOn k i q1" "r = Inr (sdExchange (mqSenders q1 ! i))" "q' = q1\<lparr>mqSenders := dropAt i (mqSenders q1)\<rparr>"
    using goSelect_enabled [OF assms(2) [unfolded RecvOffer_def made Let_def split]]
    by (auto simp: eq_commute [of "Some _" "map_option _ _"] split: if_splits)
  then show ?thesis
  proof cases
    case 1
    then show ?thesis
      using inv1 by simp
  next
    case 2
    then have i: "i < length (mqSenders q1)" "sdQueue (mqSenders q1 ! i) = k"
      by (simp_all add: waitingOn_def)
    have m: "madeQueue hosts q k q1"
      by (rule getOrMakeHostsQueue_made(1) [OF made])
    then have "mqSenders q ! i \<in> set (mqSenders q)" "sdQueue (mqSenders q ! i) = k"
      using i by (simp_all add: madeQueue_def)
    then obtain host where "mget (mqHosts q) host = Some k"
      using assms(1) unfolding mq_inv_def senders_inv_def by fastforce
    then have "k < length (mqActive q)"
      using assms(1) by (auto simp: mq_inv_def queues_inv_def)
    then have ne: "hosts \<noteq> []"
      using m by (auto simp: madeQueue_def)
    have "mget (mqHosts q1) (last hosts) = Some (sdQueue (mqSenders q1 ! i))"
      using getOrMakeHostsQueue_made(2) [OF made ne] i(2) by simp
    with 2 ne show ?thesis
      using mq_drop_inv [OF inv1 i(1), of "OfferReceived hosts (sdExchange (mqSenders q1 ! i))"] by simp
  qed
qed

lemma host_op_inv:
  assumes "mq_inv (q, h)" "getOrMakeHostsQueue [host] q = (k, q1)" "mqSame q1 q'"
  shows "mq_inv (q', h)"
  by (rule mqSame_inv [OF assms(3) host_makes_inv [OF assms(1,2)]])

lemma mqSame_trans: "mqSame a b \<Longrightarrow> mqSame b c \<Longrightarrow> mqSame a c"
  by (simp add: mqSame_def)

lemma mq_step_inv:
  assumes "mq_inv r" "mq_step r r'"
  shows "mq_inv r'"
  using assms(2,1)
proof (induction rule: mq_step.induct)
  case (mq_init random now ctx host sdp dt q uuid e q' h)
  then show ?case
    by (intro mq_init_inv)
next
  case (mq_update pick rdy ctx host uuid q r q' h)
  obtain k q1 where made: "getOrMakeHostsQueue [host] q = (k, q1)"
    by (cases "getOrMakeHostsQueue [host] q")
  then have "q' = q1"
    using mq_update(1) by (auto simp: SendOfferUpdate_def split: option.splits)
  then show ?case
    using host_makes_inv [OF mq_update(2) made] by simp
next
  case (mq_done host uuid q r q' h)
  obtain k q1 where made: "getOrMakeHostsQueue [host] q = (k, q1)"
    by (cases "getOrMakeHostsQueue [host] q")
  then have "mqSame q1 q'"
    using mq_done(1) by (auto simp: SendOfferDone_def mqSame_def setExchange_def split: option.splits)
  then show ?case
    by (rule host_op_inv [OF mq_done(2) made])
next
  case (mq_error host uuid er q r q' h)
  obtain k q1 where made: "getOrMakeHostsQueue [host] q = (k, q1)"
    by (cases "getOrMakeHostsQueue [host] q")
  then have "mqSame q1 q'"
    using mq_error(1) by (auto simp: SendOfferError_def mqSame_def setExchange_def split: option.splits if_splits)
  then show ?case
    by (rule host_op_inv [OF mq_error(2) made])
next
  case (mq_recv pick i ctx hosts q e q' h)
  then show ?case
    using mq_recv_inv [OF mq_recv(2,1)] by simp
next
  case (mq_recv_err pick i ctx hosts q er q' h)
  then show ?case
    using mq_recv_inv [OF mq_recv_err(2,1)] by simp
next
  case (mq_recv_waits q h hosts)
  then show ?case
    by (cases "getOrMakeHostsQueue hosts q") (simp add: recv_makes_inv)
next
  case (mq_callerCtx i q h er)
  then have "map sdExchange ((mqSenders q)[i := (mqSenders q ! i)\<lparr>sdCtx := Some er\<rparr>]) = map sdExchange (mqSenders q)"
    by (simp add: map_update list_update_same_conv)
  then show ?case
    using mq_callerCtx nth_mem [OF mq_callerCtx(1)] set_update_subset_insert [of "mqSenders q" i]
    by (fastforce simp: mq_invs simp flip: mset_map)
next
  case (mq_giveUp i q q' h)
  then show ?case
    using mq_drop_inv [OF mq_giveUp(2), of i] by (auto simp: senderGivesUp_def split: if_splits)
next
  case (mq_sweep q h now)
  then show ?case
    using mqSame_inv [OF mqSame_sweep] by blast
qed (auto simp: cancelOffer_def AnswererDone_def expireOffers_def closeCancel_def cleanerStops_def setExchange_def mqSame_def
    elim!: mqSame_inv [rotated] split: if_splits)

interpretation offers: inductive_invariant mq_start mq_step mq_inv
proof
  show "mq_inv r" if "mq_start r" for r
    using that by (auto simp: mq_start_def newMemoryWebRTCCallQueue_def mq_invs offer_lists)
qed (rule mq_step_inv)

section \<open>What callers and answerers can rely on\<close>

text \<open>
  C10. Every offer is delivered at most once and none is lost.  In every run of the queue the offers sent
  are exactly those that still wait for an answerer, those an answerer received and those given up after
  a context ended; and no offer is in two of these places or in one place twice.
\<close>

theorem offers_delivered_once:
  assumes "reach mq_start mq_step (q, h)"
  shows "distinct (map sdExchange (mqSenders q) @ receivedOffers h @ abandonedOffers h) \<and>
    set (map sdExchange (mqSenders q) @ receivedOffers h @ abandonedOffers h) = set (sentOffers h) \<and>
    distinct (sentOffers h)"
proof -
  let ?all = "map sdExchange (mqSenders q) @ receivedOffers h @ abandonedOffers h"
  have c: "sentOffers h = [0..<length (mqExchanges q)]" "mset [0..<length (mqExchanges q)] = mset ?all"
    using offers.reach_inv [OF assms] by (simp_all add: mq_inv_def count_inv_def add.assoc)
  then show ?thesis
    using mset_eq_setD [OF c(2)] mset_eq_imp_distinct_iff [OF c(2)] by simp
qed


text \<open>Running an offer and its receipt on a fresh queue.\<close>

definition oneOffer :: memory_queue where
  "oneOffer = snd (SendOfferInit [] 0 None ''robot'' ''sdp'' False (newMemoryWebRTCCallQueue True))"

lemma oneOffer_eq:
  "fst (SendOfferInit [] 0 None ''robot'' ''sdp'' False (newMemoryWebRTCCallQueue True)) = (''insecure-uuid-1'', 0)"
  "mqHosts oneOffer = [(''robot'', 0)]" "mqActive oneOffer = [[(''insecure-uuid-1'', 0)]]"
  "mqSenders oneOffer = [\<lparr> sdQueue = 0, sdExchange = 0, sdCtx = None \<rparr>]" "mqCtx oneOffer = None"
  "mqExchanges oneOffer = [\<lparr> exUuid = ''insecure-uuid-1'', exSdp = ''sdp'', exDisableTrickle = False,
     exDeadline = 10000000000, exAnswererCtx = None, exCallerCtx = None, exCallerErr = None, exAnswererOnce = False \<rparr>]"
  by (simp_all add: oneOffer_def SendOfferInit_def newMemoryWebRTCCallQueue_def getOrMakeHostsQueue_def hostsScan_def
      nextOfferUUID_def showInt_def decimal.simps defaultOfferDeadline_def Let_def)

lemma oneOffer_recv:
  "RecvOffer 0 0 None [''robot''] oneOffer = Some (Inr 0, oneOffer\<lparr>mqSenders := []\<rparr>)"
  by (simp add: RecvOffer_def getOrMakeHostsQueue_def hostsScan_def oneOffer_eq goSelect_def waitingOn_def Let_def)

lemma reach_oneOffer:
  "reach mq_start mq_step (oneOffer, [OfferSent ''robot'' 0])"
  "reach mq_start mq_step (oneOffer\<lparr>mqSenders := []\<rparr>, [OfferSent ''robot'' 0, RecvCalled [''robot''], OfferReceived [''robot''] 0])"
proof -
  have st: "mq_step (newMemoryWebRTCCallQueue True, []) (oneOffer, [] @ [OfferSent ''robot'' 0])"
    unfolding oneOffer_def
    by (rule mq_init [where uuid = "''insecure-uuid-1''" and random = "[]" and now = 0 and ctx = None and sdp = "''sdp''"
          and dt = False], rule prod_eqI) (simp_all only: oneOffer_eq(1) fst_conv snd_conv)
  have init: "reach mq_start mq_step (newMemoryWebRTCCallQueue True, [])"
    by (rule reach_start, unfold mq_start_def, rule exI, rule refl)
  show 1: "reach mq_start mq_step (oneOffer, [OfferSent ''robot'' 0])"
    using reach_step [where step = mq_step, OF init st] by (simp only: append_Nil)
  show "reach mq_start mq_step (oneOffer\<lparr>mqSenders := []\<rparr>, [OfferSent ''robot'' 0, RecvCalled [''robot''], OfferReceived [''robot''] 0])"
    using reach_step [where step = mq_step, OF 1 mq_recv [OF oneOffer_recv]] by (simp only: append_Cons append_Nil)
qed

theorem offers_delivered_once_witness:
  "\<exists>q h. reach mq_start mq_step (q, h) \<and> receivedOffers h = [0] \<and> mqSenders q = [] \<and>
     distinct (map sdExchange (mqSenders q) @ receivedOffers h @ abandonedOffers h)"
  using offers_delivered_once [OF reach_oneOffer(2)] reach_oneOffer(2)
  by (intro exI conjI) (assumption | simp add: receivedOffers_def)+


text \<open>
  C36. The end of an offer on the caller's side.  An error of the caller reaches the answerer and makes
  the offer inactive: later updates, errors and ends under its UUID are refused, other offers stay.  An
  offer the caller has ended is not in error, and an error reported after that is dropped.
\<close>

theorem caller_end_reaches_answerer:
  assumes "mget (mqHosts q) host = Some k" "k < length (mqActive q)" "activeOffer k uuid q = Some e"
    and "e < length (mqExchanges q)" "exCallerCtx (mqExchanges q ! e) = None" "exCallerErr (mqExchanges q ! e) = None"
  shows "(case SendOfferError host uuid (Some er) q of (r, q1) \<Rightarrow>
      r = None \<and> CallerErr (mqExchanges q1 ! e) = Some er \<and>
      SendOfferDone host uuid q1 = (Some (newInactiveOfferErr uuid), q1) \<and>
      SendOfferError host uuid er' q1 = (Some (newInactiveOfferErr uuid), q1) \<and>
      SendOfferUpdate pick rdy ctx host uuid q1 = Some ((Some (newInactiveOfferErr uuid), False), q1) \<and>
      (\<forall>u. u \<noteq> uuid \<longrightarrow> activeOffer k u q1 = activeOffer k u q)) \<and>
    (case SendOfferDone host uuid q of (r, q1) \<Rightarrow>
      r = None \<and> CallerErr (mqExchanges q1 ! e) = None \<and> SendOfferError host uuid er' q1 = (None, q1))"
proof -
  have bound: "getOrMakeHostsQueue [host] x = (k, x)" if "mget (mqHosts x) host = Some k" for x
    using that by (simp add: getOrMakeHostsQueue_def hostsScan_def)
  show ?thesis
    using assms
    by (simp add: SendOfferError_def SendOfferDone_def SendOfferUpdate_def bound setExchange_def activeOffer_def CallerErr_def)
qed

theorem caller_end_reaches_answerer_witness:
  "case SendOfferError ''robot'' ''insecure-uuid-1'' (Some EOF) oneOffer of (r, q1) \<Rightarrow>
     r = None \<and> CallerErr (mqExchanges q1 ! 0) = Some EOF \<and>
     fst (SendOfferDone ''robot'' ''insecure-uuid-1'' q1) = Some (newInactiveOfferErr ''insecure-uuid-1'')"
  using caller_end_reaches_answerer [of oneOffer "''robot''" 0 "''insecure-uuid-1''" 0 EOF None 0 False None]
  by (auto simp: oneOffer_eq activeOffer_def split: prod.splits)

text \<open>The cleaner keeps exactly the offers that have not expired.\<close>

lemma fold_mdel_get:
  "mget (fold (\<lambda>(u, e) m. if P e then mdel u m else m) xs m) v =
     (if \<exists>e. (v, e) \<in> set xs \<and> P e then None else mget m v)"
  by (induction xs arbitrary: m) (auto split: if_splits)

lemma sweepQueue_get:
  assumes "wfmap m"
  shows "mget (sweepQueue es now m) u =
    (case mget m u of None \<Rightarrow> None | Some e \<Rightarrow> if exDeadline (es ! e) < now then None else Some e)"
  unfolding sweepQueue_def fold_mdel_get
  by (cases "mget m u") (auto dest: map_of_is_SomeI [OF assms] map_of_SomeD)

lemma wfmap_sweepQueue: "wfmap m \<Longrightarrow> wfmap (sweepQueue es now m)"
proof -
  have "wfmap m \<Longrightarrow> wfmap (fold (\<lambda>(u, e) m. if P e then mdel u m else m) xs m)" for xs P and m :: "(string, nat) gomap"
    by (induction xs arbitrary: m) (auto split: if_splits)
  then show "wfmap m \<Longrightarrow> ?thesis"
    by (simp add: sweepQueue_def)
qed

definition swept :: "exchange list \<Rightarrow> int \<Rightarrow> nat option \<Rightarrow> nat option" where
  "swept es now entry = (case entry of None \<Rightarrow> None | Some e \<Rightarrow> if exDeadline (es ! e) < now then None else Some e)"

lemma swept_idem [simp]: "swept es now (swept es now x) = swept es now x"
  by (auto simp: swept_def split: option.splits)

text \<open>
  One tick of the cleaner forgets exactly the offers whose deadline is past, in every queue some host
  is bound to, also when several hosts share the queue; every other offer stays active.
\<close>

lemma sweep_forgets_expired:
  assumes "\<forall>m \<in> set (mqActive q). wfmap m" "k < length (mqActive q)"
  shows "activeOffer k u (sweep now q) =
    (if k \<in> snd ` set (mqHosts q) then
       (case activeOffer k u q of None \<Rightarrow> None | Some e \<Rightarrow> if exDeadline (mqExchanges q ! e) < now then None else Some e)
     else activeOffer k u q)"
proof -
  let ?F = "\<lambda>(host :: string, k) q. q\<lparr>mqActive := (mqActive q)[k := sweepQueue (mqExchanges q) now (mqActive q ! k)]\<rparr>"
  have "activeOffer k u (fold ?F xs q) =
      (if k \<in> snd ` set xs then swept (mqExchanges q) now (activeOffer k u q) else activeOffer k u q)"
    if "\<forall>m \<in> set (mqActive q). wfmap m" "k < length (mqActive q)" for xs q
    using that
  proof (induction xs arbitrary: q)
    case (Cons x xs)
    obtain host j where x: "x = (host, j)"
      by (cases x)
    let ?q = "?F x q"
    have len: "length (mqActive ?q) = length (mqActive q)" "mqExchanges ?q = mqExchanges q"
      by (simp_all add: x)
    have wf: "\<forall>m \<in> set (mqActive ?q). wfmap m"
      using Cons.prems(1) wfmap_sweepQueue nth_mem [of j "mqActive q"]
      by (cases "j < length (mqActive q)") (auto simp: x list_update_beyond dest!: set_update_subset_insert [THEN subsetD])
    have step: "activeOffer k u ?q = (if k = j then swept (mqExchanges q) now (activeOffer k u q) else activeOffer k u q)"
      using Cons.prems sweepQueue_get [of "mqActive q ! k" "mqExchanges q" now u] nth_mem [of k "mqActive q"]
      by (auto simp: x activeOffer_def swept_def nth_list_update)
    show ?case
      using Cons.IH [OF wf] Cons.prems(2) len step by (auto simp: x)
  qed simp
  then show ?thesis
    using assms by (simp add: sweep_def swept_def)
qed

text \<open>
  An answerer for several hosts may starve callers.  When two hosts already have queues of their own,
  \<^verbatim>\<open>RecvOffer\<close> for both serves only the queue of the last: whatever it returns, every offer that waits for
  the first host still waits.
\<close>

lemma recv_serves_last_queue_only:
  assumes "mget (mqHosts q) a = Some ka" "mget (mqHosts q) b = Some kb" "ka \<noteq> kb"
    and "RecvOffer pick i ctx [a, b] q = Some (r, q')"
  shows "filter (\<lambda>s. sdQueue s = ka) (mqSenders q') = filter (\<lambda>s. sdQueue s = ka) (mqSenders q)"
proof -
  have made: "getOrMakeHostsQueue [a, b] q = (kb, q)"
    using assms(1,2) by (simp add: getOrMakeHostsQueue_def hostsScan_def)
  have "q' = q \<or> waitingOn kb i q \<and> q' = q\<lparr>mqSenders := dropAt i (mqSenders q)\<rparr>"
    using goSelect_enabled [OF assms(4) [unfolded RecvOffer_def made Let_def split]]
    by (auto simp: eq_commute [of "Some _" "map_option _ _"] split: if_splits)
  then show ?thesis
    using assms(3) filter_dropAt [of i "mqSenders q" "\<lambda>s. sdQueue s = ka"]
    by (auto simp: waitingOn_def simp del: dropAt.simps)
qed

definition twoOffers :: memory_queue where
  "twoOffers = snd (SendOfferInit [] 0 None ''arm'' ''sdp'' False oneOffer)"

lemma twoOffers_eq:
  "mqHosts twoOffers = [(''robot'', 0), (''arm'', 1)]" "mqCtx twoOffers = None"
  "mqSenders twoOffers = [\<lparr> sdQueue = 0, sdExchange = 0, sdCtx = None \<rparr>, \<lparr> sdQueue = 1, sdExchange = 1, sdCtx = None \<rparr>]"
  by (simp_all add: twoOffers_def SendOfferInit_def getOrMakeHostsQueue_def hostsScan_def nextOfferUUID_def oneOffer_eq Let_def)

end
