(* ===== verification/SignalingServer.thy ===== *)
theory SignalingServer
  imports WebrtcDial MemoryCallQueue ServerAuth
begin

text \<open>
  The signaling service (\<^verbatim>\<open>src/rpc/wrtc_signaling_server.go\<close>): the checks of hosts, the cache of ICE servers, the
  calls that update an offer, and the two loops that relay an exchange, one in \<^verbatim>\<open>Answer\<close> and one in \<^verbatim>\<open>Call\<close>.

  The loops of one exchange are two goroutines that meet on the unbuffered channel of the offer, so an answer
  is handed over when the one waits to send it and the other is back in its select.  What the answerer sends is
  a list given in advance; failures of streams and contexts may strike at any time.
\<close>

section \<open>Hosts\<close>

definition RPCHostMetadataField :: string where
  "RPCHostMetadataField = ''rpc-host''"

definition maxHostsInMetadata :: nat where
  "maxHostsInMetadata = 5"

definition HostsFromCtx :: "'d rpc_ctx \<Rightarrow> err + string list" where
  "HostsFromCtx ctx =
     (let hosts = (case ctxMD ctx of None \<Rightarrow> [] | Some md \<Rightarrow> mdValues md RPCHostMetadataField) in
      if hosts = [] then Inl (ErrText (''expected '' @ RPCHostMetadataField @ '' to be set in metadata''))
      else if maxHostsInMetadata < length hosts then Inl (ErrText (''too many '' @ RPCHostMetadataField))
      else if [] \<in> set hosts then Inl (ErrText (''expected non-empty '' @ RPCHostMetadataField))
      else Inr hosts)"

definition HostFromCtx :: "'d rpc_ctx \<Rightarrow> err + string" where
  "HostFromCtx ctx =
     (case HostsFromCtx ctx of
        Inl e \<Rightarrow> Inl e
      | Inr hosts \<Rightarrow>
          if length hosts \<noteq> 1 then Inl (ErrText (''expected 1 '' @ RPCHostMetadataField)) else Inr (hd hosts))"

record ice_config =
  icServers :: "string list"
  icExpires :: int

record signaling_server =
  ssForHosts :: "string list"
  ssHostICEServers :: "(string, ice_config) gomap"

definition NewWebRTCSignalingServer :: "string list \<Rightarrow> signaling_server" where
  "NewWebRTCSignalingServer forHosts = \<lparr>ssForHosts = remdups forHosts, ssHostICEServers = []\<rparr>"

definition validateHosts :: "signaling_server \<Rightarrow> string list \<Rightarrow> err option" where
  "validateHosts srv hosts =
     (if ssForHosts srv = [] then None
      else if hosts = [] then Some (ErrText ''at least one host required'')
      else if list_all (\<lambda>host. host \<in> set (ssForHosts srv)) hosts then None
      else Some (ErrStatus InvalidArgument hostNotAllowedMsg))"

lemma HostsFromCtx_bounds:
  "HostsFromCtx ctx = Inr hosts \<Longrightarrow> hosts \<noteq> [] \<and> length hosts \<le> 5 \<and> [] \<notin> set hosts"
  by (auto simp: HostsFromCtx_def maxHostsInMetadata_def Let_def split: if_splits option.splits)

lemma validateHosts_ok:
  "validateHosts srv hosts = None \<longleftrightarrow> ssForHosts srv = [] \<or> hosts \<noteq> [] \<and> set hosts \<subseteq> set (ssForHosts srv)"
  by (auto simp: validateHosts_def list_all_iff)

section \<open>Additional ICE servers\<close>

text \<open>
  \<open>provider\<close> is the configured provider, if there is one, with its answer; \<open>now\<close> is the time of the request.
\<close>

fun joinHosts :: "string list \<Rightarrow> string" where
  "joinHosts [] = []"
| "joinHosts [h] = h"
| "joinHosts (h # hs) = h @ '','' @ joinHosts hs"

definition cachedServers :: "int \<Rightarrow> string \<Rightarrow> signaling_server \<Rightarrow> string list option" where
  "cachedServers now hostsKey srv =
     (case mget (ssHostICEServers srv) hostsKey of
        Some c \<Rightarrow> if now < icExpires c then Some (icServers c) else None
      | None \<Rightarrow> None)"

definition additionalICEServers ::
  "(err + ice_config) option \<Rightarrow> int \<Rightarrow> string list \<Rightarrow> bool \<Rightarrow> signaling_server \<Rightarrow> (err + string list) \<times> signaling_server" where
  "additionalICEServers provider now hosts cache srv =
     (case provider of
        None \<Rightarrow> (Inr [], srv)
      | Some answer \<Rightarrow>
          let hostsKey = joinHosts hosts in
          (case cachedServers now hostsKey srv of
             Some servers \<Rightarrow> (Inr servers, srv)
           | None \<Rightarrow>
               (case answer of
                  Inl e \<Rightarrow> (Inl e, srv)
                | Inr config \<Rightarrow>
                    (Inr (icServers config),
                     if cache then srv\<lparr>ssHostICEServers := mput hostsKey config (ssHostICEServers srv)\<rparr> else srv))))"

definition clearAdditionalICEServers :: "string list \<Rightarrow> signaling_server \<Rightarrow> signaling_server" where
  "clearAdditionalICEServers hosts srv = srv\<lparr>ssHostICEServers := fold mdel hosts (ssHostICEServers srv)\<rparr>"

definition OptionalWebRTCConfig ::
  "(err + ice_config) option \<Rightarrow> int \<Rightarrow> 'd rpc_ctx \<Rightarrow> signaling_server \<Rightarrow> (err + string list) \<times> signaling_server" where
  "OptionalWebRTCConfig provider now ctx srv =
     (case HostsFromCtx ctx of
        Inl e \<Rightarrow> (Inl e, srv)
      | Inr hosts \<Rightarrow>
          (case validateHosts srv hosts of
             Some e \<Rightarrow> (Inl e, srv)
           | None \<Rightarrow> additionalICEServers provider now hosts False srv))"

lemma OptionalWebRTCConfig_keeps: "snd (OptionalWebRTCConfig provider now ctx srv) = srv"
  by (simp add: OptionalWebRTCConfig_def additionalICEServers_def Let_def split: sum.splits option.splits)

lemma mget_fold_mdel: "mget (fold mdel hosts m) k = (if k \<in> set hosts then None else mget m k)"
  by (induction hosts arbitrary: m) auto

text \<open>
  What an answer for one host caches is cleared when it ends; for several hosts the key is the joined one,
  which is not cleared.
\<close>

lemma one_host_cleared: "mget (ssHostICEServers (clearAdditionalICEServers [h] srv)) (joinHosts [h]) = None"
  by (simp add: clearAdditionalICEServers_def)

lemma several_hosts_not_cleared:
  assumes "\<forall>h \<in> set (h1 # h2 # hs). CHR '','' \<notin> set h"
  shows "mget (ssHostICEServers (clearAdditionalICEServers (h1 # h2 # hs) srv)) (joinHosts (h1 # h2 # hs)) =
    mget (ssHostICEServers srv) (joinHosts (h1 # h2 # hs))"
proof -
  have "CHR '','' \<in> set (joinHosts (h1 # h2 # hs))"
    by simp
  then have "joinHosts (h1 # h2 # hs) \<notin> set (h1 # h2 # hs)"
    using assms by blast
  then show ?thesis
    by (simp add: clearAdditionalICEServers_def mget_fold_mdel del: fold_simps)
qed

section \<open>Updates of a call\<close>

datatype call_update = UpdCandidate string | UpdError "err option" | UpdDone | UpdOther string

text \<open>\<open>receives\<close> and \<open>ctxErr\<close> say what the rendezvous with the answerer meets; \<^const>\<open>None\<close> is a call that waits.\<close>

definition callUpdate ::
  "nat \<Rightarrow> bool \<Rightarrow> err option \<Rightarrow> 'd rpc_ctx \<Rightarrow> signaling_server \<Rightarrow> string \<Rightarrow> call_update \<Rightarrow> memory_queue \<Rightarrow>
    (err option \<times> memory_queue) option" where
  "callUpdate pick receives ctxErr ctx srv uuid upd q =
     (case HostFromCtx ctx of
        Inl e \<Rightarrow> Some (Some e, q)
      | Inr host \<Rightarrow>
          (case validateHosts srv [host] of
             Some e \<Rightarrow> Some (Some e, q)
           | None \<Rightarrow>
               (case upd of
                  UpdCandidate _ \<Rightarrow>
                    map_option (\<lambda>((e, _), q). (e, q)) (SendOfferUpdate pick receives ctxErr host uuid q)
                | UpdError er \<Rightarrow> Some (SendOfferError host uuid er q)
                | UpdDone \<Rightarrow> Some (SendOfferDone host uuid q)
                | UpdOther stage \<Rightarrow> Some (Some (ErrText (''unknown update stage '' @ stage)), q))))"

lemma callUpdate_only_allowed_hosts:
  assumes "callUpdate pick receives ctxErr ctx srv uuid upd q = Some (e, q')" "q' \<noteq> q"
  shows "\<exists>host. HostFromCtx ctx = Inr host \<and> (ssForHosts srv = [] \<or> host \<in> set (ssForHosts srv))"
  using assms validateHosts_ok by (fastforce simp: callUpdate_def split: sum.splits option.splits)

text \<open>\<^verbatim>\<open>Call\<close> up to its loop: the host it is for, the identifier of the offer and its exchange.\<close>

definition callBegin ::
  "string \<Rightarrow> int \<Rightarrow> err option \<Rightarrow> 'd rpc_ctx \<Rightarrow> string \<Rightarrow> bool \<Rightarrow> signaling_server \<Rightarrow> memory_queue \<Rightarrow>
    (err + string \<times> string \<times> nat) \<times> memory_queue" where
  "callBegin random now ctxErr ctx sdp disableTrickle srv q =
     (case HostFromCtx ctx of
        Inl e \<Rightarrow> (Inl e, q)
      | Inr host \<Rightarrow>
          (case validateHosts srv [host] of
             Some e \<Rightarrow> (Inl e, q)
           | None \<Rightarrow>
               (case SendOfferInit random now ctxErr host sdp disableTrickle q of
                  ((uuid, x), q1) \<Rightarrow> (Inr (host, uuid, x), q1))))"

text \<open>
  What \<^verbatim>\<open>Call\<close> reports to the answerer when it returns.  \<open>cancelErr\<close> and \<open>ctxErr\<close> are the errors of the service and
  of the call when the deferred function looks at them, and \<open>closedErr\<close> is that of the service once the
  function holds the lock.
\<close>

definition callErrToSend :: "nat \<Rightarrow> err option \<Rightarrow> err option \<Rightarrow> err option \<Rightarrow> err option" where
  "callErrToSend pick callErr cancelErr ctxErr =
     (case callErr of None \<Rightarrow> goSelect pick [cancelErr, ctxErr] | Some e \<Rightarrow> Some e)"

definition reportCall ::
  "nat \<Rightarrow> err option \<Rightarrow> err option \<Rightarrow> err option \<Rightarrow> err option \<Rightarrow> string \<Rightarrow> string \<Rightarrow> memory_queue \<Rightarrow> memory_queue" where
  "reportCall pick callErr cancelErr ctxErr closedErr host uuid q =
     (case callErrToSend pick callErr cancelErr ctxErr of
        None \<Rightarrow> q
      | Some e \<Rightarrow> if closedErr \<noteq> None then q else snd (SendOfferError host uuid (Some e) q))"

lemma callBegin_only_allowed_hosts:
  assumes "callBegin random now ctxErr ctx sdp disableTrickle srv q = (Inr (host, uuid, x), q')"
  shows "HostFromCtx ctx = Inr host \<and> (ssForHosts srv = [] \<or> host \<in> set (ssForHosts srv))"
  using assms validateHosts_ok by (fastforce simp: callBegin_def split: sum.splits option.splits prod.splits)

lemma failed_call_reaches_answerer:
  assumes "mget (mqHosts q) host = Some k" "activeOffer k uuid q = Some e"
    and "e < length (mqExchanges q)" "exCallerCtx (mqExchanges q ! e) = None"
    and "callErrToSend pick callErr cancelErr ctxErr = Some er"
  shows "CallerErr (mqExchanges (reportCall pick callErr cancelErr ctxErr None host uuid q) ! e) = Some er"
proof -
  have "getOrMakeHostsQueue [host] q = (k, q)"
    using assms(1) by (simp add: getOrMakeHostsQueue_def hostsScan_def)
  then show ?thesis
    using assms(2-5) by (simp add: reportCall_def SendOfferError_def setExchange_def CallerErr_def)
qed

text \<open>A closed service tells no answerer that its calls ended, the ones that end because it closes included.\<close>

lemma closed_service_reports_nothing:
  "reportCall pick callErr cancelErr ctxErr (Some e) host uuid q = q"
  by (simp add: reportCall_def split: option.splits)

section \<open>The loops of an exchange\<close>

datatype answer_stage = AnsInit string | AnsUpdate string | AnsDone | AnsError err | AnsOther string

type_synonym answer_msg = "string \<times> answer_stage"

record call_answer =
  caInitialSDP :: "string option"
  caCandidate :: "string option"
  caErr :: "err option"

text \<open>What \<^verbatim>\<open>answererLoop\<close> does with a message: respond and go on, respond and return, or return.\<close>

datatype ans_next = Respond call_answer | RespondLast call_answer | AnsReturn "err option"

definition onAnswer :: "string \<Rightarrow> answer_msg \<Rightarrow> bool \<Rightarrow> ans_next \<times> bool" where
  "onAnswer uuid m haveInit =
     (if fst m \<noteq> uuid then
        (AnsReturn (Some (ErrText (''uuid mismatch; have='' @ goQuote (fst m) @ '' want='' @ goQuote uuid))), haveInit)
      else case snd m of
        AnsInit sdp \<Rightarrow>
          if haveInit then (AnsReturn (Some (ErrText ''got init stage more than once'')), haveInit)
          else (Respond \<lparr>caInitialSDP = Some sdp, caCandidate = None, caErr = None\<rparr>, True)
      | AnsUpdate cand \<Rightarrow>
          if \<not> haveInit then (AnsReturn (Some (ErrText ''got update stage before init stage'')), haveInit)
          else (Respond \<lparr>caInitialSDP = None, caCandidate = Some cand, caErr = None\<rparr>, haveInit)
      | AnsDone \<Rightarrow>
          if \<not> haveInit then (AnsReturn (Some (ErrText ''got done stage before init stage'')), haveInit)
          else (AnsReturn None, haveInit)
      | AnsError e \<Rightarrow> (RespondLast \<lparr>caInitialSDP = None, caCandidate = None, caErr = Some e\<rparr>, haveInit)
      | AnsOther stage \<Rightarrow> (AnsReturn (Some (ErrText (''unexpected stage '' @ stage))), haveInit))"

datatype call_next = CallGoesOn | CallReturns "err option"

text \<open>One turn of the loop of \<^verbatim>\<open>Call\<close> with an answer: what it sends to the caller and how it goes on.\<close>

definition sendCandidate :: "string \<Rightarrow> (call_response \<Rightarrow> err option) \<Rightarrow> call_answer \<Rightarrow> call_response list \<times> call_next" where
  "sendCandidate uuid send resp =
     (case caCandidate resp of
        None \<Rightarrow> ([], CallGoesOn)
      | Some cand \<Rightarrow>
          (case send (CallUpdate uuid cand) of
             Some e \<Rightarrow> ([], CallReturns (Some e))
           | None \<Rightarrow> ([CallUpdate uuid cand], CallGoesOn)))"

definition onCallAnswer ::
  "string \<Rightarrow> (call_response \<Rightarrow> err option) \<Rightarrow> call_answer \<Rightarrow> bool \<Rightarrow> call_response list \<times> call_next" where
  "onCallAnswer uuid send resp haveInit =
     (case caErr resp of
        Some e \<Rightarrow> ([], CallReturns (Some (ErrWrap ''error from answerer: '' e)))
      | None \<Rightarrow>
          if haveInit then sendCandidate uuid send resp
          else case caInitialSDP resp of
            None \<Rightarrow> ([], CallReturns (Some (ErrText ''expected to have initial SDP if no error'')))
          | Some sdp \<Rightarrow>
              (case send (CallInit uuid sdp) of
                 Some e \<Rightarrow> ([], CallReturns (Some e))
               | None \<Rightarrow> (case sendCandidate uuid send resp of (sent, next) \<Rightarrow> (CallInit uuid sdp # sent, next))))"

datatype ans_pc = AnsLoop | AnsWaits call_answer bool | AnsEnded "err option"

datatype call_pc = CallLoop | CallEnded "err option"

record relay =
  rlIn :: "answer_msg list"
  rlAns :: ans_pc
  rlAnsInit :: bool
  rlRespDone :: bool
  rlExpired :: bool
  rlCall :: call_pc
  rlCallInit :: bool
  rlOut :: "call_response list"

definition relayStart :: "answer_msg list \<Rightarrow> relay \<Rightarrow> bool" where
  "relayStart msgs s \<longleftrightarrow>
     s = \<lparr>rlIn = msgs, rlAns = AnsLoop, rlAnsInit = False, rlRespDone = False, rlExpired = False, rlCall = CallLoop,
       rlCallInit = False, rlOut = []\<rparr>"

definition ansPc :: "ans_next \<Rightarrow> ans_pc" where
  "ansPc n = (case n of Respond a \<Rightarrow> AnsWaits a False | RespondLast a \<Rightarrow> AnsWaits a True | AnsReturn e \<Rightarrow> AnsEnded e)"

definition callPc :: "call_next \<Rightarrow> call_pc" where
  "callPc n = (case n of CallGoesOn \<Rightarrow> CallLoop | CallReturns e \<Rightarrow> CallEnded e)"

inductive relay_step :: "string \<Rightarrow> (call_response \<Rightarrow> err option) \<Rightarrow> relay \<Rightarrow> relay \<Rightarrow> bool" for uuid send where
  rl_recv: "rlAns s = AnsLoop \<Longrightarrow> rlIn s = m # ms \<Longrightarrow> onAnswer uuid m (rlAnsInit s) = (n, i) \<Longrightarrow>
    relay_step uuid send s (s\<lparr>rlIn := ms, rlAns := ansPc n, rlAnsInit := i\<rparr>)"
| rl_eof: "rlAns s = AnsLoop \<Longrightarrow> rlIn s = [] \<Longrightarrow> relay_step uuid send s (s\<lparr>rlAns := AnsEnded None\<rparr>)"
| rl_recv_err: "rlAns s = AnsLoop \<Longrightarrow> relay_step uuid send s (s\<lparr>rlAns := AnsEnded (Some e)\<rparr>)"
| rl_respond_err: "rlAns s = AnsWaits a l \<Longrightarrow> relay_step uuid send s (s\<lparr>rlAns := AnsEnded (Some e)\<rparr>)"
| rl_hand_over: "rlAns s = AnsWaits a l \<Longrightarrow> rlCall s = CallLoop \<Longrightarrow> onCallAnswer uuid send a (rlCallInit s) = (sent, n) \<Longrightarrow>
    relay_step uuid send s (s\<lparr>rlAns := (if l then AnsEnded None else AnsLoop), rlCall := callPc n,
      rlCallInit := (rlCallInit s \<or> caErr a = None \<and> caInitialSDP a \<noteq> None),
      rlOut := rlOut s @ sent\<rparr>)"
| rl_answerer_done: "rlAns s = AnsEnded e \<Longrightarrow> relay_step uuid send s (s\<lparr>rlRespDone := True\<rparr>)"
| rl_expire: "relay_step uuid send s (s\<lparr>rlRespDone := True, rlExpired := True\<rparr>)"
| rl_call_done: "rlCall s = CallLoop \<Longrightarrow> rlRespDone s \<Longrightarrow> relay_step uuid send s (s\<lparr>rlCall := CallEnded None\<rparr>)"
| rl_call_ctx: "rlCall s = CallLoop \<Longrightarrow> relay_step uuid send s (s\<lparr>rlCall := CallEnded (Some e)\<rparr>)"

section \<open>The relay keeps the order\<close>

text \<open>The response to the caller that a message of the answerer becomes.\<close>

fun respOf :: "answer_msg \<Rightarrow> call_response" where
  "respOf (u, AnsInit sdp) = CallInit u sdp"
| "respOf (u, AnsUpdate cand) = CallUpdate u cand"
| "respOf (u, stage) = CallOther []"

fun answerOf :: "answer_msg \<Rightarrow> call_answer" where
  "answerOf (u, AnsInit sdp) = \<lparr>caInitialSDP = Some sdp, caCandidate = None, caErr = None\<rparr>"
| "answerOf (u, AnsUpdate cand) = \<lparr>caInitialSDP = None, caCandidate = Some cand, caErr = None\<rparr>"
| "answerOf (u, AnsError e) = \<lparr>caInitialSDP = None, caCandidate = None, caErr = Some e\<rparr>"
| "answerOf (u, stage) = \<lparr>caInitialSDP = None, caCandidate = None, caErr = None\<rparr>"

definition isRelayed :: "answer_msg \<Rightarrow> bool" where
  "isRelayed m = (case snd m of AnsInit _ \<Rightarrow> True | AnsUpdate _ \<Rightarrow> True | _ \<Rightarrow> False)"

fun msgsInOrder :: "string \<Rightarrow> answer_msg list \<Rightarrow> bool" where
  "msgsInOrder uuid [] = True"
| "msgsInOrder uuid (m # ms) = ((\<exists>sdp. m = (uuid, AnsInit sdp)) \<and> list_all (\<lambda>m. \<exists>cand. m = (uuid, AnsUpdate cand)) ms)"

lemma updates_call: "list_all (\<lambda>m. \<exists>cand. m = (uuid, AnsUpdate cand)) ms \<Longrightarrow> \<exists>cands. map respOf ms = map (CallUpdate uuid) cands"
proof (induction ms)
  case (Cons m ms)
  then obtain cand cands where "m = (uuid, AnsUpdate cand)" "map respOf ms = map (CallUpdate uuid) cands"
    by auto
  then show ?case
    by (intro exI [of _ "cand # cands"]) simp
qed simp

lemma msgsInOrder_call: "msgsInOrder uuid ms \<Longrightarrow> callInOrder uuid (map respOf ms)"
  using updates_call by (cases ms) (fastforce simp: callInOrder_def)+

lemma msgsInOrder_relayed: "msgsInOrder uuid ms \<Longrightarrow> list_all isRelayed ms"
  by (cases ms) (auto simp: isRelayed_def list_all_iff)

lemma msgsInOrder_snoc:
  "msgsInOrder uuid (ms @ [m]) \<longleftrightarrow>
    (if ms = [] then \<exists>sdp. m = (uuid, AnsInit sdp) else msgsInOrder uuid ms \<and> (\<exists>cand. m = (uuid, AnsUpdate cand)))"
  by (cases ms) auto

text \<open>What a message does to the loop of the answerer.\<close>

lemma onAnswer_cases:
  assumes "onAnswer uuid m h = (n, i)"
  obtains (respond) "n = Respond (answerOf m)" "i" "\<not> h \<longrightarrow> (\<exists>sdp. m = (uuid, AnsInit sdp))" "h \<longrightarrow> (\<exists>cand. m = (uuid, AnsUpdate cand))"
  | (error) e where "n = RespondLast (answerOf m)" "m = (uuid, AnsError e)" "i = h"
  | (finished) "n = AnsReturn None" "m = (uuid, AnsDone)" "h" "i"
  | (failed) e where "n = AnsReturn (Some e)" "i = h"
  using assms by (cases m; cases "snd m") (auto simp: onAnswer_def split: if_splits)

lemma onCallAnswer_respond:
  assumes "onCallAnswer uuid send (answerOf m) h = (sent, n)"
    and "\<not> h \<longrightarrow> (\<exists>sdp. m = (uuid, AnsInit sdp))" "h \<longrightarrow> (\<exists>cand. m = (uuid, AnsUpdate cand))"
  shows "(n = CallGoesOn \<and> sent = [respOf m]) \<or> (\<exists>e. n = CallReturns (Some e) \<and> sent = [])"
  using assms by (cases h) (auto simp: onCallAnswer_def sendCandidate_def split: option.splits)

lemma onCallAnswer_error:
  "onCallAnswer uuid send (answerOf (uuid, AnsError e)) h = ([], CallReturns (Some (ErrWrap ''error from answerer: '' e)))"
  by (simp add: onCallAnswer_def)

text \<open>
  Where the relay is: the messages \<open>taken\<close> of the answerer's stream, those of them that the caller has got, and
  how far the two loops are apart.
\<close>

definition ansPlace :: "string \<Rightarrow> answer_msg list \<Rightarrow> relay \<Rightarrow> bool" where
  "ansPlace uuid taken s =
     (case rlAns s of
        AnsLoop \<Rightarrow>
          msgsInOrder uuid taken \<and> rlAnsInit s = (taken \<noteq> []) \<and>
          (rlCall s = CallLoop \<longrightarrow> rlOut s = map respOf taken \<and> rlCallInit s = (taken \<noteq> []))
      | AnsWaits a l \<Rightarrow>
          taken \<noteq> [] \<and> a = answerOf (last taken) \<and>
          (if l then msgsInOrder uuid (butlast taken) \<and> (\<exists>e. last taken = (uuid, AnsError e)) else msgsInOrder uuid taken \<and> rlAnsInit s) \<and>
          (rlCall s = CallLoop \<longrightarrow> rlOut s = map respOf (butlast taken) \<and> rlCallInit s = (butlast taken \<noteq> []))
      | AnsEnded e \<Rightarrow>
          e = None \<and> (rlCall s = CallLoop \<or> rlCall s = CallEnded None \<and> \<not> rlExpired s) \<longrightarrow>
            rlOut s = map respOf (takeWhile isRelayed (taken @ rlIn s)))"

definition relayInv :: "string \<Rightarrow> answer_msg list \<Rightarrow> relay \<Rightarrow> bool" where
  "relayInv uuid msgs s \<longleftrightarrow>
     (\<exists>taken. msgs = taken @ rlIn s \<and> ansPlace uuid taken s \<and>
        (\<exists>k \<le> length taken. msgsInOrder uuid (take k taken) \<and> rlOut s = map respOf (take k taken))) \<and>
     (rlRespDone s \<and> \<not> rlExpired s \<longrightarrow> (\<exists>e. rlAns s = AnsEnded e)) \<and>
     (rlCall s = CallEnded None \<longrightarrow> rlRespDone s)"

lemma relayInv_start: "relayStart msgs s \<Longrightarrow> relayInv uuid msgs s"
  by (auto simp: relayStart_def relayInv_def ansPlace_def)

lemma takeWhile_all: "list_all P xs \<Longrightarrow> takeWhile P (xs @ ys) = xs @ takeWhile P ys"
  by (simp add: takeWhile_append list_all_iff)

lemma relayInvI:
  assumes "msgs = taken @ rlIn t" "ansPlace uuid taken t" "k \<le> length taken" "msgsInOrder uuid (take k taken)"
    "rlOut t = map respOf (take k taken)" "rlRespDone t \<and> \<not> rlExpired t \<longrightarrow> (\<exists>e. rlAns t = AnsEnded e)"
    "rlCall t = CallEnded None \<longrightarrow> rlRespDone t"
  shows "relayInv uuid msgs t"
  using assms unfolding relayInv_def by blast

lemma relayInvE:
  assumes "relayInv uuid msgs s"
  obtains taken k where "msgs = taken @ rlIn s" "ansPlace uuid taken s" "k \<le> length taken" "msgsInOrder uuid (take k taken)"
    "rlOut s = map respOf (take k taken)" "rlRespDone s \<and> \<not> rlExpired s \<longrightarrow> (\<exists>e. rlAns s = AnsEnded e)"
    "rlCall s = CallEnded None \<longrightarrow> rlRespDone s"
  using assms unfolding relayInv_def by blast

lemma msgsInOrder_take: "msgsInOrder uuid ms \<Longrightarrow> msgsInOrder uuid (take j ms)"
  by (cases ms; cases j) (auto simp: list_all_iff dest: in_set_takeD)

text \<open>The answerer's loop takes a message, or ends.\<close>

lemma relayInv_recv:
  assumes "relayInv uuid msgs s" "rlAns s = AnsLoop" "rlIn s = m # ms" "onAnswer uuid m (rlAnsInit s) = (n, i)"
  shows "relayInv uuid msgs (s\<lparr>rlIn := ms, rlAns := ansPc n, rlAnsInit := i\<rparr>)"
proof -
  obtain taken k where inv: "msgs = taken @ rlIn s" "ansPlace uuid taken s" and tk: "k \<le> length taken" "msgsInOrder uuid (take k taken)"
    "rlOut s = map respOf (take k taken)" and dn': "rlRespDone s \<and> \<not> rlExpired s \<longrightarrow> (\<exists>e. rlAns s = AnsEnded e)"
    "rlCall s = CallEnded None \<longrightarrow> rlRespDone s"
    by (rule relayInvE [OF assms(1)])
  have place: "msgsInOrder uuid taken" "rlAnsInit s = (taken \<noteq> [])"
    "rlCall s = CallLoop \<longrightarrow> rlOut s = map respOf taken \<and> rlCallInit s = (taken \<noteq> [])"
    using inv(2) assms(2) by (simp_all add: ansPlace_def)
  have dn: "\<not> (rlRespDone s \<and> \<not> rlExpired s)" "rlCall s = CallEnded None \<longrightarrow> rlRespDone s"
    using dn' assms(2) by auto
  have "ansPlace uuid (taken @ [m]) (s\<lparr>rlIn := ms, rlAns := ansPc n, rlAnsInit := i\<rparr>)"
    using assms(4)
  proof (cases rule: onAnswer_cases)
    case respond
    have "msgsInOrder uuid (taken @ [m])"
      using respond(3,4) place(1,2) by (simp add: msgsInOrder_snoc)
    then show ?thesis
      using respond(1,2) place(3) by (simp add: ansPlace_def ansPc_def)
  next
    case (error e)
    then show ?thesis
      using place(1,3) by (simp add: ansPlace_def ansPc_def)
  next
    case finished
    then have "takeWhile isRelayed ((taken @ [m]) @ ms) = taken"
      using takeWhile_all [OF msgsInOrder_relayed [OF place(1)], of "m # ms"] by (simp add: isRelayed_def)
    then show ?thesis
      using finished(1) place(3) dn by (auto simp: ansPlace_def ansPc_def)
  next
    case (failed e)
    then show ?thesis
      by (simp add: ansPlace_def ansPc_def)
  qed
  then show ?thesis
    using inv(1) assms(3) tk dn by (intro relayInvI [of _ "taken @ [m]" _ _ k]) auto
qed

lemma relayInv_ends:
  assumes "relayInv uuid msgs s" "rlAns s = AnsLoop \<and> (e = None \<longrightarrow> rlIn s = []) \<or> rlAns s = AnsWaits a l \<and> e \<noteq> None"
  shows "relayInv uuid msgs (s\<lparr>rlAns := AnsEnded e\<rparr>)"
proof -
  obtain taken k where tk: "msgs = taken @ rlIn s" "ansPlace uuid taken s" "k \<le> length taken" "msgsInOrder uuid (take k taken)"
    "rlOut s = map respOf (take k taken)" and dn: "\<not> (rlRespDone s \<and> \<not> rlExpired s)" "rlCall s = CallEnded None \<longrightarrow> rlRespDone s"
    using assms unfolding relayInv_def by auto
  have "ansPlace uuid taken (s\<lparr>rlAns := AnsEnded e\<rparr>)"
  proof (cases e)
    case None
    then have "rlAns s = AnsLoop" "rlIn s = []"
      using assms(2) by auto
    moreover from this have "list_all isRelayed taken"
      using tk(2) msgsInOrder_relayed by (auto simp: ansPlace_def)
    then have "map respOf (takeWhile isRelayed taken) = map respOf taken"
      using takeWhile_all [of isRelayed taken "[]"] by (metis append_Nil2 takeWhile.simps(1))
    ultimately show ?thesis
      using tk(2) dn None by (auto simp: ansPlace_def simp del: map_eq_conv)
  qed (simp add: ansPlace_def)
  then show ?thesis
    using tk dn by (intro relayInvI [of _ taken _ _ k]) auto
qed

text \<open>The two loops meet.\<close>

lemma relayInv_hand_over:
  assumes "relayInv uuid msgs s" "rlAns s = AnsWaits a l" "rlCall s = CallLoop" "onCallAnswer uuid send a (rlCallInit s) = (sent, n)"
  shows "relayInv uuid msgs (s\<lparr>rlAns := (if l then AnsEnded None else AnsLoop), rlCall := callPc n,
    rlCallInit := (rlCallInit s \<or> caErr a = None \<and> caInitialSDP a \<noteq> None), rlOut := rlOut s @ sent\<rparr>)" (is "relayInv _ _ ?t")
proof -
  obtain taken k where inv: "msgs = taken @ rlIn s" "ansPlace uuid taken s" "k \<le> length taken" "msgsInOrder uuid (take k taken)"
    "rlOut s = map respOf (take k taken)" and dn: "\<not> (rlRespDone s \<and> \<not> rlExpired s)"
    using assms(1,2) unfolding relayInv_def by auto
  obtain prev m where t: "taken = prev @ [m]"
    using inv(2) assms(2) by (cases taken rule: rev_cases) (auto simp: ansPlace_def)
  note tk = inv(1,3-5) [unfolded t]
  have a: "a = answerOf m" and out: "rlOut s = map respOf prev" "rlCallInit s = (prev \<noteq> [])"
    using inv(2) assms(2,3) by (simp_all add: ansPlace_def t)
  have l: "if l then msgsInOrder uuid prev \<and> (\<exists>e. m = (uuid, AnsError e)) else msgsInOrder uuid (prev @ [m]) \<and> rlAnsInit s"
    using inv(2) assms(2) by (cases l) (simp_all add: ansPlace_def t)
  show ?thesis
  proof (cases l)
    case True
    then obtain e where "sent = []" "callPc n = CallEnded (Some e)"
      using assms(4) a l onCallAnswer_error [of uuid send] by (auto simp: callPc_def)
    then show ?thesis
      using True tk dn by (intro relayInvI [of _ "prev @ [m]" _ _ k]) (auto simp: ansPlace_def)
  next
    case False
    then have m: "msgsInOrder uuid (prev @ [m])" "rlAnsInit s" "\<not> rlCallInit s \<longrightarrow> (\<exists>sdp. m = (uuid, AnsInit sdp))"
      "rlCallInit s \<longrightarrow> (\<exists>cand. m = (uuid, AnsUpdate cand))"
      using l out(2) by (auto simp: msgsInOrder_snoc split: if_splits)
    consider "n = CallGoesOn" "sent = [respOf m]" | e where "n = CallReturns (Some e)" "sent = []"
      using onCallAnswer_respond [of uuid send m "rlCallInit s" sent n] assms(4) a m(3,4) by blast
    then show ?thesis
    proof cases
      case 1
      have "rlCallInit ?t"
        using m(3) a by (cases "rlCallInit s") auto
      then show ?thesis
        using False 1 tk(1) m(1,2) out(1) dn
        by (intro relayInvI [of _ "prev @ [m]" _ _ "length (prev @ [m])"]) (auto simp: ansPlace_def callPc_def)
    next
      case 2
      then show ?thesis
        using False tk m(1,2) dn by (intro relayInvI [of _ "prev @ [m]" _ _ k]) (auto simp: ansPlace_def callPc_def)
    qed
  qed
qed

lemma relayInv_call_ends:
  assumes "relayInv uuid msgs s" "rlCall s = CallLoop" "e = None \<longrightarrow> rlRespDone s"
  shows "relayInv uuid msgs (s\<lparr>rlCall := CallEnded e\<rparr>)"
proof -
  obtain taken k where tk: "msgs = taken @ rlIn s" "ansPlace uuid taken s" "k \<le> length taken" "msgsInOrder uuid (take k taken)"
    "rlOut s = map respOf (take k taken)" and dn: "rlRespDone s \<and> \<not> rlExpired s \<longrightarrow> (\<exists>e. rlAns s = AnsEnded e)"
    using assms(1) unfolding relayInv_def by blast
  have "ansPlace uuid taken (s\<lparr>rlCall := CallEnded e\<rparr>)"
    using tk(2) assms(2) by (auto simp: ansPlace_def split: ans_pc.splits)
  then show ?thesis
    using tk dn assms(3) by (intro relayInvI [of _ taken _ _ k]) auto
qed

lemma relayInv_respDone:
  assumes "relayInv uuid msgs s" "x \<or> (\<exists>e. rlAns s = AnsEnded e)"
  shows "relayInv uuid msgs (s\<lparr>rlRespDone := True, rlExpired := (x \<or> rlExpired s)\<rparr>)"
proof -
  obtain taken k where tk: "msgs = taken @ rlIn s" "ansPlace uuid taken s" "k \<le> length taken" "msgsInOrder uuid (take k taken)"
    "rlOut s = map respOf (take k taken)"
    using assms(1) unfolding relayInv_def by blast
  have "ansPlace uuid taken (s\<lparr>rlRespDone := True, rlExpired := (x \<or> rlExpired s)\<rparr>)"
    using tk(2) by (auto simp: ansPlace_def split: ans_pc.splits)
  then show ?thesis
    using tk assms(2) by (intro relayInvI [of _ taken _ _ k]) auto
qed

lemma relayInv_step:
  assumes "relayInv uuid msgs s" "relay_step uuid send s t"
  shows "relayInv uuid msgs t"
  using assms(2)
proof cases
  case (rl_answerer_done e)
  then show ?thesis
    using relayInv_respDone [OF assms(1), of False] by simp
next
  case rl_expire
  then show ?thesis
    using relayInv_respDone [OF assms(1), of True] by simp
next
  case (rl_hand_over a l sent n)
  then show ?thesis
    using relayInv_hand_over [OF assms(1)] by simp
qed (use assms(1) relayInv_recv relayInv_ends relayInv_call_ends in \<open>auto\<close>)

interpretation relay_loops: inductive_invariant "relayStart msgs" "relay_step uuid send" "relayInv uuid msgs"
  by unfold_locales (auto intro: relayInv_start relayInv_step)



section \<open>The caller's side of the exchange\<close>

datatype caller_event = OfferCtxDone err | CallerIsDone | CallerCandidate string

datatype answer_request = ReqUpdate string | ReqError err | ReqDone

text \<open>
  The loop of \<^verbatim>\<open>callerLoop\<close> over what its select meets: what it sends to the answerer, and its result once it
  returns.
\<close>

fun callerLoop ::
  "err_env \<Rightarrow> (answer_request \<Rightarrow> err option) \<Rightarrow> err option \<Rightarrow> caller_event list \<Rightarrow> answer_request list \<times> err option option" where
  "callerLoop E send callerErr [] = ([], None)"
| "callerLoop E send callerErr (OfferCtxDone e # evs) = ([], Some (Some e))"
| "callerLoop E send callerErr (CallerIsDone # evs) =
     (case callerErr of
        None \<Rightarrow> ([], Some None)
      | Some e \<Rightarrow>
          (case send (ReqError e) of
             Some e2 \<Rightarrow> ([], Some (merrCombine E [Some e, Some e2]))
           | None \<Rightarrow> ([ReqError e], Some (Some e))))"
| "callerLoop E send callerErr (CallerCandidate cand # evs) =
     (case send (ReqUpdate cand) of
        Some e \<Rightarrow> ([], Some (Some e))
      | None \<Rightarrow> (case callerLoop E send callerErr evs of (sent, r) \<Rightarrow> (ReqUpdate cand # sent, r)))"

definition callerRelay ::
  "err_env \<Rightarrow> (answer_request \<Rightarrow> err option) \<Rightarrow> err option \<Rightarrow> bool \<Rightarrow> caller_event list \<Rightarrow> answer_request list \<times> err option option" where
  "callerRelay E send callerErr answererStoppedExchange evs =
     (case callerLoop E send callerErr evs of
        (sent, None) \<Rightarrow> (sent, None)
      | (sent, Some r) \<Rightarrow> (sent @ (if \<not> answererStoppedExchange \<and> send ReqDone = None then [ReqDone] else []), Some r))"

fun candidatesOf :: "caller_event list \<Rightarrow> string list" where
  "candidatesOf [] = []"
| "candidatesOf (CallerCandidate cand # evs) = cand # candidatesOf evs"
| "candidatesOf (ev # evs) = candidatesOf evs"

lemma callerLoop_in_order:
  "\<exists>k rest. fst (callerLoop E send callerErr evs) = map ReqUpdate (take k (candidatesOf evs)) @ rest \<and>
    (rest = [] \<or> (\<exists>e. callerErr = Some e \<and> rest = [ReqError e]))"
proof (induction E send callerErr evs rule: callerLoop.induct)
  case (4 E send callerErr cand evs)
  show ?case
  proof (cases "send (ReqUpdate cand)")
    case None
    then obtain k rest where "fst (callerLoop E send callerErr evs) = map ReqUpdate (take k (candidatesOf evs)) @ rest"
      "rest = [] \<or> (\<exists>e. callerErr = Some e \<and> rest = [ReqError e])"
      using 4 by blast
    then show ?thesis
      using None by (cases "callerLoop E send callerErr evs") (auto intro!: exI [of _ "Suc k"] exI [of _ rest])
  qed (auto intro: exI [of _ 0])
qed (auto split: option.splits intro: exI [of _ 0])

section \<open>Taking an offer\<close>

datatype answer_begin = AnswerFails err | AnswerRelays nat

text \<open>\<^verbatim>\<open>Answer\<close> up to its loops; \<open>initErr\<close> is the error of sending the offer and \<open>cancelErr\<close> that of the closed server.\<close>

definition answerBegin ::
  "nat \<Rightarrow> nat \<Rightarrow> err option \<Rightarrow> (err + ice_config) option \<Rightarrow> int \<Rightarrow> 'd rpc_ctx \<Rightarrow> err option \<Rightarrow> err option \<Rightarrow>
    signaling_server \<Rightarrow> memory_queue \<Rightarrow> (answer_begin \<times> signaling_server \<times> memory_queue) option" where
  "answerBegin pick i ctxErr provider now ctx initErr cancelErr srv q =
     (case HostsFromCtx ctx of
        Inl e \<Rightarrow> Some (AnswerFails e, srv, q)
      | Inr hosts \<Rightarrow>
          (case validateHosts srv hosts of
             Some e \<Rightarrow> Some (AnswerFails e, srv, q)
           | None \<Rightarrow>
               (case RecvOffer pick i ctxErr hosts q of
                  None \<Rightarrow> None
                | Some (Inl e, q1) \<Rightarrow> Some (AnswerFails e, clearAdditionalICEServers hosts srv, q1)
                | Some (Inr offer, q1) \<Rightarrow>
                    (case additionalICEServers provider now hosts True srv of
                       (Inl e, srv1) \<Rightarrow> Some (AnswerFails e, clearAdditionalICEServers hosts srv1, q1)
                     | (Inr servers, srv1) \<Rightarrow>
                         (case initErr of
                            Some e \<Rightarrow> Some (AnswerFails e, clearAdditionalICEServers hosts srv1, q1)
                          | None \<Rightarrow>
                              (case cancelErr of
                                 Some e \<Rightarrow> Some (AnswerFails e, clearAdditionalICEServers hosts srv1, q1)
                               | None \<Rightarrow> Some (AnswerRelays offer, srv1, q1)))))))"

text \<open>
  An offer that was taken and could not be passed on is lost: it is off the queue, and its exchange is neither
  answered nor ended.
\<close>

lemma failed_answer_loses_offer:
  assumes "HostsFromCtx ctx = Inr hosts" "validateHosts srv hosts = None" "RecvOffer pick i ctxErr hosts q = Some (Inr offer, q1)"
    and "answerBegin pick i ctxErr provider now ctx initErr cancelErr srv q = Some (AnswerFails e, srv', q')"
  shows "q' = q1"
  using assms by (auto simp: answerBegin_def split: prod.splits sum.splits option.splits)

section \<open>Closing the service\<close>

text \<open>
  The workers that \<^verbatim>\<open>Close\<close> waits for.  The check of the context and the count are one step, since they hold
  the lock that \<^verbatim>\<open>Close\<close> takes to cancel.  A goroutine that sends the error of a call takes itself off the count
  when it starts.
\<close>

datatype sig_worker = CallerLoopRuns | ErrorSenderNew | ErrorSenderSends

datatype close_pc = CloseIdle | CloseWaits | CloseReturned

record sig_close =
  scCanceled :: bool
  scWorkers :: nat
  scThreads :: "sig_worker list"
  scClose :: close_pc

definition sigCloseStart :: "sig_close \<Rightarrow> bool" where
  "sigCloseStart s \<longleftrightarrow> s = \<lparr>scCanceled = False, scWorkers = 0, scThreads = [], scClose = CloseIdle\<rparr>"

inductive sig_close_step :: "sig_close \<Rightarrow> sig_close \<Rightarrow> bool" where
  sc_answer: "\<not> scCanceled s \<Longrightarrow>
    sig_close_step s (s\<lparr>scWorkers := scWorkers s + 1, scThreads := scThreads s @ [CallerLoopRuns]\<rparr>)"
| sc_call_error: "\<not> scCanceled s \<Longrightarrow>
    sig_close_step s (s\<lparr>scWorkers := scWorkers s + 1, scThreads := scThreads s @ [ErrorSenderNew]\<rparr>)"
| sc_loop_ends: "scThreads s = a @ CallerLoopRuns # b \<Longrightarrow>
    sig_close_step s (s\<lparr>scWorkers := scWorkers s - 1, scThreads := a @ b\<rparr>)"
| sc_sender_starts: "scThreads s = a @ ErrorSenderNew # b \<Longrightarrow>
    sig_close_step s (s\<lparr>scWorkers := scWorkers s - 1, scThreads := a @ ErrorSenderSends # b\<rparr>)"
| sc_sender_ends: "scThreads s = a @ ErrorSenderSends # b \<Longrightarrow> sig_close_step s (s\<lparr>scThreads := a @ b\<rparr>)"
| sc_close: "scClose s = CloseIdle \<Longrightarrow> sig_close_step s (s\<lparr>scCanceled := True, scClose := CloseWaits\<rparr>)"
| sc_return: "scClose s = CloseWaits \<Longrightarrow> scWorkers s = 0 \<Longrightarrow> sig_close_step s (s\<lparr>scClose := CloseReturned\<rparr>)"

definition counted :: "sig_worker \<Rightarrow> bool" where
  "counted t \<longleftrightarrow> t \<noteq> ErrorSenderSends"

definition sigCloseInv :: "sig_close \<Rightarrow> bool" where
  "sigCloseInv s \<longleftrightarrow>
     scWorkers s = length (filter counted (scThreads s)) \<and> (scClose s \<noteq> CloseIdle \<longrightarrow> scCanceled s) \<and>
     (scClose s = CloseReturned \<longrightarrow> scWorkers s = 0)"

interpretation sig_closing: inductive_invariant sigCloseStart sig_close_step sigCloseInv
proof
  show "sigCloseStart s \<Longrightarrow> sigCloseInv s" for s
    by (simp add: sigCloseStart_def sigCloseInv_def)
  show "sigCloseInv s \<Longrightarrow> sig_close_step s t \<Longrightarrow> sigCloseInv t" for s t
    by (erule sig_close_step.cases) (auto simp: sigCloseInv_def counted_def)
qed

lemma closed_service_runs_no_loop:
  assumes "reach sigCloseStart sig_close_step s" "scClose s = CloseReturned"
  shows "CallerLoopRuns \<notin> set (scThreads s)"
proof -
  have "filter counted (scThreads s) = []"
    using sig_closing.reach_inv [OF assms(1)] assms(2) unfolding sigCloseInv_def by (metis length_0_conv)
  then show ?thesis
    by (auto simp: filter_empty_conv counted_def)
qed

text \<open>\<^verbatim>\<open>Close\<close> does not wait for a goroutine that sends the error of a call.\<close>

lemma closed_service_still_sends: "\<exists>s. reach sigCloseStart sig_close_step s \<and> scClose s = CloseReturned \<and> ErrorSenderSends \<in> set (scThreads s)"
proof -
  let ?s0 = "\<lparr>scCanceled = False, scWorkers = 0, scThreads = [], scClose = CloseIdle\<rparr>"
  let ?s1 = "\<lparr>scCanceled = False, scWorkers = 1, scThreads = [ErrorSenderNew], scClose = CloseIdle\<rparr>"
  let ?s2 = "\<lparr>scCanceled = False, scWorkers = 0, scThreads = [ErrorSenderSends], scClose = CloseIdle\<rparr>"
  let ?s3 = "\<lparr>scCanceled = True, scWorkers = 0, scThreads = [ErrorSenderSends], scClose = CloseWaits\<rparr>"
  let ?s4 = "\<lparr>scCanceled = True, scWorkers = 0, scThreads = [ErrorSenderSends], scClose = CloseReturned\<rparr>"
  have steps: "sig_close_step ?s0 ?s1" "sig_close_step ?s1 ?s2" "sig_close_step ?s2 ?s3" "sig_close_step ?s3 ?s4"
    using sc_call_error [of ?s0] sc_sender_starts [of ?s1 "[]" "[]"] sc_close [of ?s2] sc_return [of ?s3] by simp_all
  have "reach sigCloseStart sig_close_step ?s0"
    by (rule reach_start) (simp add: sigCloseStart_def)
  from reach_step [OF reach_step [OF reach_step [OF reach_step [OF this steps(1)] steps(2)] steps(3)] steps(4)]
  show ?thesis
    by (intro exI [of _ ?s4]) simp
qed

end
