(* ===== verification/Spec2Isabelle.thy ===== *)
theory Spec2Isabelle
  imports CloseProtocol UnaryCall ArtifactEnsure ProcessManager CachedDialer Dial ServerConfig SignalingServer
begin

text \<open>
  A verification development of \<^verbatim>\<open>go.viam.com/utils\<close>: gRPC over WebRTC data channels with its signaling,
  authentication, dialing and server construction (\<^verbatim>\<open>src/rpc\<close>), versioned artifacts (\<^verbatim>\<open>src/artifact\<close>)
  and managed processes (\<^verbatim>\<open>src/pexec\<close>), with the few helpers of \<^verbatim>\<open>src/error.go\<close> and \<^verbatim>\<open>src/ref.go\<close> they rest on.

  \<^bold>\<open>Conventions.\<close>  Definitions keep the names of the code.  A struct is a record, a Go map an association
  list with distinct keys, a \<^verbatim>\<open>[]byte\<close> a list of 8-bit words, an identifier a word of its width.  An operation
  takes the state it works on and returns it updated; an error is a value of type \<open>err\<close>, and a call that
  blocks forever or panics is \<^verbatim>\<open>None\<close> unless a datatype says more.  A \<^verbatim>\<open>select\<close> with several ready cases takes the
  choice as an argument.  Code that interleaves is an \<open>inductive\<close> step relation at the granularity of its
  locks, atomics and channel operations; \<open>reach\<close> and the locale \<open>inductive_invariant\<close> of \<open>GoPrelude\<close> carry
  the invariants.  Code outside the repository (protobuf, JWT, pion, grpc, zeroconf, the operating system)
  is a parameter, and what a theorem needs of it is a named hypothesis that some witness discharges.

  \<^bold>\<open>Foundations.\<close>
  \<^item> \<open>GoPrelude\<close>: maps, errors, \<^verbatim>\<open>select\<close>, reachability.  \<open>GoErrors\<close>: \<^verbatim>\<open>src/error.go\<close> and gRPC statuses.
  \<^item> \<open>GoDuration\<close>, \<open>GoJson\<close>, \<open>GoStrconv\<close>, \<open>GoAddr\<close>: what the code uses of \<^verbatim>\<open>time\<close>, \<^verbatim>\<open>encoding/json\<close>,
    \<^verbatim>\<open>strconv\<close>, \<^verbatim>\<open>net\<close> and \<^verbatim>\<open>encoding/base64\<close>.

  \<^bold>\<open>gRPC over WebRTC.\<close>
  \<^item> \<open>WebrtcProto\<close>, \<open>FrameCodec\<close>: the frames (\<^verbatim>\<open>grpc.pb.go\<close>) and a concrete codec that shows the assumption on
    encodings can hold.  \<open>BaseStream\<close>, \<open>Framing\<close> (\<^verbatim>\<open>wrtc_base_stream.go\<close>, the loops of \<^verbatim>\<open>SendMsg\<close> and
    \<^verbatim>\<open>writeMessage\<close>): streams are queues that lose nothing, and splitting then reassembling a message
    gives it back.  \<open>BaseChannel\<close> (\<^verbatim>\<open>wrtc_base_channel.go\<close>): writes go out whole or not at all.
  \<^item> \<open>CloseProtocol\<close>: delivery and closing of one stream interleaved; nothing is sent on a closed channel.
  \<^item> \<open>ServerStream\<close>, \<open>ServerFrames\<close>, \<open>WebrtcServer\<close>, \<open>StreamTable\<close>, \<open>ServerChannel\<close> (\<^verbatim>\<open>wrtc_server_stream.go\<close>,
    \<^verbatim>\<open>wrtc_server.go\<close>, \<^verbatim>\<open>wrtc_server_channel.go\<close>): order of response frames, bound on handlers, the table of
    open streams.  \<open>ClientStream\<close>, \<open>ClientChannel\<close> (\<^verbatim>\<open>wrtc_client_stream.go\<close>, \<^verbatim>\<open>wrtc_client_channel.go\<close>).
  \<^item> \<open>UnaryCall\<close>: a unary call through all of these returns what the handler returned.

  \<^bold>\<open>Signaling.\<close>  \<open>MemoryCallQueue\<close> (\<^verbatim>\<open>wrtc_call_queue_memory.go\<close>): an offer is delivered once and to an answerer
  of its host.  \<open>SignalingServer\<close> (\<^verbatim>\<open>wrtc_signaling_server.go\<close>): hosts, ICE servers, the relay of \<^verbatim>\<open>Call\<close> and
  \<^verbatim>\<open>Answer\<close> as two interleaved loops, \<^verbatim>\<open>Close\<close>; the caller gets a prefix of what the answerer sent, in order.

  \<^bold>\<open>Authentication and dialing.\<close>
  \<^item> \<open>ServerAuth\<close> (\<^verbatim>\<open>server_auth.go\<close>, \<^verbatim>\<open>auth.go\<close>, \<^verbatim>\<open>context.go\<close>), \<open>ClientAuth\<close> (\<^verbatim>\<open>perRPCJWTCredentials\<close> of \<^verbatim>\<open>dialer.go\<close>,
    \<^verbatim>\<open>client_interceptors.go\<close>): private calls run under a proved entity, and a client known to one server is
    let in at one that trusts it.
  \<^item> \<open>DialOptions\<close>, \<open>DirectDial\<close>, \<open>WebrtcDial\<close>, \<open>CachedDialer\<close>, \<open>Dial\<close> (\<^verbatim>\<open>dial_options.go\<close>, \<^verbatim>\<open>dialer.go\<close>,
    \<^verbatim>\<open>wrtc_client.go\<close>, \<^verbatim>\<open>dial.go\<close>, \<^verbatim>\<open>ref.go\<close>): plaintext needs consent, the exchange of candidates acts in
    order, shared connections close with their last user, and a dial leaks no connection.

  \<^bold>\<open>Making a server.\<close>  \<open>Tracing\<close> (\<^verbatim>\<open>server_interceptors.go\<close>, \<^verbatim>\<open>client_interceptors.go\<close>), \<open>ServerOptions\<close>
  (\<^verbatim>\<open>server_options.go\<close>), \<open>ServerConfig\<close> (\<^verbatim>\<open>NewServer\<close> of \<^verbatim>\<open>server.go\<close>): the interceptor chains that a server is
  built with authenticate every non-exempt call and never panic, a span arrives unchanged, and the
  answerer the server starts for itself is let in.

  \<^bold>\<open>Artifacts.\<close>  \<open>ArtifactTree\<close>, \<open>ArtifactStore\<close>, \<open>ArtifactCache\<close>, \<open>ArtifactSync\<close>, \<open>ArtifactEnsure\<close> (\<^verbatim>\<open>src/artifact\<close>):
  the tree refines a map from paths, its JSON form reads back, stores keep their contract under caching,
  and \<^verbatim>\<open>WriteThroughUser\<close>, \<^verbatim>\<open>Ensure\<close> and \<^verbatim>\<open>Clean\<close> do to the directory what they promise.

  \<^bold>\<open>Processes.\<close>  \<open>ProcessConfig\<close>, \<open>ManagedProcess\<close>, \<open>ProcessManager\<close> (\<^verbatim>\<open>src/pexec\<close>): configurations read back,
  a managed process never panics while it is started once and its \<^verbatim>\<open>Stop\<close> returns, and a stopped manager
  leaves no process.

  \<^bold>\<open>Bounds and fuel.\<close>  \<open>FilterOutError\<close> takes fuel for the nesting of bundles; multierr keeps them flat, and
  two levels always give a result then (\<open>FilterOutError_returns\<close>).  The packet loop is a partial function,
  since it would not end for a packet size of zero; for \<open>Suc n\<close> it returns.  The managed process takes the
  number of starts as an argument, 1 for the safe case and 2 for the panic of a second start.  Other loops
  recurse on their data or have a termination proof.

  \<^bold>\<open>Not modelled.\<close>
  \<^item> \<^verbatim>\<open>Start\<close>, \<^verbatim>\<open>Serve\<close> and \<^verbatim>\<open>Stop\<close> of \<^verbatim>\<open>server.go\<close>, and the worker loops of \<^verbatim>\<open>wrtc_signaling_answerer.go\<close>: they drive
    HTTP servers, gRPC streams and pion peer connections.  \<^verbatim>\<open>wrtc_peer.go\<close> is pion callbacks throughout.
  \<^item> \<^verbatim>\<open>wrtc_call_queue_mongodb.go\<close> and \<^verbatim>\<open>src/mongo\<close>: their behaviour is that of a database server.
  \<^item> \<^verbatim>\<open>src/web\<close>, \<^verbatim>\<open>src/perf\<close>, \<^verbatim>\<open>src/jwks\<close>, \<^verbatim>\<open>src/secrets\<close>, \<^verbatim>\<open>src/usb\<close>, \<^verbatim>\<open>src/serial\<close>: wrappers of third-party services and devices.
  \<^item> Generated protobuf code, the JavaScript client, examples, test helpers and build tools.
\<close>

end
